theory Spec2Isabelle
  imports Complex_Main "HOL-Library.Multiset" "HOL-Library.AList"
begin

section \<open>MemoryMind AI: the opponent (js/ai.js) and the match controller (js/game.js)\<close>

text \<open>
  Conventions of the embedding.
  \<^item> JavaScript numbers are modelled as reals (counts and indices as naturals); rounding of
    IEEE doubles is not modelled.
  \<^item> \<open>Math.random()\<close> is an oracle: a stream of reals read at a position. The runtime
    guarantees a value in \<open>[0, 1)\<close>, so the model returns the fractional part of the
    stream's entry (every value of \<open>[0, 1)\<close> arises this way).
  \<^item> \<open>async\<close> functions run to completion without interleaving: delays, DOM updates,
    events, console output and localStorage do not touch the state modelled here and are
    left out.
  \<^item> Reading an index outside an array gives \<open>undefined\<close> in JavaScript: \<open>None\<close> here.
    Reading a property of \<open>undefined\<close> throws: \<open>Inl TypeError\<close> here.
\<close>

subsection \<open>Runtime: random numbers, array reads, sorting\<close>

record rng =
  draws :: "nat \<Rightarrow> real"
  pos :: nat

definition Math_random :: "rng \<Rightarrow> real \<times> rng" where
  "Math_random g = (frac (draws g (pos g)), g\<lparr>pos := Suc (pos g)\<rparr>)"

definition nth_opt :: "'a list \<Rightarrow> nat \<Rightarrow> 'a option" where
  "nth_opt xs i = (if i < length xs then Some (xs ! i) else None)"

text \<open>\<open>Array.prototype.sort\<close> is stable; \<open>le a b\<close> says the comparator does not put
  \<open>a\<close> after \<open>b\<close>.\<close>

fun insortBy :: "('a \<Rightarrow> 'a \<Rightarrow> bool) \<Rightarrow> 'a \<Rightarrow> 'a list \<Rightarrow> 'a list" where
  "insortBy le x [] = [x]"
| "insortBy le x (y # ys) = (if le x y then x # y # ys else y # insortBy le x ys)"

definition sortBy :: "('a \<Rightarrow> 'a \<Rightarrow> bool) \<Rightarrow> 'a list \<Rightarrow> 'a list" where
  "sortBy le xs = foldr (insortBy le) xs []"

text \<open>A number that a division can produce: finite, \<open>Infinity\<close> or \<open>NaN\<close>
  (\<open>-Infinity\<close> never survives \<open>Math.max(0, _)\<close>).\<close>

datatype jsnum = Num real | PosInf | NaN

definition max0_div :: "real \<Rightarrow> int \<Rightarrow> jsnum" where
  \<comment> \<open>\<open>Math.max(0, a / b)\<close>\<close>
  "max0_div a b =
     (if b = 0 then (if a > 0 then PosInf else if a < 0 then Num 0 else NaN)
      else Num (max 0 (a / real_of_int b)))"

definition or_zero :: "jsnum option \<Rightarrow> jsnum" where
  \<comment> \<open>\<open>x || 0\<close>: \<open>undefined\<close>, \<open>NaN\<close> and \<open>0\<close> are falsy\<close>
  "or_zero x = (case x of None \<Rightarrow> Num 0 | Some NaN \<Rightarrow> Num 0 | Some v \<Rightarrow> v)"

fun js_gt :: "jsnum \<Rightarrow> real \<Rightarrow> bool" where
  "js_gt (Num x) t = (x > t)"
| "js_gt PosInf t = True"
| "js_gt NaN t = False"

fun js_ge :: "jsnum \<Rightarrow> jsnum \<Rightarrow> bool" where
  \<comment> \<open>the comparator \<open>b - a\<close> of a descending sort does not put \<open>a\<close> after \<open>b\<close>\<close>
  "js_ge (Num x) (Num y) = (x \<ge> y)"
| "js_ge PosInf _ = True"
| "js_ge (Num x) PosInf = False"
| "js_ge NaN _ = True"
| "js_ge _ NaN = True"

subsection \<open>js/utils.js: GameUtils\<close>

fun shuffle_loop :: "nat \<Rightarrow> 'a list \<Rightarrow> rng \<Rightarrow> 'a list \<times> rng" where
  "shuffle_loop 0 shuffled g = (shuffled, g)"
| "shuffle_loop (Suc n) shuffled g =
     (let i = Suc n;
          (r, g') = Math_random g;
          j = nat \<lfloor>r * real (i + 1)\<rfloor>
      in shuffle_loop n (shuffled[i := shuffled ! j, j := shuffled ! i]) g')"

definition shuffleArray :: "'a list \<Rightarrow> rng \<Rightarrow> 'a list \<times> rng" where
  "shuffleArray array g = shuffle_loop (length array - 1) array g"

definition randomChoice :: "'a list \<Rightarrow> rng \<Rightarrow> 'a option \<times> rng" where
  "randomChoice array g =
     (let (r, g') = Math_random g
      in (nth_opt array (nat \<lfloor>r * real (length array)\<rfloor>), g'))"

datatype symbol = Star | Circle | Triangle | Square

definition SYMBOLS :: "symbol list" where
  "SYMBOLS = [Star, Circle, Triangle, Square]"

definition SYMBOL_NAMES :: "string list" where
  "SYMBOL_NAMES = [''star'', ''circle'', ''triangle'', ''square'']"

text \<open>The four entries of \<open>GAME_CONSTANTS.DIFFICULTIES\<close>. A \<open>config\<close> field that
  refers to one of them is modelled by the entry it refers to. (After a reconfiguration with
  an inherited key \<open>config\<close> refers to none of them: see \<open>ForeignAI\<close> and
  \<open>ForeignGame\<close> below.)\<close>

datatype level = beginner | intermediate | advanced | expert

fun rows :: "level \<Rightarrow> nat" where
  "rows beginner = 4" | "rows intermediate = 4" | "rows advanced = 6" | "rows expert = 6"

fun cols :: "level \<Rightarrow> nat" where
  "cols beginner = 4" | "cols intermediate = 6" | "cols advanced = 6" | "cols expert = 8"

fun aiAccuracy :: "level \<Rightarrow> real" where
  "aiAccuracy beginner = 7 / 10"
| "aiAccuracy intermediate = 85 / 100"
| "aiAccuracy advanced = 95 / 100"
| "aiAccuracy expert = 98 / 100"

text \<open>\<open>DIFFICULTIES[key]\<close>: an own property, a property inherited from
  \<open>Object.prototype\<close> (a function or object, hence truthy, without \<open>rows\<close>,
  \<open>cols\<close> or \<open>aiAccuracy\<close>), or \<open>undefined\<close>.\<close>

datatype property = Profile level | Inherited | Undefined

definition objectPrototypeKeys :: "string list" where
  "objectPrototypeKeys =
     [''constructor'', ''__proto__'', ''hasOwnProperty'', ''isPrototypeOf'',
      ''propertyIsEnumerable'', ''toLocaleString'', ''toString'', ''valueOf'',
      ''__defineGetter__'', ''__defineSetter__'', ''__lookupGetter__'', ''__lookupSetter__'']"

definition DIFFICULTIES :: "string \<Rightarrow> property" where
  "DIFFICULTIES key =
     (if key = ''beginner'' then Profile beginner
      else if key = ''intermediate'' then Profile intermediate
      else if key = ''advanced'' then Profile advanced
      else if key = ''expert'' then Profile expert
      else if key \<in> set objectPrototypeKeys then Inherited
      else Undefined)"

text \<open>After \<open>setDifficulty\<close> or \<open>changeDifficulty\<close> with an inherited key the program
  goes on with a \<open>config\<close> that is no profile. Such an object is kept apart from those whose
  \<open>config\<close> is an entry of the table.\<close>

datatype ('p, 'f) configured = WithProfile 'p | WithoutProfile 'f

datatype failure =
    TypeError      \<comment> \<open>a property of \<open>undefined\<close> was read\<close>

subsection \<open>js/ai.js: class MemoryAI\<close>

text \<open>
  \<open>memory\<close>, \<open>probabilityMatrix\<close> and \<open>revealedCards\<close> are \<open>Map\<close>s: association
  lists in insertion order, written with \<open>AList.update\<close> (\<open>Map.prototype.set\<close> keeps the
  place of a key that is present). A pattern is \<open>(cardIndex, moveNumber)\<close> (its timestamp
  is never read), an area \<open>`${r}-${c}`\<close> is the pair \<open>(r, c)\<close>, a history entry is
  \<open>(cards, wasMatch, symbols, moveNumber)\<close>, a \<open>revealedCards\<close> entry is
  \<open>(symbol, moveNumber, isPlayerMove)\<close>. \<open>knownPairs\<close> is a \<open>Set\<close>: a list
  without repetition. The opponent's fields \<open>difficulty\<close> and \<open>config\<close> are named
  \<open>ai_difficulty\<close> and \<open>ai_config\<close>, since the game has fields of the same names.
\<close>

record MemoryAI =
  ai_difficulty :: string
  memory :: "(nat \<times> symbol) list"
  probabilityMatrix :: "(nat \<times> (symbol \<times> jsnum) list) list"
  playerPatterns :: "(nat \<times> nat) list"
  gameHistory :: "((nat \<times> nat) \<times> bool \<times> (symbol \<times> symbol) \<times> nat) list"
  thinkingTime :: nat
  ai_config :: level
  memoryAccuracy :: real
  explorationRate :: real
  knownPairs :: "symbol list"
  revealedCards :: "(nat \<times> (symbol \<times> nat \<times> bool)) list"
  moveCount :: nat

definition reset :: "MemoryAI \<Rightarrow> MemoryAI" where
  "reset a = a\<lparr>memory := [], probabilityMatrix := [], playerPatterns := [],
               gameHistory := [], knownPairs := [], revealedCards := [], moveCount := 0\<rparr>"

text \<open>The opponent whose \<open>config\<close> is a property that the table inherits from
  \<open>Object.prototype\<close>, named by its key. Its fields carry the names of \<open>MemoryAI\<close> with
  a prime; \<open>memoryAccuracy\<close> can be \<open>undefined\<close> (\<open>None\<close>).\<close>

record ForeignAI =
  ai_difficulty' :: string
  memory' :: "(nat \<times> symbol) list"
  probabilityMatrix' :: "(nat \<times> (symbol \<times> jsnum) list) list"
  playerPatterns' :: "(nat \<times> nat) list"
  gameHistory' :: "((nat \<times> nat) \<times> bool \<times> (symbol \<times> symbol) \<times> nat) list"
  thinkingTime' :: nat
  ai_config' :: string
  memoryAccuracy' :: "real option"
  explorationRate' :: real
  knownPairs' :: "symbol list"
  revealedCards' :: "(nat \<times> (symbol \<times> nat \<times> bool)) list"
  moveCount' :: nat

definition has :: "('k \<times> 'v) list \<Rightarrow> 'k \<Rightarrow> bool" where
  "has m k = (map_of m k \<noteq> None)"

definition symbolCounts :: "MemoryAI \<Rightarrow> symbol \<Rightarrow> nat" where
  "symbolCounts a s = count_list (map snd (memory a)) s"

definition probabilities :: "MemoryAI \<Rightarrow> (symbol \<times> jsnum) list" where
  "probabilities a =
     (let totalCards = rows (ai_config a) * cols (ai_config a);
          symbolsPerType = real totalCards / real (length SYMBOLS)
      in map (\<lambda>s. (s, max0_div (symbolsPerType - real (symbolCounts a s))
                                (int totalCards - int (length (memory a))))) SYMBOLS)"

definition updateProbabilities :: "symbol \<Rightarrow> MemoryAI \<Rightarrow> MemoryAI" where
  "updateProbabilities revealedSymbol a =
     a\<lparr>probabilityMatrix :=
         foldl (\<lambda>pm i. if \<not> has (memory a) i then AList.update i (probabilities a) pm else pm)
               (probabilityMatrix a) [0 ..< rows (ai_config a) * cols (ai_config a)]\<rparr>"

definition trackPlayerPattern :: "nat \<Rightarrow> MemoryAI \<Rightarrow> MemoryAI" where
  "trackPlayerPattern cardIndex a =
     (let ps = playerPatterns a @ [(cardIndex, moveCount a)]
      in a\<lparr>playerPatterns := (if length ps > 20 then tl ps else ps)\<rparr>)"

definition observeCard :: "nat \<Rightarrow> symbol \<Rightarrow> bool \<Rightarrow> MemoryAI \<times> rng \<Rightarrow> MemoryAI \<times> rng" where
  "observeCard cardIndex symb isPlayerMove ag =
     (let (a, g) = ag;
          (r, g') = Math_random g;
          a1 = (if r < memoryAccuracy a
                then a\<lparr>memory := AList.update cardIndex symb (memory a),
                       revealedCards :=
                         AList.update cardIndex (symb, moveCount a, isPlayerMove) (revealedCards a)\<rparr>
                else a);
          a2 = updateProbabilities symb a1;
          a3 = (if isPlayerMove then trackPlayerPattern cardIndex a2 else a2)
      in (a3\<lparr>moveCount := moveCount a3 + 1\<rparr>, g'))"

definition areaOf :: "nat \<Rightarrow> nat \<Rightarrow> nat \<times> nat" where
  "areaOf gridCols index = ((index div gridCols) div 2, (index mod gridCols) div 2)"

definition areaPreferences :: "MemoryAI \<Rightarrow> ((nat \<times> nat) \<times> nat) list" where
  "areaPreferences a =
     foldl (\<lambda>m p. let area = areaOf (cols (ai_config a)) (fst p)
                   in AList.update area ((case map_of m area of None \<Rightarrow> 0 | Some n \<Rightarrow> n) + 1) m)
           [] (playerPatterns a)"

definition analyzePlayerPatterns :: "MemoryAI \<Rightarrow> (nat \<times> nat) list \<times> real" where
  "analyzePlayerPatterns a =
     (if length (playerPatterns a) < 3 then ([], 0)
      else let sortedAreas = take 2 (sortBy (\<lambda>x y. snd y \<le> snd x) (areaPreferences a))
           in (map fst sortedAreas,
               (case sortedAreas of [] \<Rightarrow> 0
                | x # _ \<Rightarrow> real (snd x) / real (length (playerPatterns a)))))"

fun findKnownPairs_loop :: "(nat \<times> symbol) list \<Rightarrow> nat list \<Rightarrow> (nat \<times> nat) option" where
  "findKnownPairs_loop m [] = None"
| "findKnownPairs_loop m (card1 # rest) =
     (case find (\<lambda>card2. map_of m card1 = map_of m card2) rest of
        Some card2 \<Rightarrow> Some (card1, card2)
      | None \<Rightarrow> findKnownPairs_loop m rest)"

definition findKnownPairs :: "MemoryAI \<Rightarrow> nat list \<Rightarrow> (nat \<times> nat) option" where
  "findKnownPairs a availableCards =
     findKnownPairs_loop (memory a) (filter (has (memory a)) availableCards)"

definition candidates :: "MemoryAI \<Rightarrow> nat list \<Rightarrow> symbol \<Rightarrow> (nat \<times> jsnum) list" where
  "candidates a availableCards knownSymbol =
     sortBy (\<lambda>x y. js_ge (snd x) (snd y))
       (filter (\<lambda>card. js_gt (snd card) (3 / 10))
          (map (\<lambda>index. (index, or_zero (case map_of (probabilityMatrix a) index of
                                           None \<Rightarrow> None
                                         | Some probs \<Rightarrow> map_of probs knownSymbol)))
               (filter (\<lambda>index. \<not> has (memory a) index) availableCards)))"

fun probabilityBasedMove_loop ::
  "MemoryAI \<Rightarrow> nat list \<Rightarrow> (nat \<times> symbol) list \<Rightarrow> (nat \<times> nat) option" where
  "probabilityBasedMove_loop a availableCards [] = None"
| "probabilityBasedMove_loop a availableCards ((knownIndex, knownSymbol) # entries) =
     (if knownIndex \<notin> set availableCards
      then probabilityBasedMove_loop a availableCards entries
      else (case candidates a availableCards knownSymbol of
              c # _ \<Rightarrow> Some (knownIndex, fst c)
            | [] \<Rightarrow> probabilityBasedMove_loop a availableCards entries))"

definition probabilityBasedMove :: "MemoryAI \<Rightarrow> nat list \<Rightarrow> (nat \<times> nat) option" where
  "probabilityBasedMove a availableCards =
     probabilityBasedMove_loop a availableCards (memory a)"

text \<open>A move is a two-element array; an element is \<open>undefined\<close> when \<open>randomChoice\<close>
  read an empty array.\<close>

type_synonym move = "nat option \<times> nat option"

definition pickTwo :: "nat list \<Rightarrow> rng \<Rightarrow> move \<times> rng" where
  \<comment> \<open>\<open>[randomChoice(xs), randomChoice(xs.filter(index => index !== xs[0]))]\<close>\<close>
  "pickTwo xs g =
     (let (c1, g1) = randomChoice xs g;
          (c2, g2) = randomChoice (filter (\<lambda>index. Some index \<noteq> nth_opt xs 0) xs) g1
      in ((c1, c2), g2))"

definition defaultExploration :: "nat list \<Rightarrow> rng \<Rightarrow> move \<times> rng" where
  "defaultExploration unknownCards g =
     (let (firstCard, g1) = randomChoice unknownCards g;
          (secondCard, g2) = randomChoice (filter (\<lambda>index. Some index \<noteq> firstCard) unknownCards) g1
      in ((firstCard, secondCard), g2))"

definition explorationMove :: "MemoryAI \<Rightarrow> nat list \<Rightarrow> rng \<Rightarrow> move \<times> rng" where
  "explorationMove a availableCards g =
     (let unknownCards = filter (\<lambda>index. \<not> has (memory a) index) availableCards
      in if length unknownCards < 2 then pickTwo availableCards g
         else let (predictedAreas, confidence) = analyzePlayerPatterns a
              in if confidence > 4 / 10
                 then (let (r, g1) = Math_random g
                       in if r < 3 / 10
                          then (let blockedCards =
                                      filter (\<lambda>index. areaOf (cols (ai_config a)) index
                                                        \<in> set predictedAreas) unknownCards
                                in if length blockedCards \<ge> 2 then pickTwo blockedCards g1
                                   else defaultExploration unknownCards g1)
                          else defaultExploration unknownCards g1)
                 else defaultExploration unknownCards g)"

definition makeMove :: "MemoryAI \<Rightarrow> nat list \<Rightarrow> rng \<Rightarrow> move \<times> rng" where
  "makeMove a availableCards g =
     (case findKnownPairs a availableCards of
        Some (c1, c2) \<Rightarrow> ((Some c1, Some c2), g)
      | None \<Rightarrow>
          (case probabilityBasedMove a availableCards of
             Some (c1, c2) \<Rightarrow> ((Some c1, Some c2), g)
           | None \<Rightarrow> explorationMove a availableCards g))"

definition learnFromMove :: "bool \<Rightarrow> MemoryAI \<Rightarrow> MemoryAI" where
  "learnFromMove wasMatch a =
     (let a1 = (if wasMatch
                then a\<lparr>memoryAccuracy := min (99 / 100) (memoryAccuracy a + 1 / 100)\<rparr>
                else a\<lparr>memoryAccuracy :=
                         max (aiAccuracy (ai_config a) * (8 / 10)) (memoryAccuracy a - 5 / 1000)\<rparr>);
          gameProgress = real (length (knownPairs a1)) / real (length SYMBOLS)
      in a1\<lparr>explorationRate := max (1 / 10) (5 / 10 - gameProgress * (4 / 10))\<rparr>)"

definition recordMoveResult ::
  "nat \<times> nat \<Rightarrow> bool \<Rightarrow> symbol \<times> symbol \<Rightarrow> MemoryAI \<Rightarrow> MemoryAI" where
  "recordMoveResult cs wasMatch syms a =
     (let a1 = a\<lparr>gameHistory := gameHistory a @ [(cs, wasMatch, syms, moveCount a)]\<rparr>;
          a2 = (if wasMatch then a1\<lparr>knownPairs := List.insert (fst syms) (knownPairs a1)\<rparr> else a1)
      in learnFromMove wasMatch a2)"

text \<open>\<open>setDifficulty\<close> assigns \<open>difficulty\<close> and \<open>config\<close>, reads
  \<open>config.aiAccuracy\<close> and calls \<open>reset()\<close>. For a key that the table does not have,
  \<open>config\<close> is \<open>undefined\<close> and the read throws. For an inherited key the read gives
  \<open>undefined\<close>, and \<open>reset()\<close> empties the belief state as it does for a profile.\<close>

definition setDifficulty ::
  "string \<Rightarrow> MemoryAI \<Rightarrow> failure + (MemoryAI, ForeignAI) configured" where
  "setDifficulty newDifficulty a =
     (case DIFFICULTIES newDifficulty of
        Undefined \<Rightarrow> Inl TypeError
      | Inherited \<Rightarrow>
          Inr (WithoutProfile
                 \<lparr>ai_difficulty' = newDifficulty, memory' = [], probabilityMatrix' = [],
                  playerPatterns' = [], gameHistory' = [], thinkingTime' = thinkingTime a,
                  ai_config' = newDifficulty, memoryAccuracy' = None,
                  explorationRate' = explorationRate a, knownPairs' = [],
                  revealedCards' = [], moveCount' = 0\<rparr>)
      | Profile c \<Rightarrow>
          Inr (WithProfile (reset (a\<lparr>ai_difficulty := newDifficulty, ai_config := c,
                                      memoryAccuracy := aiAccuracy c\<rparr>))))"

subsection \<open>js/game.js: class MemoryGame\<close>

text \<open>
  The fields of \<open>this.gameState\<close> are fields of the game record itself, next to
  \<open>config\<close>, \<open>totalPairs\<close>, the opponent \<open>ai\<close> and the random oracle. A matched
  pair \<open>[card1Index, card2Index]\<close> is a pair of indices. \<open>rows * cols\<close> is even for
  every profile, so \<open>(rows * cols) / 2\<close> is the exact quotient.
\<close>

record card =
  symbol :: symbol
  symbolName :: string
  pairId :: nat

datatype player = Player | AI

datatype winner = tie | player_wins | ai_wins

text \<open>The \<open>gameResult\<close> object that \<open>endGame\<close> builds (without \<open>gameTime\<close>, which
  the screen's timer supplies). Its fields \<open>playerScore\<close>, \<open>aiScore\<close> and
  \<open>difficulty\<close> are named \<open>finalPlayerScore\<close>, \<open>finalAiScore\<close> and
  \<open>finalDifficulty\<close>, since the game has fields of the same names.\<close>

record gameResult =
  winner :: winner
  finalPlayerScore :: nat
  finalAiScore :: nat
  totalMoves :: nat
  finalDifficulty :: string

text \<open>\<open>gameResults\<close> lists the results that \<open>endGame\<close> has handed to
  \<open>saveGameStats\<close> and \<open>showGameOverModal\<close>, oldest first.\<close>

record MemoryGame =
  ai :: MemoryAI
  cards :: "card list"
  flippedCards :: "nat list"
  matchedPairs :: "(nat \<times> nat) list"
  currentPlayer :: player
  playerScore :: nat
  aiScore :: nat
  moves :: nat
  isGameActive :: bool
  difficulty :: string
  config :: level
  totalPairs :: nat
  random :: rng
  gameResults :: "gameResult list"

text \<open>The game whose \<open>config\<close> is an inherited property of the table, named by its key:
  \<open>config.rows * config.cols\<close> is \<open>NaN\<close>, and so is \<open>totalPairs\<close>. Its fields carry
  the names of \<open>MemoryGame\<close> with a prime.\<close>

record ForeignGame =
  ai' :: ForeignAI
  cards' :: "card list"
  flippedCards' :: "nat list"
  matchedPairs' :: "(nat \<times> nat) list"
  currentPlayer' :: player
  playerScore' :: nat
  aiScore' :: nat
  moves' :: nat
  isGameActive' :: bool
  difficulty' :: string
  config' :: string
  totalPairs' :: jsnum
  random' :: rng
  gameResults' :: "gameResult list"

definition cardPairs :: "nat \<Rightarrow> card list" where
  "cardPairs pairsNeeded =
     concat (map (\<lambda>i. let symbolIndex = i mod length SYMBOLS;
                           c = \<lparr>symbol = SYMBOLS ! symbolIndex,
                                symbolName = SYMBOL_NAMES ! symbolIndex, pairId = i\<rparr>
                       in [c, c]) [0 ..< pairsNeeded])"

definition generateCards :: "MemoryGame \<Rightarrow> MemoryGame" where
  "generateCards s =
     (let totalCards = rows (config s) * cols (config s);
          pairsNeeded = totalCards div 2;
          (shuffled, g) = shuffleArray (cardPairs pairsNeeded) (random s)
      in s\<lparr>cards := shuffled, totalPairs := pairsNeeded, random := g\<rparr>)"

definition setupNewGame :: "MemoryGame \<Rightarrow> MemoryGame" where
  "setupNewGame s =
     generateCards (s\<lparr>cards := [], flippedCards := [], matchedPairs := [],
                      currentPlayer := Player, playerScore := 0, aiScore := 0, moves := 0,
                      isGameActive := True, ai := reset (ai s)\<rparr>)"

definition isCardMatched :: "MemoryGame \<Rightarrow> nat \<Rightarrow> bool" where
  "isCardMatched s cardIndex =
     list_ex (\<lambda>pair. fst pair = cardIndex \<or> snd pair = cardIndex) (matchedPairs s)"

definition isValidCardClick :: "MemoryGame \<Rightarrow> nat \<Rightarrow> bool" where
  "isValidCardClick s cardIndex =
     (if currentPlayer s \<noteq> Player then False
      else if \<not> isGameActive s then False
      else if cardIndex \<in> set (flippedCards s) \<or> isCardMatched s cardIndex then False
      else if length (flippedCards s) \<ge> 2 then False
      else True)"

definition getAvailableCards :: "MemoryGame \<Rightarrow> nat list" where
  "getAvailableCards s =
     filter (\<lambda>i. i \<notin> set (flippedCards s) \<and> \<not> isCardMatched s i) [0 ..< length (cards s)]"

definition handleMatch :: "nat \<Rightarrow> nat \<Rightarrow> MemoryGame \<Rightarrow> MemoryGame" where
  "handleMatch card1Index card2Index s =
     (let s1 = s\<lparr>matchedPairs := matchedPairs s @ [(card1Index, card2Index)]\<rparr>
      in if currentPlayer s1 = Player then s1\<lparr>playerScore := playerScore s1 + 1\<rparr>
         else s1\<lparr>aiScore := aiScore s1 + 1\<rparr>)"

definition handleMismatch :: "nat \<Rightarrow> nat \<Rightarrow> MemoryGame \<Rightarrow> MemoryGame" where
  \<comment> \<open>waits, turns both cards face down on the screen, shows a message\<close>
  "handleMismatch card1Index card2Index s = s"

definition switchTurn :: "MemoryGame \<Rightarrow> MemoryGame" where
  "switchTurn s = s\<lparr>currentPlayer := (if currentPlayer s = Player then AI else Player)\<rparr>"

definition isGameComplete :: "MemoryGame \<Rightarrow> bool" where
  "isGameComplete s = (length (matchedPairs s) = totalPairs s)"

definition endGame :: "MemoryGame \<Rightarrow> MemoryGame" where
  "endGame s =
     (let s1 = s\<lparr>isGameActive := False\<rparr>;
          w = (if playerScore s1 > aiScore s1 then player_wins
               else if aiScore s1 > playerScore s1 then ai_wins else tie);
          result = \<lparr>winner = w, finalPlayerScore = playerScore s1, finalAiScore = aiScore s1,
                    totalMoves = moves s1, finalDifficulty = difficulty s1\<rparr>
      in s1\<lparr>gameResults := gameResults s1 @ [result]\<rparr>)"

definition playerReveal :: "nat \<Rightarrow> MemoryGame \<Rightarrow> failure + MemoryGame" where
  \<comment> \<open>\<open>makePlayerMove\<close> up to the test for two flipped cards\<close>
  "playerReveal cardIndex s =
     (case nth_opt (cards s) cardIndex of
        None \<Rightarrow> Inl TypeError
      | Some c \<Rightarrow>
          (let (a, g) = observeCard cardIndex (symbol c) True (ai s, random s)
           in Inr (s\<lparr>flippedCards := flippedCards s @ [cardIndex], ai := a, random := g\<rparr>)))"

definition aiReveal :: "MemoryGame \<Rightarrow> failure + MemoryGame" where
  \<comment> \<open>\<open>makeAIMove\<close> from the decision to the two observations\<close>
  "aiReveal s =
     (let (mv, g) = makeMove (ai s) (getAvailableCards s) (random s)
      in case mv of
           (Some firstCard, Some secondCard) \<Rightarrow>
             (case (nth_opt (cards s) firstCard, nth_opt (cards s) secondCard) of
                (Some card1, Some card2) \<Rightarrow>
                  (let (a, g') = observeCard secondCard (symbol card2) False
                                   (observeCard firstCard (symbol card1) False (ai s, g))
                   in Inr (s\<lparr>flippedCards := flippedCards s @ [firstCard, secondCard],
                             ai := a, random := g'\<rparr>))
              | _ \<Rightarrow> Inl TypeError)
         | _ \<Rightarrow> Inl TypeError)"

definition resolution :: "MemoryGame \<Rightarrow> failure + MemoryGame" where
  \<comment> \<open>\<open>evaluateMove\<close> up to the hand-over of the turn\<close>
  "resolution s =
     (case flippedCards s of
        card1Index # card2Index # _ \<Rightarrow>
          (case (nth_opt (cards s) card1Index, nth_opt (cards s) card2Index) of
             (Some card1, Some card2) \<Rightarrow>
               (let s1 = s\<lparr>moves := moves s + 1\<rparr>;
                    isMatch = (pairId card1 = pairId card2);
                    s2 = (if isMatch then handleMatch card1Index card2Index s1
                          else handleMismatch card1Index card2Index s1);
                    s3 = s2\<lparr>ai := recordMoveResult (card1Index, card2Index) isMatch
                                     (symbol card1, symbol card2) (ai s2)\<rparr>;
                    s4 = s3\<lparr>flippedCards := []\<rparr>
                in if isGameComplete s4 then Inr (endGame s4)
                   else Inr (if \<not> isMatch then switchTurn s4 else s4))
           | _ \<Rightarrow> Inl TypeError)
      | _ \<Rightarrow> Inl TypeError)"

text \<open>\<open>makeAIMove\<close> and \<open>evaluateMove\<close> call each other: an opponent's move is
  evaluated, and the evaluation of a match that does not end the game starts the opponent's
  next move. The recursion is written as one function, with \<open>evaluateMove\<close> unfolded in
  it; \<open>evaluateMove\<close> itself follows.\<close>

function makeAIMove :: "MemoryGame \<Rightarrow> failure + MemoryGame" where
  "makeAIMove s =
     (if currentPlayer s \<noteq> AI then Inr s
      else if length (getAvailableCards s) < 2 then Inr s
      else (case aiReveal s of
              Inl e \<Rightarrow> Inl e
            | Inr s1 \<Rightarrow>
                (case resolution s1 of
                   Inl e \<Rightarrow> Inl e
                 | Inr s2 \<Rightarrow>
                     if \<not> isGameComplete s2 \<and> currentPlayer s2 = AI then makeAIMove s2
                     else Inr s2)))"
  by pat_completeness auto

definition evaluateMove :: "MemoryGame \<Rightarrow> failure + MemoryGame" where
  "evaluateMove s =
     (case resolution s of
        Inl e \<Rightarrow> Inl e
      | Inr s2 \<Rightarrow>
          if \<not> isGameComplete s2 \<and> currentPlayer s2 = AI then makeAIMove s2 else Inr s2)"

definition makePlayerMove :: "nat \<Rightarrow> MemoryGame \<Rightarrow> failure + MemoryGame" where
  "makePlayerMove cardIndex s =
     (case playerReveal cardIndex s of
        Inl e \<Rightarrow> Inl e
      | Inr s1 \<Rightarrow> if length (flippedCards s1) = 2 then evaluateMove s1 else Inr s1)"

definition handleCardClick :: "nat \<Rightarrow> MemoryGame \<Rightarrow> failure + MemoryGame" where
  "handleCardClick cardIndex s =
     (if \<not> isValidCardClick s cardIndex then Inr s
      else makePlayerMove cardIndex (if \<not> isGameActive s then s\<lparr>isGameActive := True\<rparr> else s))"

text \<open>\<open>changeDifficulty\<close> returns at once when \<open>DIFFICULTIES[difficulty]\<close> is falsy,
  which of the three kinds of lookup result only \<open>undefined\<close> is. Otherwise it assigns
  \<open>difficulty\<close> and \<open>config\<close>, calls \<open>ai.setDifficulty\<close> and \<open>setupNewGame\<close>.
  The game and the opponent read the same entry of the table, so the game's \<open>config\<close> is
  the one of the opponent that \<open>setDifficulty\<close> returns. With an inherited property as
  \<open>config\<close>, \<open>setupNewGame\<close> computes \<open>totalCards = NaN\<close>: the loop of
  \<open>generateCards\<close> creates no pair, \<open>shuffleArray([])\<close> draws no random number, and
  \<open>totalPairs\<close> is \<open>NaN\<close>; the second \<open>reset()\<close> of the opponent changes nothing.\<close>

definition changeDifficulty ::
  "string \<Rightarrow> MemoryGame \<Rightarrow> failure + (MemoryGame, ForeignGame) configured" where
  "changeDifficulty d s =
     (case DIFFICULTIES d of
        Undefined \<Rightarrow> Inr (WithProfile s)
      | _ \<Rightarrow>
          (case setDifficulty d (ai s) of
             Inl e \<Rightarrow> Inl e
           | Inr (WithProfile a) \<Rightarrow>
               Inr (WithProfile
                      (setupNewGame (s\<lparr>difficulty := d, config := ai_config a, ai := a\<rparr>)))
           | Inr (WithoutProfile a) \<Rightarrow>
               Inr (WithoutProfile
                      \<lparr>ai' = a, cards' = [], flippedCards' = [], matchedPairs' = [],
                       currentPlayer' = Player, playerScore' = 0, aiScore' = 0, moves' = 0,
                       isGameActive' = True, difficulty' = d, config' = ai_config' a,
                       totalPairs' = NaN, random' = random s,
                       gameResults' = gameResults s\<rparr>)))"

text \<open>The steps of a match, one reveal or one resolution at a time: a reveal by the human
  that passes validation, the resolution of two revealed cards, and the two reveals of the
  opponent, which \<open>evaluateMove\<close> starts when the turn is the opponent's and the game goes
  on. A match starts with \<open>setupNewGame\<close>.\<close>

inductive step :: "MemoryGame \<Rightarrow> MemoryGame \<Rightarrow> bool" where
  reveal: "isValidCardClick s i \<Longrightarrow> playerReveal i s = Inr s' \<Longrightarrow> step s s'"
| resolve: "length (flippedCards s) = 2 \<Longrightarrow> resolution s = Inr s' \<Longrightarrow> step s s'"
| opponent: "flippedCards s = [] \<Longrightarrow> \<not> isGameComplete s \<Longrightarrow> currentPlayer s = AI \<Longrightarrow>
             2 \<le> length (getAvailableCards s) \<Longrightarrow> aiReveal s = Inr s' \<Longrightarrow> step s s'"

inductive reachable :: "MemoryGame \<Rightarrow> bool" where
  start: "reachable (setupNewGame s)"
| next_step: "reachable s \<Longrightarrow> step s s' \<Longrightarrow> reachable s'"

text \<open>What every state of a match satisfies (proved below for all reachable states).\<close>

definition invariant :: "MemoryGame \<Rightarrow> bool" where
  "invariant s \<longleftrightarrow>
     totalPairs s = (rows (config s) * cols (config s)) div 2
   \<and> (isGameActive s \<longleftrightarrow> length (matchedPairs s) \<noteq> totalPairs s)
   \<and> length (matchedPairs s) \<le> totalPairs s
   \<and> (flippedCards s \<noteq> [] \<longrightarrow> isGameActive s)
   \<and> length (flippedCards s) \<le> 2
   \<and> (\<forall>c \<in> set (flippedCards s). c < length (cards s) \<and> \<not> isCardMatched s c)"

text \<open>The number of cards that belong to no matched pair: it bounds the opponent's chain of
  moves.\<close>

definition unmatched :: "MemoryGame \<Rightarrow> nat" where
  "unmatched s = length (filter (\<lambda>i. \<not> isCardMatched s i) [0 ..< length (cards s)])"

text \<open>What the states of a match satisfy besides (proved below): every pair identifier below
  \<open>totalPairs\<close> is on the board at two positions, the two cards of a matched pair have
  the same pair identifier, and the opponent never has exactly one card revealed.\<close>

definition playable :: "MemoryGame \<Rightarrow> bool" where
  "playable s \<longleftrightarrow>
     (\<forall>p < totalPairs s. \<exists>a b. a \<noteq> b \<and> a < length (cards s) \<and> b < length (cards s)
         \<and> pairId (cards s ! a) = p \<and> pairId (cards s ! b) = p)
   \<and> (\<forall>e \<in> set (matchedPairs s). pairId (cards s ! fst e) = pairId (cards s ! snd e))
   \<and> (currentPlayer s = AI \<longrightarrow> length (flippedCards s) \<noteq> 1)"

definition consistent :: "MemoryGame \<Rightarrow> bool" where
  "consistent s \<longleftrightarrow> invariant s \<and> playable s"

text \<open>The scores and the results in a state \<open>s\<close> of the match that \<open>setupNewGame s0\<close>
  started: every matched pair gave one point, and \<open>endGame\<close> has added no result while
  the match is active and one result, built from the final scores, once it is finished.\<close>

definition scored :: "MemoryGame \<Rightarrow> MemoryGame \<Rightarrow> bool" where
  "scored s0 s \<longleftrightarrow>
     playerScore s + aiScore s = length (matchedPairs s)
   \<and> gameResults s = gameResults s0 @
       (if isGameActive s then []
        else [\<lparr>winner = (if playerScore s > aiScore s then player_wins
                          else if aiScore s > playerScore s then ai_wins else tie),
               finalPlayerScore = playerScore s, finalAiScore = aiScore s,
               totalMoves = moves s, finalDifficulty = difficulty s\<rparr>])"

subsection \<open>A concrete match and a sequence of outcomes\<close>

text \<open>A concrete match for the examples: beginner level, an oracle whose draws are all
  \<open>0.99\<close> except draw number 19, which is \<open>0.1\<close>. With these draws the shuffle leaves the
  generated pairs in place, and the opponent retains an observation only if it reads draw
  number 19 for it.\<close>

definition demo_draws :: "nat \<Rightarrow> real" where
  "demo_draws n = (if n = 19 then 1 / 10 else 99 / 100)"

definition demo_ai :: MemoryAI where
  "demo_ai = \<lparr>ai_difficulty = ''beginner'', memory = [], probabilityMatrix = [],
               playerPatterns = [], gameHistory = [], thinkingTime = 1500,
               ai_config = beginner, memoryAccuracy = 7 / 10, explorationRate = 3 / 10,
               knownPairs = [], revealedCards = [], moveCount = 0\<rparr>"

definition demo_new :: MemoryGame where
  "demo_new = \<lparr>ai = demo_ai, cards = [], flippedCards = [], matchedPairs = [],
                currentPlayer = Player, playerScore = 0, aiScore = 0, moves = 0,
                isGameActive = False, difficulty = ''beginner'', config = beginner,
                totalPairs = 8, random = \<lparr>draws = demo_draws, pos = 0\<rparr>,
                gameResults = []\<rparr>"

definition demo_card :: "nat \<Rightarrow> card" where
  "demo_card i = \<lparr>symbol = SYMBOLS ! (i mod 4), symbolName = SYMBOL_NAMES ! (i mod 4),
                   pairId = i\<rparr>"

definition demo_board :: "card list" where
  "demo_board = concat (map (\<lambda>i. [demo_card i, demo_card i]) [0, 1, 2, 3, 4, 5, 6, 7])"

definition demo_start :: MemoryGame where
  "demo_start = demo_new\<lparr>cards := demo_board, isGameActive := True,
                          random := \<lparr>draws = demo_draws, pos = 15\<rparr>\<rparr>"

definition recordOutcomes ::
  "((nat \<times> nat) \<times> bool \<times> (symbol \<times> symbol)) list \<Rightarrow> MemoryAI \<Rightarrow> MemoryAI" where
  "recordOutcomes outcomes a =
     foldl (\<lambda>a' (cs, wasMatch, syms). recordMoveResult cs wasMatch syms a') a outcomes"

text \<open>The state after a reveal of the human that passed validation, for an index on the
  board (\<open>playerReveal\<close> returns it).\<close>

definition revealed :: "nat \<Rightarrow> MemoryGame \<Rightarrow> MemoryGame" where
  "revealed i s =
     s\<lparr>flippedCards := flippedCards s @ [i],
       ai := fst (observeCard i (symbol (cards s ! i)) True (ai s, random s)),
       random := snd (observeCard i (symbol (cards s ! i)) True (ai s, random s))\<rparr>"

text \<open>The opponent after the coin flip of \<open>observeCard\<close>: the observation is retained or
  dropped.\<close>

definition remembered :: "nat \<Rightarrow> symbol \<Rightarrow> bool \<Rightarrow> MemoryAI \<times> rng \<Rightarrow> MemoryAI" where
  "remembered cardIndex symb isPlayerMove ag =
     (if fst (Math_random (snd ag)) < memoryAccuracy (fst ag)
      then (fst ag)\<lparr>memory := AList.update cardIndex symb (memory (fst ag)),
                     revealedCards := AList.update cardIndex (symb, moveCount (fst ag), isPlayerMove)
                                        (revealedCards (fst ag))\<rparr>
      else fst ag)"

text \<open>A sequence of operations, stopping at the first failure.\<close>

fun run :: "('s \<Rightarrow> failure + 's) list \<Rightarrow> 's \<Rightarrow> failure + 's" where
  "run [] s = Inr s"
| "run (f # fs) s = (case f s of Inl e \<Rightarrow> Inl e | Inr s' \<Rightarrow> run fs s')"

text \<open>The beginner opponent after it has observed and retained card 0 (draw number 19 is below
  its recall accuracy).\<close>

definition c1_ai :: MemoryAI where
  "c1_ai = fst (observeCard 0 Star True (demo_ai, \<lparr>draws = demo_draws, pos = 19\<rparr>))"


text \<open>The estimate in the words of the specification, for a board and a belief mapping: the
  occurrences of the symbol on the board minus its occurrences in the belief mapping, divided
  by the number of positions that are not in the belief mapping, and at least 0.\<close>

definition claimedEstimate :: "card list \<Rightarrow> (nat \<times> symbol) list \<Rightarrow> symbol \<Rightarrow> real" where
  "claimedEstimate board m s =
     max 0 ((real (count_list (map symbol board) s) - real (count_list (map snd m) s))
            / real (card {j. j < length board \<and> \<not> has m j}))"

text \<open>The state after a resolution and after the opponent's two reveals, when they return
  normally.\<close>

definition resolved :: "MemoryGame \<Rightarrow> MemoryGame" where
  "resolved s = (case resolution s of Inr s' \<Rightarrow> s' | Inl e \<Rightarrow> s)"

definition opponentRevealed :: "MemoryGame \<Rightarrow> MemoryGame" where
  "opponentRevealed s = (case aiReveal s of Inr s' \<Rightarrow> s' | Inl e \<Rightarrow> s)"

text \<open>The states of the example match: the human reveals cards 0 and 1 (a pair), then cards 2
  and 4 (no pair); the opponent, who retained nothing, then reveals two cards.\<close>

definition demo_s2 :: MemoryGame where
  "demo_s2 = revealed 1 (revealed 0 demo_start)"

definition demo_s3 :: MemoryGame where
  "demo_s3 = resolved demo_s2"

definition demo_s5 :: MemoryGame where
  "demo_s5 = revealed 4 (revealed 2 demo_s3)"

definition demo_s6 :: MemoryGame where
  "demo_s6 = resolved demo_s5"

definition demo_s7 :: MemoryGame where
  "demo_s7 = opponentRevealed demo_s6"

text \<open>A match that the human wins without a miss: on the board of the example the human
  reveals cards \<open>2k\<close> and \<open>2k + 1\<close>, a pair, for \<open>k = 0, \<dots>, 7\<close>; \<open>demo_play k\<close>
  is the state after \<open>k\<close> pairs.\<close>

primrec demo_play :: "nat \<Rightarrow> MemoryGame" where
  "demo_play 0 = demo_start"
| "demo_play (Suc k) = resolved (revealed (2 * k + 1) (revealed (2 * k) (demo_play k)))"

definition demo_result :: gameResult where
  "demo_result = \<lparr>winner = player_wins, finalPlayerScore = 8, finalAiScore = 0,
                   totalMoves = 8, finalDifficulty = ''beginner''\<rparr>"

section \<open>Termination of the opponent's chain of moves\<close>

lemma set_insortBy: "set (insortBy le x xs) = insert x (set xs)"
  by (induction xs) auto

lemma set_sortBy: "set (sortBy le xs) = set xs"
  unfolding sortBy_def by (induction xs) (auto simp: set_insortBy)

lemma randomChoice_mem: "randomChoice xs g = (Some c, g') \<Longrightarrow> c \<in> set xs"
  by (auto simp: randomChoice_def nth_opt_def Math_random_def Let_def split: if_splits)

lemma findKnownPairs_loop_mem:
  "findKnownPairs_loop m xs = Some (c1, c2) \<Longrightarrow> c1 \<in> set xs \<and> c2 \<in> set xs"
proof (induction xs)
  case Nil
  then show ?case by simp
next
  case (Cons x xs)
  then show ?case
    by (auto split: option.splits dest: find_Some_iff[THEN iffD1] simp: in_set_conv_nth)
qed

lemma findKnownPairs_mem:
  "findKnownPairs a av = Some (c1, c2) \<Longrightarrow> c1 \<in> set av \<and> c2 \<in> set av"
  unfolding findKnownPairs_def by (drule findKnownPairs_loop_mem) auto

lemma candidates_mem: "c \<in> set (candidates a av k) \<Longrightarrow> fst c \<in> set av"
  unfolding candidates_def by (auto simp: set_sortBy)

lemma probabilityBasedMove_loop_mem:
  "probabilityBasedMove_loop a av es = Some (c1, c2) \<Longrightarrow> c1 \<in> set av \<and> c2 \<in> set av"
proof (induction es)
  case Nil
  then show ?case by simp
next
  case (Cons e es)
  obtain k sy where e: "e = (k, sy)" by (cases e)
  show ?case
  proof (cases "k \<in> set av")
    case False
    with Cons e show ?thesis by simp
  next
    case True
    show ?thesis
    proof (cases "candidates a av sy")
      case Nil
      with Cons e True show ?thesis by simp
    next
      case (Cons c cs)
      then have "c \<in> set (candidates a av sy)" by simp
      then have "fst c \<in> set av" by (rule candidates_mem)
      with Cons.prems e True Cons show ?thesis by simp
    qed
  qed
qed

lemma pickTwo_mem:
  "pickTwo xs g = ((Some c1, Some c2), g') \<Longrightarrow> c1 \<in> set xs \<and> c2 \<in> set xs"
  unfolding pickTwo_def
  by (auto split: prod.splits dest!: randomChoice_mem)

lemma defaultExploration_mem:
  "defaultExploration xs g = ((Some c1, Some c2), g') \<Longrightarrow> c1 \<in> set xs \<and> c2 \<in> set xs"
  unfolding defaultExploration_def
  by (auto split: prod.splits dest!: randomChoice_mem)

lemma explorationMove_mem:
  "explorationMove a av g = ((Some c1, Some c2), g') \<Longrightarrow> c1 \<in> set av \<and> c2 \<in> set av"
  unfolding explorationMove_def Let_def
  by (auto split: prod.splits if_splits dest!: pickTwo_mem defaultExploration_mem)

lemma makeMove_mem:
  "makeMove a av g = ((Some c1, Some c2), g') \<Longrightarrow> c1 \<in> set av \<and> c2 \<in> set av"
  unfolding makeMove_def probabilityBasedMove_def
  by (auto split: option.splits prod.splits
           dest: findKnownPairs_mem probabilityBasedMove_loop_mem explorationMove_mem)

lemma aiReveal_Inr:
  assumes "aiReveal s = Inr s1"
  shows "\<exists>c1 c2. flippedCards s1 = flippedCards s @ [c1, c2]
            \<and> c1 \<in> set (getAvailableCards s) \<and> c2 \<in> set (getAvailableCards s)
            \<and> cards s1 = cards s \<and> matchedPairs s1 = matchedPairs s
            \<and> currentPlayer s1 = currentPlayer s \<and> totalPairs s1 = totalPairs s
            \<and> isGameActive s1 = isGameActive s \<and> playerScore s1 = playerScore s
            \<and> aiScore s1 = aiScore s \<and> config s1 = config s \<and> difficulty s1 = difficulty s
            \<and> moves s1 = moves s"
proof -
  obtain mv g where mg: "makeMove (ai s) (getAvailableCards s) (random s) = (mv, g)"
    by (cases "makeMove (ai s) (getAvailableCards s) (random s)")
  with assms obtain c1 c2 where mv: "mv = (Some c1, Some c2)"
    by (cases mv; cases "fst mv"; cases "snd mv") (auto simp: aiReveal_def)
  from mg mv have mem: "c1 \<in> set (getAvailableCards s) \<and> c2 \<in> set (getAvailableCards s)"
    by (auto dest: makeMove_mem)
  from assms mg mv show ?thesis using mem
    by (auto simp: aiReveal_def split: option.splits prod.splits)
qed



lemma resolution_Inr:
  assumes "resolution s = Inr s2"
  obtains c1 c2 rest card1 card2 where
    "flippedCards s = c1 # c2 # rest"
    "nth_opt (cards s) c1 = Some card1" "nth_opt (cards s) c2 = Some card2"
    "s2 = (let s4 = (if pairId card1 = pairId card2 then handleMatch c1 c2 s else s)
                      \<lparr>moves := moves s + 1,
                       ai := recordMoveResult (c1, c2) (pairId card1 = pairId card2)
                               (symbol card1, symbol card2) (ai s),
                       flippedCards := []\<rparr>
           in if isGameComplete s4 then endGame s4
              else if pairId card1 = pairId card2 then s4 else switchTurn s4)"
proof (cases "flippedCards s")
  case Nil
  with assms show ?thesis by (simp add: resolution_def)
next
  case (Cons c1 fs)
  show ?thesis
  proof (cases fs)
    case Nil
    with Cons assms show ?thesis by (simp add: resolution_def)
  next
    case (Cons c2 rest)
    with \<open>flippedCards s = c1 # fs\<close> have fl: "flippedCards s = c1 # c2 # rest" by simp
    from assms fl obtain card1 card2 where
      n: "nth_opt (cards s) c1 = Some card1" "nth_opt (cards s) c2 = Some card2"
      by (auto simp: resolution_def split: option.splits)
    have "s2 = (let s4 = (if pairId card1 = pairId card2 then handleMatch c1 c2 s else s)
                      \<lparr>moves := moves s + 1,
                       ai := recordMoveResult (c1, c2) (pairId card1 = pairId card2)
                               (symbol card1, symbol card2) (ai s),
                       flippedCards := []\<rparr>
           in if isGameComplete s4 then endGame s4
              else if pairId card1 = pairId card2 then s4 else switchTurn s4)"
      using assms fl n
      by (auto simp: resolution_def Let_def handleMatch_def handleMismatch_def
                     isGameComplete_def endGame_def switchTurn_def split: if_splits)
    with fl n show ?thesis by (rule that)
  qed
qed

lemma resolution_matchedPairs:
  assumes "resolution s = Inr s2"
  shows "cards s2 = cards s \<and> flippedCards s2 = [] \<and>
         (matchedPairs s2 = matchedPairs s \<and>
            (isGameComplete s2 \<or> currentPlayer s2 \<noteq> currentPlayer s)
          \<or> (\<exists>c2. matchedPairs s2 = matchedPairs s @ [(hd (flippedCards s), c2)])
              \<and> currentPlayer s2 = currentPlayer s)"
  using assms
proof (rule resolution_Inr)
  fix c1 c2 rest card1 card2
  assume fl: "flippedCards s = c1 # c2 # rest"
    and s2: "s2 = (let s4 = (if pairId card1 = pairId card2 then handleMatch c1 c2 s else s)
                      \<lparr>moves := moves s + 1,
                       ai := recordMoveResult (c1, c2) (pairId card1 = pairId card2)
                               (symbol card1, symbol card2) (ai s),
                       flippedCards := []\<rparr>
           in if isGameComplete s4 then endGame s4
              else if pairId card1 = pairId card2 then s4 else switchTurn s4)"
  show ?thesis
    unfolding s2 fl
    by (simp add: Let_def handleMatch_def isGameComplete_def endGame_def switchTurn_def)
qed

lemma length_filter_le:
  assumes "\<And>x. x \<in> set xs \<Longrightarrow> P x \<Longrightarrow> Q x"
  shows "length (filter P xs) \<le> length (filter Q xs)"
  using assms by (induction xs) (auto simp: le_Suc_eq)

lemma length_filter_less:
  assumes "\<And>x. x \<in> set xs \<Longrightarrow> P x \<Longrightarrow> Q x" and "x \<in> set xs" and "Q x" and "\<not> P x"
  shows "length (filter P xs) < length (filter Q xs)"
  using assms
proof (induction xs)
  case Nil
  then show ?case by simp
next
  case (Cons y ys)
  have le: "length (filter P ys) \<le> length (filter Q ys)"
    by (rule length_filter_le) (simp add: Cons.prems(1))
  show ?case
  proof (cases "x = y")
    case True
    with le Cons.prems show ?thesis by simp
  next
    case False
    with Cons have "length (filter P ys) < length (filter Q ys)" by auto
    with Cons.prems(1)[of y] show ?thesis by auto
  qed
qed

lemma isCardMatched_append:
  "isCardMatched (s\<lparr>matchedPairs := matchedPairs s @ [(c1, c2)]\<rparr>) i
     = (isCardMatched s i \<or> i = c1 \<or> i = c2)"
  by (auto simp: isCardMatched_def list_ex_iff)

lemma unmatched_cong:
  "cards s' = cards s \<Longrightarrow> matchedPairs s' = matchedPairs s \<Longrightarrow> unmatched s' = unmatched s"
  by (simp add: unmatched_def isCardMatched_def)

lemma isCardMatched_cong:
  "matchedPairs s' = matchedPairs s \<Longrightarrow> isCardMatched s' = isCardMatched s"
  by (auto simp: isCardMatched_def fun_eq_iff)

lemma unmatched_match_le:
  assumes "cards s' = cards s" "matchedPairs s' = matchedPairs s @ [(c1, c2)]"
  shows "unmatched s' \<le> unmatched s"
proof -
  have eq: "isCardMatched s' = isCardMatched (s\<lparr>matchedPairs := matchedPairs s @ [(c1, c2)]\<rparr>)"
    by (rule isCardMatched_cong) (simp add: assms)
  show ?thesis
    unfolding unmatched_def assms(1) eq
    by (rule length_filter_le) (simp add: isCardMatched_append)
qed

lemma unmatched_match_less:
  assumes "cards s' = cards s" "matchedPairs s' = matchedPairs s @ [(c1, c2)]"
    and "c1 < length (cards s)" "\<not> isCardMatched s c1"
  shows "unmatched s' < unmatched s"
proof -
  have eq: "isCardMatched s' = isCardMatched (s\<lparr>matchedPairs := matchedPairs s @ [(c1, c2)]\<rparr>)"
    by (rule isCardMatched_cong) (simp add: assms)
  show ?thesis
    unfolding unmatched_def assms(1) eq
    by (rule length_filter_less[where x = c1]) (use assms in \<open>simp_all add: isCardMatched_append\<close>)
qed

lemma getAvailableCards_mem:
  "c \<in> set (getAvailableCards s) \<longleftrightarrow>
     c < length (cards s) \<and> c \<notin> set (flippedCards s) \<and> \<not> isCardMatched s c"
  by (auto simp: getAvailableCards_def)

lemma makeAIMove_decreases:
  assumes "aiReveal s = Inr s1" "resolution s1 = Inr s2"
    and "\<not> isGameComplete s2" "currentPlayer s2 = AI" "currentPlayer s = AI"
  shows "2 * unmatched s2 + (if flippedCards s2 = [] then 0 else 1)
         < 2 * unmatched s + (if flippedCards s = [] then 0 else 1)"
proof -
  from aiReveal_Inr[OF assms(1)] obtain a1 a2 where
    a: "flippedCards s1 = flippedCards s @ [a1, a2]" "a1 \<in> set (getAvailableCards s)"
       "cards s1 = cards s" "matchedPairs s1 = matchedPairs s" "currentPlayer s1 = currentPlayer s"
    by auto
  from resolution_matchedPairs[OF assms(2)] assms(3,4,5) a(5) obtain c2 where
    r: "cards s2 = cards s1" "flippedCards s2 = []"
       "matchedPairs s2 = matchedPairs s1 @ [(hd (flippedCards s1), c2)]"
    by auto
  from r(3) a(4) have mp: "matchedPairs s2 = matchedPairs s @ [(hd (flippedCards s1), c2)]"
    by simp
  have cs: "cards s2 = cards s" using r(1) a(3) by simp
  show ?thesis
  proof (cases "flippedCards s = []")
    case True
    with a(1) have "hd (flippedCards s1) = a1" by simp
    with a(2) have "hd (flippedCards s1) < length (cards s)"
      "\<not> isCardMatched s (hd (flippedCards s1))"
      by (simp_all add: getAvailableCards_mem)
    from unmatched_match_less[OF cs mp this] True r(2) show ?thesis by simp
  next
    case False
    from unmatched_match_le[OF cs mp] False r(2) show ?thesis by simp
  qed
qed

termination makeAIMove
proof (relation "measure (\<lambda>s. 2 * unmatched s + (if flippedCards s = [] then 0 else 1))")
  show "wf (measure (\<lambda>s. 2 * unmatched s + (if flippedCards s = [] then 0 else 1)))"
    by simp
next
  fix s s1 s2
  assume "\<not> currentPlayer s \<noteq> AI" "aiReveal s = Inr s1" "resolution s1 = Inr s2"
    "\<not> isGameComplete s2 \<and> currentPlayer s2 = AI"
  then show "(s2, s) \<in> measure (\<lambda>s. 2 * unmatched s + (if flippedCards s = [] then 0 else 1))"
    using makeAIMove_decreases[of s s1 s2] by simp
qed

declare makeAIMove.simps [simp del]

text \<open>The function in the shape of the source: the opponent's reveals are followed by
  \<open>evaluateMove\<close>.\<close>

lemma makeAIMove_evaluateMove:
  "makeAIMove s =
     (if currentPlayer s \<noteq> AI then Inr s
      else if length (getAvailableCards s) < 2 then Inr s
      else (case aiReveal s of Inl e \<Rightarrow> Inl e | Inr s1 \<Rightarrow> evaluateMove s1))"
  by (subst makeAIMove.simps) (simp add: evaluateMove_def split: sum.splits)

section \<open>Invariants of a match\<close>

lemma totalPairs_pos: "0 < (rows c * cols c) div 2"
  by (cases c) simp_all

lemma generateCards_fields:
  "flippedCards (generateCards s) = flippedCards s"
  "matchedPairs (generateCards s) = matchedPairs s"
  "isGameActive (generateCards s) = isGameActive s"
  "config (generateCards s) = config s"
  "currentPlayer (generateCards s) = currentPlayer s"
  "totalPairs (generateCards s) = (rows (config s) * cols (config s)) div 2"
  by (simp_all add: generateCards_def Let_def split: prod.splits)

lemma setupNewGame_fields:
  "flippedCards (setupNewGame s) = []"
  "matchedPairs (setupNewGame s) = []"
  "isGameActive (setupNewGame s)"
  "config (setupNewGame s) = config s"
  "currentPlayer (setupNewGame s) = Player"
  "totalPairs (setupNewGame s) = (rows (config s) * cols (config s)) div 2"
  by (simp_all add: setupNewGame_def generateCards_fields)

lemma invariant_start: "invariant (setupNewGame s)"
  using totalPairs_pos[of "config s"]
  by (simp add: invariant_def setupNewGame_fields)

lemma playerReveal_Inr:
  assumes "playerReveal i s = Inr s'"
  shows "i < length (cards s) \<and> flippedCards s' = flippedCards s @ [i] \<and> cards s' = cards s
         \<and> matchedPairs s' = matchedPairs s \<and> currentPlayer s' = currentPlayer s
         \<and> totalPairs s' = totalPairs s \<and> isGameActive s' = isGameActive s
         \<and> playerScore s' = playerScore s \<and> aiScore s' = aiScore s \<and> config s' = config s
         \<and> difficulty s' = difficulty s \<and> moves s' = moves s"
  using assms
  by (auto simp: playerReveal_def nth_opt_def split: if_splits prod.splits)

lemma isValidCardClick_iff:
  "isValidCardClick s i \<longleftrightarrow>
     currentPlayer s = Player \<and> isGameActive s \<and> i \<notin> set (flippedCards s)
     \<and> \<not> isCardMatched s i \<and> length (flippedCards s) < 2"
  by (auto simp: isValidCardClick_def)

lemma invariant_reveal:
  assumes "invariant s" "isValidCardClick s i" "playerReveal i s = Inr s'"
  shows "invariant s'"
proof -
  from playerReveal_Inr[OF assms(3)] have "isCardMatched s' = isCardMatched s"
    by (intro isCardMatched_cong) simp
  with assms(1,2) playerReveal_Inr[OF assms(3)] show ?thesis
    by (auto simp: invariant_def isValidCardClick_iff)
qed

lemma invariant_opponent:
  assumes "invariant s" "flippedCards s = []" "\<not> isGameComplete s" "aiReveal s = Inr s'"
  shows "invariant s'"
proof -
  from aiReveal_Inr[OF assms(4)] obtain c1 c2 where
    a: "flippedCards s' = flippedCards s @ [c1, c2]"
       "c1 \<in> set (getAvailableCards s)" "c2 \<in> set (getAvailableCards s)"
       "cards s' = cards s" "matchedPairs s' = matchedPairs s" "totalPairs s' = totalPairs s"
       "isGameActive s' = isGameActive s" "config s' = config s"
    by auto
  moreover from a(5) have "isCardMatched s' = isCardMatched s"
    by (rule isCardMatched_cong)
  ultimately show ?thesis using assms(1,2,3)
    by (auto simp: invariant_def isGameComplete_def getAvailableCards_mem)
qed

lemma resolution_fields:
  assumes "resolution s = Inr s'"
  shows "cards s' = cards s \<and> flippedCards s' = [] \<and> totalPairs s' = totalPairs s
         \<and> config s' = config s \<and> difficulty s' = difficulty s \<and> moves s' = moves s + 1
         \<and> random s' = random s
         \<and> isGameActive s' = (if isGameComplete s' then False else isGameActive s)
         \<and> (matchedPairs s' = matchedPairs s
            \<or> length (matchedPairs s') = Suc (length (matchedPairs s)))"
  using assms
proof (rule resolution_Inr)
  fix c1 c2 rest card1 card2
  assume s2: "s' = (let s4 = (if pairId card1 = pairId card2 then handleMatch c1 c2 s else s)
                      \<lparr>moves := moves s + 1,
                       ai := recordMoveResult (c1, c2) (pairId card1 = pairId card2)
                               (symbol card1, symbol card2) (ai s),
                       flippedCards := []\<rparr>
           in if isGameComplete s4 then endGame s4
              else if pairId card1 = pairId card2 then s4 else switchTurn s4)"
  show ?thesis
    unfolding s2
    by (simp add: Let_def handleMatch_def isGameComplete_def endGame_def switchTurn_def)
qed

lemma invariant_resolve:
  assumes "invariant s" "flippedCards s \<noteq> []" "resolution s = Inr s'"
  shows "invariant s'"
  using assms(1,2) resolution_fields[OF assms(3)]
  by (auto simp: invariant_def isGameComplete_def split: if_splits)

lemma invariant_step: "step s s' \<Longrightarrow> invariant s \<Longrightarrow> invariant s'"
proof (induction rule: step.induct)
  case (reveal s i s')
  then show ?case by (blast intro: invariant_reveal)
next
  case (resolve s s')
  then have "flippedCards s \<noteq> []" by auto
  with resolve show ?case by (blast intro: invariant_resolve)
next
  case (opponent s s')
  then show ?case by (blast intro: invariant_opponent)
qed

lemma reachable_invariant: "reachable s \<Longrightarrow> invariant s"
  by (induction rule: reachable.induct) (auto intro: invariant_start invariant_step)

lemma step_reachable_rtrancl: "step\<^sup>*\<^sup>* s s' \<Longrightarrow> reachable s \<Longrightarrow> reachable s'"
  by (induction rule: rtranclp_induct) (auto intro: reachable.next_step)

lemma makeAIMove_steps:
  "makeAIMove s = Inr s' \<Longrightarrow> flippedCards s = [] \<Longrightarrow> \<not> isGameComplete s \<Longrightarrow> step\<^sup>*\<^sup>* s s'"
proof (induction s rule: makeAIMove.induct)
  case (1 s)
  show ?case
  proof (cases "currentPlayer s \<noteq> AI \<or> length (getAvailableCards s) < 2")
    case True
    with "1.prems"(1) have "s' = s" by (auto simp: makeAIMove.simps[of s] split: if_splits)
    then show ?thesis by simp
  next
    case False
    with "1.prems"(1) obtain s1 s2 where a: "aiReveal s = Inr s1" and r: "resolution s1 = Inr s2"
      and rest: "(if \<not> isGameComplete s2 \<and> currentPlayer s2 = AI then makeAIMove s2 else Inr s2) = Inr s'"
      by (auto simp: makeAIMove.simps[of s] split: sum.splits)
    from False "1.prems"(2,3) a have st1: "step s s1" by (auto intro: step.opponent)
    from aiReveal_Inr[OF a] "1.prems"(2) have "length (flippedCards s1) = 2" by auto
    with r have st2: "step s1 s2" by (auto intro: step.resolve)
    from resolution_fields[OF r] have f2: "flippedCards s2 = []" by simp
    show ?thesis
    proof (cases "\<not> isGameComplete s2 \<and> currentPlayer s2 = AI")
      case True
      with rest have "makeAIMove s2 = Inr s'" by simp
      with "1.IH"[OF _ _ a r True] False f2 True have rt: "step\<^sup>*\<^sup>* s2 s'" by auto
      show ?thesis
        by (rule converse_rtranclp_into_rtranclp[OF st1 converse_rtranclp_into_rtranclp[OF st2 rt]])
    next
      case False
      with rest have "s' = s2" by auto
      with st1 st2 show ?thesis by auto
    qed
  qed
qed

lemma evaluateMove_steps:
  assumes "evaluateMove s = Inr s'" "length (flippedCards s) = 2"
  shows "step\<^sup>*\<^sup>* s s'"
proof -
  from assms(1) obtain s2 where r: "resolution s = Inr s2"
    and rest: "(if \<not> isGameComplete s2 \<and> currentPlayer s2 = AI then makeAIMove s2 else Inr s2) = Inr s'"
    by (auto simp: evaluateMove_def split: sum.splits)
  from assms(2) r have st: "step s s2" by (rule step.resolve)
  from resolution_fields[OF r] have f2: "flippedCards s2 = []" by simp
  show ?thesis
  proof (cases "\<not> isGameComplete s2 \<and> currentPlayer s2 = AI")
    case True
    with rest f2 have "step\<^sup>*\<^sup>* s2 s'" by (auto intro: makeAIMove_steps)
    with st show ?thesis by (rule converse_rtranclp_into_rtranclp)
  next
    case False
    with rest have "s' = s2" by auto
    with st show ?thesis by auto
  qed
qed

lemma handleCardClick_steps:
  assumes "handleCardClick i s = Inr s'"
  shows "step\<^sup>*\<^sup>* s s'"
proof (cases "isValidCardClick s i")
  case False
  with assms show ?thesis by (simp add: handleCardClick_def)
next
  case True
  then have act: "isGameActive s" by (simp add: isValidCardClick_iff)
  with assms True obtain s1 where p: "playerReveal i s = Inr s1"
    and rest: "(if length (flippedCards s1) = 2 then evaluateMove s1 else Inr s1) = Inr s'"
    by (auto simp: handleCardClick_def makePlayerMove_def split: sum.splits)
  from True p have st: "step s s1" by (rule step.reveal)
  show ?thesis
  proof (cases "length (flippedCards s1) = 2")
    case True
    with rest have "step\<^sup>*\<^sup>* s1 s'" by (auto intro: evaluateMove_steps)
    with st show ?thesis by (rule converse_rtranclp_into_rtranclp)
  next
    case False
    with rest have "s' = s1" by auto
    with st show ?thesis by auto
  qed
qed

lemma step_matched_mono:
  assumes "step s s'" shows "length (matchedPairs s) \<le> length (matchedPairs s')"
  using assms
proof (cases rule: step.cases)
  case (reveal i)
  from playerReveal_Inr[OF reveal(2)] show ?thesis by simp
next
  case resolve
  from resolution_fields[OF resolve(2)] show ?thesis by auto
next
  case opponent
  from aiReveal_Inr[OF opponent(5)] show ?thesis by auto
qed

lemma step_from_active:
  assumes "step s s'" "invariant s" shows "isGameActive s"
  using assms
proof (cases rule: step.cases)
  case (reveal i)
  then show ?thesis by (simp add: isValidCardClick_iff)
next
  case resolve
  then have "flippedCards s \<noteq> []" by auto
  with assms(2) show ?thesis by (auto simp: invariant_def)
next
  case opponent
  with assms(2) show ?thesis by (auto simp: invariant_def isGameComplete_def)
qed

section \<open>Evaluation of the example\<close>

lemma shuffle_loop_numeral:
  "shuffle_loop (numeral k) xs \<lparr>draws = d, pos = p\<rparr> =
     shuffle_loop (pred_numeral k)
       (xs[numeral k := xs ! nat \<lfloor>frac (d p) * real (numeral k + 1)\<rfloor>,
           nat \<lfloor>frac (d p) * real (numeral k + 1)\<rfloor> := xs ! numeral k])
       \<lparr>draws = d, pos = Suc p\<rparr>"
  unfolding numeral_eq_Suc[of k] by (simp add: Math_random_def Let_def)

lemma list_update_numeral: "(x # xs)[numeral k := y] = x # xs[pred_numeral k := y]"
  unfolding numeral_eq_Suc[of k] by simp

lemma frac_demo:
  "frac (99 / 100 :: real) = 99 / 100" "frac (1 / 10 :: real) = 1 / 10" "frac (0::real) = 0"
  by (simp_all add: frac_def)

lemma shuffle_loop_one:
  "shuffle_loop (Suc 0) xs \<lparr>draws = d, pos = p\<rparr> =
     (xs[Suc 0 := xs ! nat \<lfloor>frac (d p) * 2\<rfloor>, nat \<lfloor>frac (d p) * 2\<rfloor> := xs ! Suc 0],
      \<lparr>draws = d, pos = Suc p\<rparr>)"
  by (simp add: Math_random_def Let_def)

lemma shuffle_loop_identity:
  "shuffle_loop 15 [a0, a1, a2, a3, a4, a5, a6, a7, a8, a9, a10, a11, a12, a13, a14, a15]
     \<lparr>draws = demo_draws, pos = 0\<rparr>
   = ([a0, a1, a2, a3, a4, a5, a6, a7, a8, a9, a10, a11, a12, a13, a14, a15],
      \<lparr>draws = demo_draws, pos = 15\<rparr>)"
  by (simp add: shuffle_loop_numeral shuffle_loop_one list_update_numeral
                demo_draws_def frac_demo del: shuffle_loop.simps)

lemma shuffle_identity:
  "shuffleArray [a0, a1, a2, a3, a4, a5, a6, a7, a8, a9, a10, a11, a12, a13, a14, a15]
     \<lparr>draws = demo_draws, pos = 0\<rparr>
   = ([a0, a1, a2, a3, a4, a5, a6, a7, a8, a9, a10, a11, a12, a13, a14, a15],
      \<lparr>draws = demo_draws, pos = 15\<rparr>)"
proof -
  have "length [a0, a1, a2, a3, a4, a5, a6, a7, a8, a9, a10, a11, a12, a13, a14, a15] - 1 = 15"
    by simp
  then show ?thesis
    unfolding shuffleArray_def by (simp only: shuffle_loop_identity)
qed

lemma cardPairs_8: "cardPairs 8 = demo_board"
  by (simp add: cardPairs_def demo_board_def demo_card_def SYMBOLS_def SYMBOL_NAMES_def
                Let_def upt_rec del: upt_rec_numeral)

lemma setup_demo: "setupNewGame demo_new = demo_start"
  by (simp add: setupNewGame_def generateCards_def demo_new_def demo_start_def cardPairs_8
                demo_board_def shuffle_identity reset_def demo_ai_def)

lemma reachable_demo_start: "reachable demo_start"
  using reachable.start[of demo_new] by (simp add: setup_demo)

lemma playerReveal_in_range:
  "i < length (cards s) \<Longrightarrow> playerReveal i s = Inr (revealed i s)"
  by (simp add: playerReveal_def nth_opt_def revealed_def split: prod.splits)

lemma revealed_fields:
  "flippedCards (revealed i s) = flippedCards s @ [i]"
  "cards (revealed i s) = cards s"
  "matchedPairs (revealed i s) = matchedPairs s"
  "currentPlayer (revealed i s) = currentPlayer s"
  "isGameActive (revealed i s) = isGameActive s"
  "totalPairs (revealed i s) = totalPairs s"
  "playerScore (revealed i s) = playerScore s"
  "aiScore (revealed i s) = aiScore s"
  "config (revealed i s) = config s"
  by (simp_all add: revealed_def)

lemma demo_start_fields:
  "flippedCards demo_start = []" "cards demo_start = demo_board" "matchedPairs demo_start = []"
  "currentPlayer demo_start = Player" "isGameActive demo_start" "totalPairs demo_start = 8"
  "playerScore demo_start = 0" "aiScore demo_start = 0" "config demo_start = beginner"
  "ai demo_start = demo_ai" "random demo_start = \<lparr>draws = demo_draws, pos = 15\<rparr>"
  by (simp_all add: demo_start_def demo_new_def)

lemma length_demo_board: "length demo_board = 16"
  by (simp add: demo_board_def)

lemma step_demo_reveal_0: "step demo_start (revealed 0 demo_start)"
proof (rule step.reveal)
  show "isValidCardClick demo_start 0"
    by (simp add: isValidCardClick_def isCardMatched_def demo_start_fields)
  show "playerReveal 0 demo_start = Inr (revealed 0 demo_start)"
    by (rule playerReveal_in_range) (simp add: demo_start_fields length_demo_board)
qed

lemma step_demo_reveal_5: "step (revealed 0 demo_start) (revealed 5 (revealed 0 demo_start))"
proof (rule step.reveal)
  show "isValidCardClick (revealed 0 demo_start) 5"
    by (simp add: isValidCardClick_def isCardMatched_def revealed_fields demo_start_fields)
  show "playerReveal 5 (revealed 0 demo_start) = Inr (revealed 5 (revealed 0 demo_start))"
    by (rule playerReveal_in_range)
       (simp add: revealed_fields demo_start_fields length_demo_board)
qed

lemma reachable_demo_two_revealed: "reachable (revealed 5 (revealed 0 demo_start))"
  by (rule reachable.next_step[OF reachable.next_step[OF reachable_demo_start
        step_demo_reveal_0] step_demo_reveal_5])

section \<open>Rejected reveal requests\<close>

text \<open>C8. A reveal request that fails validation (not the human's turn, match not active,
  card already revealed this turn, card already matched, or two cards already revealed)
  is ignored: \<open>handleCardClick\<close> returns normally and the whole state, the opponent and
  the random oracle included, is the state before the request.\<close>

theorem invalid_click_ignored:
  assumes "currentPlayer s \<noteq> Player \<or> \<not> isGameActive s \<or> cardIndex \<in> set (flippedCards s)
           \<or> isCardMatched s cardIndex \<or> 2 \<le> length (flippedCards s)"
  shows "\<not> isValidCardClick s cardIndex \<and> handleCardClick cardIndex s = Inr s"
  using assms by (auto simp: handleCardClick_def isValidCardClick_def)

theorem invalid_click_ignored_witness:
  "2 \<le> length (flippedCards (demo_start\<lparr>flippedCards := [0, 5]\<rparr>))
   \<and> handleCardClick 9 (demo_start\<lparr>flippedCards := [0, 5]\<rparr>)
       = Inr (demo_start\<lparr>flippedCards := [0, 5]\<rparr>)"
  using invalid_click_ignored[of "demo_start\<lparr>flippedCards := [0, 5]\<rparr>" 9] by simp

section \<open>The effect of a match\<close>

lemma resolution_match:
  assumes "flippedCards s = c1 # c2 # rest"
    and "nth_opt (cards s) c1 = Some card1" and "nth_opt (cards s) c2 = Some card2"
    and "pairId card1 = pairId card2"
  shows "resolution s =
           Inr (if length (matchedPairs s) + 1 = totalPairs s
                then endGame ((handleMatch c1 c2 s)
                       \<lparr>moves := moves s + 1,
                        ai := recordMoveResult (c1, c2) True (symbol card1, symbol card2) (ai s),
                        flippedCards := []\<rparr>)
                else (handleMatch c1 c2 s)
                       \<lparr>moves := moves s + 1,
                        ai := recordMoveResult (c1, c2) True (symbol card1, symbol card2) (ai s),
                        flippedCards := []\<rparr>)"
  using assms
  by (simp add: resolution_def Let_def handleMatch_def isGameComplete_def endGame_def)

lemma resolution_match_continues:
  assumes "flippedCards s = c1 # c2 # rest"
    and "nth_opt (cards s) c1 = Some card1" and "nth_opt (cards s) c2 = Some card2"
    and "pairId card1 = pairId card2" and "length (matchedPairs s) + 1 \<noteq> totalPairs s"
  shows "resolution s =
           Inr ((handleMatch c1 c2 s)
                  \<lparr>moves := moves s + 1,
                   ai := recordMoveResult (c1, c2) True (symbol card1, symbol card2) (ai s),
                   flippedCards := []\<rparr>)"
  using resolution_match[OF assms(1-4)] assms(5) by simp

lemma resolution_match_finishes:
  assumes "flippedCards s = c1 # c2 # rest"
    and "nth_opt (cards s) c1 = Some card1" and "nth_opt (cards s) c2 = Some card2"
    and "pairId card1 = pairId card2" and "length (matchedPairs s) + 1 = totalPairs s"
  shows "resolution s =
           Inr (endGame ((handleMatch c1 c2 s)
                  \<lparr>moves := moves s + 1,
                   ai := recordMoveResult (c1, c2) True (symbol card1, symbol card2) (ai s),
                   flippedCards := []\<rparr>))"
  using resolution_match[OF assms(1-4)] assms(5) by simp

text \<open>C10. When the two revealed cards have the same pair identifier, the match-handling
  step \<open>handleMatch\<close> appends the pair to the matched pairs, adds one to the score of the
  active player and changes nothing else. The whole resolution of such a pair leaves the
  other player's score, the cards, the active player, the difficulty and the configuration
  unchanged; it clears the revealed list, counts the move (as it does for a mismatch), and
  sets the active flag to false exactly if the match completes the game.\<close>

theorem match_handling_frame:
  "handleMatch c1 c2 s =
     s\<lparr>matchedPairs := matchedPairs s @ [(c1, c2)],
       playerScore := playerScore s + (if currentPlayer s = Player then 1 else 0),
       aiScore := aiScore s + (if currentPlayer s = AI then 1 else 0)\<rparr>
   \<and> (flippedCards s = c1 # c2 # rest \<and> nth_opt (cards s) c1 = Some card1
        \<and> nth_opt (cards s) c2 = Some card2 \<and> pairId card1 = pairId card2
      \<longrightarrow> (\<exists>s'. resolution s = Inr s'
             \<and> playerScore s' = playerScore s + (if currentPlayer s = Player then 1 else 0)
             \<and> aiScore s' = aiScore s + (if currentPlayer s = AI then 1 else 0)
             \<and> cards s' = cards s \<and> currentPlayer s' = currentPlayer s
             \<and> difficulty s' = difficulty s \<and> config s' = config s
             \<and> totalPairs s' = totalPairs s \<and> random s' = random s
             \<and> isGameActive s' = (if length (matchedPairs s') = totalPairs s' then False
                                   else isGameActive s)
             \<and> matchedPairs s' = matchedPairs s @ [(c1, c2)] \<and> flippedCards s' = []
             \<and> moves s' = moves s + 1))"
proof (intro conjI impI)
  show "handleMatch c1 c2 s =
     s\<lparr>matchedPairs := matchedPairs s @ [(c1, c2)],
       playerScore := playerScore s + (if currentPlayer s = Player then 1 else 0),
       aiScore := aiScore s + (if currentPlayer s = AI then 1 else 0)\<rparr>"
    by (cases "currentPlayer s") (simp_all add: handleMatch_def)
next
  assume h: "flippedCards s = c1 # c2 # rest \<and> nth_opt (cards s) c1 = Some card1
        \<and> nth_opt (cards s) c2 = Some card2 \<and> pairId card1 = pairId card2"
  then have "resolution s =
           Inr (if length (matchedPairs s) + 1 = totalPairs s
                then endGame ((handleMatch c1 c2 s)
                       \<lparr>moves := moves s + 1,
                        ai := recordMoveResult (c1, c2) True (symbol card1, symbol card2) (ai s),
                        flippedCards := []\<rparr>)
                else (handleMatch c1 c2 s)
                       \<lparr>moves := moves s + 1,
                        ai := recordMoveResult (c1, c2) True (symbol card1, symbol card2) (ai s),
                        flippedCards := []\<rparr>)"
    by (intro resolution_match) simp_all
  then show "\<exists>s'. resolution s = Inr s'
             \<and> playerScore s' = playerScore s + (if currentPlayer s = Player then 1 else 0)
             \<and> aiScore s' = aiScore s + (if currentPlayer s = AI then 1 else 0)
             \<and> cards s' = cards s \<and> currentPlayer s' = currentPlayer s
             \<and> difficulty s' = difficulty s \<and> config s' = config s
             \<and> totalPairs s' = totalPairs s \<and> random s' = random s
             \<and> isGameActive s' = (if length (matchedPairs s') = totalPairs s' then False
                                   else isGameActive s)
             \<and> matchedPairs s' = matchedPairs s @ [(c1, c2)] \<and> flippedCards s' = []
             \<and> moves s' = moves s + 1"
    by (cases "currentPlayer s") (simp_all add: handleMatch_def endGame_def Let_def)
qed

theorem match_handling_frame_witness:
  "(flippedCards (demo_start\<lparr>flippedCards := [0, 1]\<rparr>) = 0 # 1 # []
    \<and> nth_opt (cards (demo_start\<lparr>flippedCards := [0, 1]\<rparr>)) 0 = Some (demo_card 0)
    \<and> nth_opt (cards (demo_start\<lparr>flippedCards := [0, 1]\<rparr>)) 1 = Some (demo_card 0)
    \<and> pairId (demo_card 0) = pairId (demo_card 0))
   \<and> (\<exists>s'. resolution (demo_start\<lparr>flippedCards := [0, 1]\<rparr>) = Inr s'
          \<and> playerScore s' = 1 \<and> aiScore s' = 0 \<and> currentPlayer s' = Player
          \<and> cards s' = demo_board \<and> isGameActive s' \<and> matchedPairs s' = [(0, 1)]
          \<and> flippedCards s' = [])"
proof -
  let ?s = "demo_start\<lparr>flippedCards := [0, 1]\<rparr>"
  have h: "flippedCards ?s = 0 # 1 # [] \<and> nth_opt (cards ?s) 0 = Some (demo_card 0)
           \<and> nth_opt (cards ?s) 1 = Some (demo_card 0)
           \<and> pairId (demo_card 0) = pairId (demo_card 0)"
    by (simp add: demo_start_def demo_new_def demo_board_def nth_opt_def)
  have f: "playerScore ?s = 0" "aiScore ?s = 0" "currentPlayer ?s = Player"
    "cards ?s = demo_board" "isGameActive ?s" "matchedPairs ?s = []" "totalPairs ?s = 8"
    by (simp_all add: demo_start_def demo_new_def)
  from match_handling_frame[where s = ?s and ?c1.0 = 0 and ?c2.0 = 1 and rest = "[]"
        and ?card1.0 = "demo_card 0" and ?card2.0 = "demo_card 0"] h
  obtain s' where "resolution ?s = Inr s'"
    "playerScore s' = playerScore ?s + (if currentPlayer ?s = Player then 1 else 0)"
    "aiScore s' = aiScore ?s + (if currentPlayer ?s = AI then 1 else 0)"
    "cards s' = cards ?s" "currentPlayer s' = currentPlayer ?s"
    "isGameActive s' = (if length (matchedPairs s') = totalPairs s' then False
                        else isGameActive ?s)"
    "matchedPairs s' = matchedPairs ?s @ [(0, 1)]" "flippedCards s' = []"
    "totalPairs s' = totalPairs ?s"
    by blast
  with f have "resolution ?s = Inr s' \<and> playerScore s' = 1 \<and> aiScore s' = 0
      \<and> currentPlayer s' = Player \<and> cards s' = demo_board \<and> isGameActive s'
      \<and> matchedPairs s' = [(0, 1)] \<and> flippedCards s' = []"
    by simp
  with h show ?thesis by blast
qed


section \<open>Recall accuracy\<close>

lemma aiAccuracy_range: "7 / 10 \<le> aiAccuracy c \<and> aiAccuracy c \<le> 98 / 100"
  by (cases c) simp_all

lemma recordMoveResult_accuracy:
  "memoryAccuracy (recordMoveResult cs wasMatch syms a) =
     (if wasMatch then min (99 / 100) (memoryAccuracy a + 1 / 100)
      else max (aiAccuracy (ai_config a) * (8 / 10)) (memoryAccuracy a - 5 / 1000))"
  "ai_config (recordMoveResult cs wasMatch syms a) = ai_config a"
  by (simp_all add: recordMoveResult_def learnFromMove_def Let_def)

lemma recordMoveResult_bounds:
  assumes "aiAccuracy (ai_config a) * (8 / 10) \<le> memoryAccuracy a" "memoryAccuracy a \<le> 99 / 100"
  shows "aiAccuracy (ai_config a) * (8 / 10) \<le> memoryAccuracy (recordMoveResult cs m syms a)
         \<and> memoryAccuracy (recordMoveResult cs m syms a) \<le> 99 / 100"
  using assms aiAccuracy_range[of "ai_config a"]
  by (simp add: recordMoveResult_accuracy min_def max_def)

lemma recordOutcomes_bounds:
  assumes "aiAccuracy (ai_config a) * (8 / 10) \<le> memoryAccuracy a" "memoryAccuracy a \<le> 99 / 100"
  shows "aiAccuracy (ai_config a) * (8 / 10) \<le> memoryAccuracy (recordOutcomes outcomes a)
         \<and> memoryAccuracy (recordOutcomes outcomes a) \<le> 99 / 100
         \<and> ai_config (recordOutcomes outcomes a) = ai_config a"
  using assms
proof (induction outcomes arbitrary: a)
  case Nil
  then show ?case by (simp add: recordOutcomes_def)
next
  case (Cons x xs)
  obtain cs m syms where x: "x = (cs, m, syms)" by (cases x)
  let ?a = "recordMoveResult cs m syms a"
  have eq: "recordOutcomes (x # xs) a = recordOutcomes xs ?a"
    by (simp add: recordOutcomes_def x)
  have c: "ai_config ?a = ai_config a" by (simp add: recordMoveResult_accuracy)
  from recordMoveResult_bounds[OF Cons.prems, of cs m syms]
  have "aiAccuracy (ai_config ?a) * (8 / 10) \<le> memoryAccuracy ?a" "memoryAccuracy ?a \<le> 99 / 100"
    by (simp_all add: c)
  from Cons.IH[OF this] show ?case by (simp add: eq c)
qed

text \<open>C6. An opponent configured for a difficulty starts with recall accuracy equal to the
  profile's base accuracy \<open>b\<close>. After any sequence of calls of \<open>recordMoveResult\<close> the
  accuracy lies between \<open>0.8 * b\<close> and \<open>0.99\<close>; a match sets it to
  \<open>min 0.99 (accuracy + 0.01)\<close>, a miss to \<open>max (0.8 * b) (accuracy - 0.005)\<close>, for any
  state of the opponent.\<close>

theorem recall_accuracy_bounds:
  assumes "memoryAccuracy a = aiAccuracy (ai_config a)"
  shows "aiAccuracy (ai_config a) * (8 / 10) \<le> memoryAccuracy (recordOutcomes outcomes a)
       \<and> memoryAccuracy (recordOutcomes outcomes a) \<le> 99 / 100
       \<and> memoryAccuracy (recordMoveResult cs True syms a') =
           min (99 / 100) (memoryAccuracy a' + 1 / 100)
       \<and> memoryAccuracy (recordMoveResult cs False syms a') =
           max (aiAccuracy (ai_config a') * (8 / 10)) (memoryAccuracy a' - 5 / 1000)"
proof -
  from assms aiAccuracy_range[of "ai_config a"]
  have "aiAccuracy (ai_config a) * (8 / 10) \<le> memoryAccuracy a" "memoryAccuracy a \<le> 99 / 100"
    by simp_all
  from recordOutcomes_bounds[OF this, of outcomes] show ?thesis
    by (simp add: recordMoveResult_accuracy)
qed

theorem recall_accuracy_bounds_witness:
  "memoryAccuracy demo_ai = aiAccuracy (ai_config demo_ai)
   \<and> aiAccuracy beginner * (8 / 10)
       \<le> memoryAccuracy (recordOutcomes [((0, 1), True, (Star, Star)),
                                           ((2, 4), False, (Circle, Triangle))] demo_ai)
   \<and> memoryAccuracy (recordOutcomes [((0, 1), True, (Star, Star)),
                                      ((2, 4), False, (Circle, Triangle))] demo_ai) \<le> 99 / 100"
proof -
  have h: "memoryAccuracy demo_ai = aiAccuracy (ai_config demo_ai)"
    by (simp add: demo_ai_def)
  have c: "ai_config demo_ai = beginner" by (simp add: demo_ai_def)
  from recall_accuracy_bounds[OF h, of "[((0, 1), True, (Star, Star)),
                                           ((2, 4), False, (Circle, Triangle))]"] h
  show ?thesis unfolding c by blast
qed

section \<open>Unrecognised difficulty levels\<close>

lemma setDifficulty_config:
  assumes "setDifficulty d a = Inr (WithProfile a')"
  shows "DIFFICULTIES d = Profile (ai_config a')"
  using assms by (auto simp: setDifficulty_def reset_def split: property.splits)

lemma changeDifficulty_profile:
  assumes "DIFFICULTIES d = Profile c"
  shows "changeDifficulty d s =
           Inr (WithProfile
                  (setupNewGame
                     (s\<lparr>difficulty := d, config := c,
                        ai := reset ((ai s)\<lparr>ai_difficulty := d, ai_config := c,
                                            memoryAccuracy := aiAccuracy c\<rparr>)\<rparr>)))"
  using assms by (simp add: changeDifficulty_def setDifficulty_def reset_def)

text \<open>An inherited key passes the guard of \<open>changeDifficulty\<close>: the call returns normally
  with a game and an opponent whose \<open>config\<close> is no profile, an empty board and
  \<open>totalPairs = NaN\<close>.\<close>

lemma changeDifficulty_inherited_key:
  "changeDifficulty ''constructor'' demo_start =
     Inr (WithoutProfile
            \<lparr>ai' = \<lparr>ai_difficulty' = ''constructor'', memory' = [], probabilityMatrix' = [],
                    playerPatterns' = [], gameHistory' = [], thinkingTime' = 1500,
                    ai_config' = ''constructor'', memoryAccuracy' = None,
                    explorationRate' = 3 / 10, knownPairs' = [], revealedCards' = [],
                    moveCount' = 0\<rparr>,
             cards' = [], flippedCards' = [], matchedPairs' = [], currentPlayer' = Player,
             playerScore' = 0, aiScore' = 0, moves' = 0, isGameActive' = True,
             difficulty' = ''constructor'', config' = ''constructor'', totalPairs' = NaN,
             random' = \<lparr>draws = demo_draws, pos = 15\<rparr>, gameResults' = []\<rparr>)"
  by (simp add: changeDifficulty_def setDifficulty_def DIFFICULTIES_def objectPrototypeKeys_def
                demo_start_def demo_new_def demo_ai_def)

text \<open>C2, as the claim states it, fails for \<open>setDifficulty\<close>: it does not validate its
  argument, reads \<open>aiAccuracy\<close> of the \<open>undefined\<close> table entry and throws.\<close>

theorem setDifficulty_unknown_level_throws:
  "setDifficulty ''nightmare'' demo_ai = Inl TypeError"
  by (simp add: setDifficulty_def DIFFICULTIES_def objectPrototypeKeys_def)

text \<open>C2, amended. For every argument that is neither one of the four levels nor the name
  of a property that the table inherits from \<open>Object.prototype\<close>, \<open>changeDifficulty\<close>
  returns normally and leaves the whole state unchanged: the game, its configuration, and
  the opponent with its profile and belief state.\<close>

theorem unknown_difficulty_ignored:
  assumes "d \<notin> {''beginner'', ''intermediate'', ''advanced'', ''expert''}"
    and "d \<notin> set objectPrototypeKeys"
  shows "changeDifficulty d s = Inr (WithProfile s)"
  using assms by (simp add: changeDifficulty_def DIFFICULTIES_def)

theorem unknown_difficulty_ignored_witness:
  "''nightmare'' \<notin> {''beginner'', ''intermediate'', ''advanced'', ''expert''}
   \<and> ''nightmare'' \<notin> set objectPrototypeKeys
   \<and> changeDifficulty ''nightmare'' demo_start = Inr (WithProfile demo_start)"
proof -
  have h1: "''nightmare'' \<notin> {''beginner'', ''intermediate'', ''advanced'', ''expert''}"
    by simp
  have h2: "''nightmare'' \<notin> set objectPrototypeKeys"
    by (simp add: objectPrototypeKeys_def)
  from unknown_difficulty_ignored[OF h1 h2, of demo_start] h1 h2 show ?thesis by blast
qed


section \<open>The turn after a resolution\<close>

text \<open>C7. A resolution is \<open>evaluateMove\<close> up to the hand-over of the turn, before the
  opponent's next move (if any) starts. Whenever two cards are revealed in a reachable state,
  the resolution returns normally. If the two cards have the same pair identifier, the active player afterwards is
  the player who revealed them. If they differ, the active player afterwards is the other
  player, and both cards are hidden again: the revealed list is empty, the matched pairs
  are unchanged, and both indices are selectable.\<close>

theorem turn_after_resolution:
  assumes "reachable s" and "length (flippedCards s) = 2"
  shows "\<exists>c1 c2 card1 card2 s'.
           flippedCards s = [c1, c2] \<and> nth_opt (cards s) c1 = Some card1
           \<and> nth_opt (cards s) c2 = Some card2 \<and> resolution s = Inr s'
           \<and> (pairId card1 = pairId card2 \<longrightarrow> currentPlayer s' = currentPlayer s)
           \<and> (pairId card1 \<noteq> pairId card2 \<longrightarrow>
                 currentPlayer s' = (if currentPlayer s = Player then AI else Player)
                 \<and> flippedCards s' = [] \<and> matchedPairs s' = matchedPairs s
                 \<and> c1 \<in> set (getAvailableCards s') \<and> c2 \<in> set (getAvailableCards s'))"
proof -
  from assms(2) obtain c1 c2 where fl: "flippedCards s = [c1, c2]"
    by (cases "flippedCards s"; cases "tl (flippedCards s)") auto
  from reachable_invariant[OF assms(1)] have inv: "invariant s" .
  with fl have r: "c1 < length (cards s)" "c2 < length (cards s)"
    "\<not> isCardMatched s c1" "\<not> isCardMatched s c2"
    "length (matchedPairs s) \<noteq> totalPairs s"
    by (auto simp: invariant_def)
  let ?card1 = "cards s ! c1" and ?card2 = "cards s ! c2"
  from r have n: "nth_opt (cards s) c1 = Some ?card1" "nth_opt (cards s) c2 = Some ?card2"
    by (simp_all add: nth_opt_def)
  show ?thesis
  proof (cases "pairId ?card1 = pairId ?card2")
    case True
    with fl n have "\<exists>s'. resolution s = Inr s' \<and> currentPlayer s' = currentPlayer s"
      by (simp add: resolution_def Let_def handleMatch_def isGameComplete_def endGame_def)
    with fl n True show ?thesis by auto
  next
    case False
    let ?s' = "switchTurn (s\<lparr>moves := moves s + 1,
                 ai := recordMoveResult (c1, c2) False (symbol ?card1, symbol ?card2) (ai s),
                 flippedCards := []\<rparr>)"
    from fl n False r(5) have res: "resolution s = Inr ?s'"
      by (simp add: resolution_def Let_def handleMismatch_def isGameComplete_def)
    have f: "currentPlayer ?s' = (if currentPlayer s = Player then AI else Player)"
      "flippedCards ?s' = []" "matchedPairs ?s' = matchedPairs s" "cards ?s' = cards s"
      by (simp_all add: switchTurn_def)
    from f(3) have "isCardMatched ?s' = isCardMatched s" by (rule isCardMatched_cong)
    with r f have "c1 \<in> set (getAvailableCards ?s')" "c2 \<in> set (getAvailableCards ?s')"
      by (simp_all add: getAvailableCards_mem)
    with fl n False res f show ?thesis by blast
  qed
qed

theorem turn_after_resolution_witness:
  "reachable (revealed 5 (revealed 0 demo_start))
   \<and> length (flippedCards (revealed 5 (revealed 0 demo_start))) = 2
   \<and> (\<exists>s'. resolution (revealed 5 (revealed 0 demo_start)) = Inr s'
          \<and> currentPlayer s' = AI \<and> flippedCards s' = [] \<and> matchedPairs s' = []
          \<and> 0 \<in> set (getAvailableCards s') \<and> 5 \<in> set (getAvailableCards s'))"
proof -
  let ?s = "revealed 5 (revealed 0 demo_start)"
  have len: "length (flippedCards ?s) = 2"
    by (simp add: revealed_fields demo_start_fields)
  have fl: "flippedCards ?s = [0, 5]" "currentPlayer ?s = Player" "matchedPairs ?s = []"
    "cards ?s = demo_board"
    by (simp_all add: revealed_fields demo_start_fields)
  have cards: "nth_opt demo_board 0 = Some (demo_card 0)" "nth_opt demo_board 5 = Some (demo_card 2)"
    by (simp_all add: nth_opt_def demo_board_def)
  from turn_after_resolution[OF reachable_demo_two_revealed len]
  obtain c1 c2 card1 card2 s' where
    c: "flippedCards ?s = [c1, c2]" "nth_opt (cards ?s) c1 = Some card1"
       "nth_opt (cards ?s) c2 = Some card2" "resolution ?s = Inr s'"
       "pairId card1 \<noteq> pairId card2 \<longrightarrow>
          currentPlayer s' = (if currentPlayer ?s = Player then AI else Player)
          \<and> flippedCards s' = [] \<and> matchedPairs s' = matchedPairs ?s
          \<and> c1 \<in> set (getAvailableCards s') \<and> c2 \<in> set (getAvailableCards s')"
    by blast
  from c(1) fl(1) have i: "c1 = 0" "c2 = 5" by simp_all
  with c(2,3) fl(4) cards have "card1 = demo_card 0" "card2 = demo_card 2" by simp_all
  then have "pairId card1 \<noteq> pairId card2" by (simp add: demo_card_def)
  with c(4,5) i fl have "resolution ?s = Inr s' \<and> currentPlayer s' = AI \<and> flippedCards s' = []
      \<and> matchedPairs s' = [] \<and> 0 \<in> set (getAvailableCards s') \<and> 5 \<in> set (getAvailableCards s')"
    by simp
  with reachable_demo_two_revealed len show ?thesis by blast
qed


section \<open>The generated board\<close>

lemma Math_random_range: "0 \<le> fst (Math_random g) \<and> fst (Math_random g) < 1"
  by (simp add: Math_random_def frac_lt_1)

lemma random_index_le:
  assumes "0 \<le> r" "r < 1"
  shows "nat \<lfloor>r * real (Suc n)\<rfloor> \<le> n"
proof -
  from assms have "r * real (Suc n) < real (Suc n)" by simp
  then have "\<lfloor>r * real (Suc n)\<rfloor> < int (Suc n)" by (simp add: floor_less_iff)
  then show ?thesis by simp
qed

lemma shuffle_loop_mset:
  "n = 0 \<or> n < length xs \<Longrightarrow>
     mset (fst (shuffle_loop n xs g)) = mset xs \<and> length (fst (shuffle_loop n xs g)) = length xs"
proof (induction n arbitrary: xs g)
  case 0
  then show ?case by simp
next
  case (Suc n)
  obtain r g' where rg: "Math_random g = (r, g')" by (cases "Math_random g")
  with Math_random_range[of g] have r: "0 \<le> r" "r < 1" by simp_all
  let ?j = "nat \<lfloor>r * real (Suc n + 1)\<rfloor>"
  let ?xs = "xs[Suc n := xs ! ?j, ?j := xs ! Suc n]"
  from Suc.prems have i: "Suc n < length xs" by simp
  from random_index_le[OF r, of "Suc n"] have j: "?j \<le> Suc n" by simp
  with i have j': "?j < length xs" by simp
  have m: "mset ?xs = mset xs" using j' i by (rule mset_swap)
  have l: "length ?xs = length xs" by simp
  from i l have "n = 0 \<or> n < length ?xs" by simp
  from Suc.IH[OF this, of g'] m l rg show ?case by (simp add: Let_def)
qed

lemma shuffleArray_mset:
  "mset (fst (shuffleArray xs g)) = mset xs \<and> length (fst (shuffleArray xs g)) = length xs"
  unfolding shuffleArray_def
  by (rule shuffle_loop_mset) (cases xs; simp)

lemma cardPairs_Suc:
  "cardPairs (Suc n) =
     cardPairs n @ [\<lparr>symbol = SYMBOLS ! (n mod length SYMBOLS),
                      symbolName = SYMBOL_NAMES ! (n mod length SYMBOLS), pairId = n\<rparr>,
                    \<lparr>symbol = SYMBOLS ! (n mod length SYMBOLS),
                      symbolName = SYMBOL_NAMES ! (n mod length SYMBOLS), pairId = n\<rparr>]"
  by (simp add: cardPairs_def Let_def)

lemma cardPairs_count:
  "length (filter (\<lambda>c. pairId c = p) (cardPairs n)) = (if p < n then 2 else 0)"
proof (induction n)
  case 0
  then show ?case by (simp add: cardPairs_def)
next
  case (Suc n)
  then show ?case by (auto simp: cardPairs_Suc)
qed

lemma length_cardPairs: "length (cardPairs n) = 2 * n"
  by (induction n) (simp_all add: cardPairs_Suc, simp add: cardPairs_def)

lemma even_board: "even (rows c * cols c)"
  by (cases c) simp_all

lemma generateCards_cards:
  "cards (generateCards s) =
     fst (shuffleArray (cardPairs ((rows (config s) * cols (config s)) div 2)) (random s))"
  by (simp add: generateCards_def Let_def split: prod.splits)

lemma positions_card:
  "card {k. k < length xs \<and> P (xs ! k)} = size (filter_mset P (mset xs))"
  by (simp add: length_filter_conv_card[symmetric] flip: mset_filter)

text \<open>C9. The shuffle returns a permutation of its argument (for every array and every
  oracle). Hence the cards of a generated board are, as a multiset, the generated pairs;
  the board has \<open>rows * cols\<close> cards; and every pair identifier below \<open>rows * cols / 2\<close>
  occurs at exactly two positions of the board, every other identifier at none.\<close>

theorem board_pairs_and_shuffle_permutation:
  "mset (fst (shuffleArray xs g)) = mset xs
   \<and> mset (cards (generateCards s)) = mset (cardPairs ((rows (config s) * cols (config s)) div 2))
   \<and> length (cards (generateCards s)) = rows (config s) * cols (config s)
   \<and> (\<forall>p. card {k. k < length (cards (generateCards s)) \<and> pairId (cards (generateCards s) ! k) = p}
          = (if p < (rows (config s) * cols (config s)) div 2 then 2 else 0))"
proof -
  let ?n = "(rows (config s) * cols (config s)) div 2"
  have m: "mset (cards (generateCards s)) = mset (cardPairs ?n)"
    by (simp add: generateCards_cards shuffleArray_mset)
  have "length (cards (generateCards s)) = length (cardPairs ?n)"
    by (simp add: generateCards_cards shuffleArray_mset)
  also have "\<dots> = rows (config s) * cols (config s)"
    using even_board[of "config s"] by (simp add: length_cardPairs)
  finally have l: "length (cards (generateCards s)) = rows (config s) * cols (config s)" .
  have c: "card {k. k < length (cards (generateCards s)) \<and> pairId (cards (generateCards s) ! k) = p}
          = (if p < ?n then 2 else 0)" for p
  proof -
    have "card {k. k < length (cards (generateCards s)) \<and> pairId (cards (generateCards s) ! k) = p}
          = size (filter_mset (\<lambda>c. pairId c = p) (mset (cards (generateCards s))))"
      by (rule positions_card)
    also have "\<dots> = length (filter (\<lambda>c. pairId c = p) (cardPairs ?n))"
      by (simp add: m flip: mset_filter)
    finally show ?thesis by (simp add: cardPairs_count)
  qed
  from m l c shuffleArray_mset[of xs g] show ?thesis by blast
qed

theorem board_pairs_and_shuffle_permutation_witness:
  "(3::nat) < (rows (config demo_new) * cols (config demo_new)) div 2
   \<and> card {k. k < length (cards (generateCards demo_new))
              \<and> pairId (cards (generateCards demo_new) ! k) = 3} = 2
   \<and> length (cards (generateCards demo_new)) = 16"
proof -
  have c: "config demo_new = beginner" by (simp add: demo_new_def)
  from board_pairs_and_shuffle_permutation[of "[]::nat list" "random demo_new" demo_new]
  have "length (cards (generateCards demo_new)) = rows (config demo_new) * cols (config demo_new)"
    "card {k. k < length (cards (generateCards demo_new))
              \<and> pairId (cards (generateCards demo_new) ! k) = 3}
       = (if 3 < (rows (config demo_new) * cols (config demo_new)) div 2 then 2 else 0)"
    by blast+
  then show ?thesis by (simp add: c)
qed


section \<open>The stored probability estimates\<close>

lemma map_of_fold_update:
  "map_of (foldl (\<lambda>pm i. if P i then AList.update i v pm else pm) pm0 is) k =
     (if k \<in> set is \<and> P k then Some v else map_of pm0 k)"
  by (induction "is" arbitrary: pm0) (auto simp: update_conv')

lemma updateProbabilities_matrix:
  "map_of (probabilityMatrix (updateProbabilities sy a)) i =
     (if i < rows (ai_config a) * cols (ai_config a) \<and> \<not> has (memory a) i
      then Some (probabilities a) else map_of (probabilityMatrix a) i)"
  by (simp add: updateProbabilities_def map_of_fold_update)

lemma updateProbabilities_fields:
  "memory (updateProbabilities sy a) = memory a"
  "ai_config (updateProbabilities sy a) = ai_config a"
  "playerPatterns (updateProbabilities sy a) = playerPatterns a"
  "memoryAccuracy (updateProbabilities sy a) = memoryAccuracy a"
  "moveCount (updateProbabilities sy a) = moveCount a"
  by (simp_all add: updateProbabilities_def)

lemma all_symbols: "s \<in> set SYMBOLS"
  by (cases s) (simp_all add: SYMBOLS_def)

lemma map_of_probabilities:
  "map_of (probabilities a) s =
     Some (max0_div (real (rows (ai_config a) * cols (ai_config a)) / real (length SYMBOLS)
                       - real (symbolCounts a s))
                    (int (rows (ai_config a) * cols (ai_config a)) - int (length (memory a))))"
proof -
  have "map_of (map (\<lambda>s. (s, f s)) SYMBOLS) s = Some (f s)" for f :: "symbol \<Rightarrow> jsnum"
    using all_symbols[of s] by (simp add: map_of_map_restrict)
  then show ?thesis by (simp add: probabilities_def Let_def)
qed

lemma observeCard_fields:
  "memory (fst (observeCard i sy b (a, g))) =
     (if frac (draws g (pos g)) < memoryAccuracy a then AList.update i sy (memory a) else memory a)"
  "playerPatterns (fst (observeCard i sy b (a, g))) =
     (if b then (if 20 \<le> length (playerPatterns a) then tl (playerPatterns a @ [(i, moveCount a)])
                 else playerPatterns a @ [(i, moveCount a)])
      else playerPatterns a)"
  "ai_config (fst (observeCard i sy b (a, g))) = ai_config a"
  "memoryAccuracy (fst (observeCard i sy b (a, g))) = memoryAccuracy a"
  "moveCount (fst (observeCard i sy b (a, g))) = moveCount a + 1"
  "snd (observeCard i sy b (a, g)) = g\<lparr>pos := Suc (pos g)\<rparr>"
  by (simp_all add: observeCard_def Math_random_def Let_def updateProbabilities_fields
                    trackPlayerPattern_def)

lemma observeCard_matrix:
  "map_of (probabilityMatrix (fst (observeCard ci sy b (a, g)))) i =
     map_of (probabilityMatrix (updateProbabilities sy (remembered ci sy b (a, g)))) i"
  "memory (fst (observeCard ci sy b (a, g))) = memory (remembered ci sy b (a, g))"
  "ai_config (remembered ci sy b (a, g)) = ai_config a"
  by (simp_all add: observeCard_def Math_random_def Let_def remembered_def
                    trackPlayerPattern_def updateProbabilities_fields)

lemma keys_update:
  "set (map fst (AList.update k v al)) = insert k (set (map fst al))"
  by (induction al) auto

lemma unknown_positions:
  assumes "distinct (map fst m)" "\<forall>k \<in> set (map fst m). k < n"
  shows "card {j. j < n \<and> \<not> has m j} = n - length m"
proof -
  have h: "has m j \<longleftrightarrow> j \<in> set (map fst m)" for j
    by (simp add: has_def map_of_eq_None_iff)
  have "{j. j < n \<and> \<not> has m j} = {..<n} - set (map fst m)"
    by (auto simp: h)
  moreover have "set (map fst m) \<subseteq> {..<n}" using assms(2) by auto
  ultimately have "card {j. j < n \<and> \<not> has m j} = n - card (set (map fst m))"
    by (simp add: card_Diff_subset del: set_map)
  moreover have "card (set (map fst m)) = length (map fst m)"
    using assms(1) by (rule distinct_card)
  ultimately show ?thesis by simp
qed

lemma max0_div_positive:
  "m < n \<Longrightarrow> max0_div x (int n - int m) = Num (max 0 (x / real (n - m)))"
  by (simp add: max0_div_def of_nat_diff)

lemma stored_estimate:
  assumes d: "distinct (map fst (memory a))"
    and k: "\<forall>k \<in> set (map fst (memory a)). k < rows (ai_config a) * cols (ai_config a)"
    and ci: "cardIndex < rows (ai_config a) * cols (ai_config a)"
    and a': "a' = fst (observeCard cardIndex symb isPlayerMove (a, g))"
    and i: "i < rows (ai_config a) * cols (ai_config a)" "\<not> has (memory a') i"
  shows "\<exists>probs. map_of (probabilityMatrix a') i = Some probs
           \<and> map_of probs s =
               Some (Num (max 0 ((real (rows (ai_config a) * cols (ai_config a)) / real (length SYMBOLS)
                                   - real (count_list (map snd (memory a')) s))
                                 / real (card {j. j < rows (ai_config a) * cols (ai_config a)
                                                  \<and> \<not> has (memory a') j}))))"
proof -
  let ?n = "rows (ai_config a) * cols (ai_config a)"
  let ?r = "remembered cardIndex symb isPlayerMove (a, g)"
  have mem: "memory a' = memory ?r" and cfg: "ai_config ?r = ai_config a"
    by (simp_all add: a' observeCard_matrix)
  have d': "distinct (map fst (memory ?r))"
    using d by (simp add: remembered_def distinct_update)
  have k': "\<forall>k \<in> set (map fst (memory ?r)). k < ?n"
    using k ci by (auto simp: remembered_def keys_update simp del: set_map)
  from unknown_positions[OF d' k'] have u: "card {j. j < ?n \<and> \<not> has (memory ?r) j} = ?n - length (memory ?r)" .
  from i have "i \<in> {j. j < ?n \<and> \<not> has (memory ?r) j}" by (simp add: mem)
  then have "card {j. j < ?n \<and> \<not> has (memory ?r) j} \<noteq> 0" by (auto simp: card_eq_0_iff)
  with u have lt: "length (memory ?r) < ?n" by simp
  have m: "map_of (probabilityMatrix a') i = Some (probabilities ?r)"
    using i by (simp add: a' observeCard_matrix updateProbabilities_matrix cfg mem[unfolded a'])
  have "map_of (probabilities ?r) s =
      Some (Num (max 0 ((real ?n / real (length SYMBOLS) - real (count_list (map snd (memory ?r)) s))
                        / real (?n - length (memory ?r)))))"
    using max0_div_positive[OF lt]
    by (simp only: map_of_probabilities cfg symbolCounts_def)
  with m u show ?thesis by (simp add: mem)
qed


lemma count_list_mset: "mset xs = mset ys \<Longrightarrow> count_list xs x = count_list ys x"
  by (metis count_mset)

lemma board_symbol_count:
  "count_list (map symbol (cards (generateCards s))) sy
     = count_list (map symbol (cardPairs ((rows (config s) * cols (config s)) div 2))) sy"
proof -
  have "mset (cards (generateCards s)) = mset (cardPairs ((rows (config s) * cols (config s)) div 2))"
    by (simp add: generateCards_cards shuffleArray_mset)
  then have "mset (map symbol (cards (generateCards s)))
             = mset (map symbol (cardPairs ((rows (config s) * cols (config s)) div 2)))"
    by simp
  then show ?thesis by (rule count_list_mset)
qed

lemma length_board: "length (cards (generateCards s)) = rows (config s) * cols (config s)"
  using even_board[of "config s"]
  by (simp add: generateCards_cards shuffleArray_mset length_cardPairs)

lemma cardPairs_4: "count_list (map symbol (cardPairs (4 * k))) sy = 2 * k"
proof (induction k)
  case 0
  then show ?case by (simp add: cardPairs_def)
next
  case (Suc k)
  have e: "4 * Suc k = Suc (Suc (Suc (Suc (4 * k))))" by simp
  have m: "(4 * k) mod 4 = 0" "Suc (4 * k) mod 4 = 1" "Suc (Suc (4 * k)) mod 4 = 2"
    "Suc (Suc (Suc (4 * k))) mod 4 = 3"
    by presburger+
  show ?case
    unfolding e cardPairs_Suc using Suc
    by (cases sy) (simp_all add: SYMBOLS_def m)
qed

lemma uniform_levels:
  assumes "config s \<noteq> advanced"
  shows "real (count_list (map symbol (cards (generateCards s))) sy)
         = real (rows (config s) * cols (config s)) / real (length SYMBOLS)"
proof -
  from assms obtain k where k: "(rows (config s) * cols (config s)) div 2 = 4 * k"
    "rows (config s) * cols (config s) = 8 * k"
    by (cases "config s") (auto intro: that[of 2] that[of 3] that[of 6])
  show ?thesis
    unfolding board_symbol_count k by (simp add: cardPairs_4 SYMBOLS_def)
qed

lemma stored_estimate_uniform_levels:
  assumes "board = cards (generateCards t)" and "ai_config a = config t"
    and "config t \<noteq> advanced"
    and "distinct (map fst (memory a))"
    and "\<forall>k \<in> set (map fst (memory a)). k < length board"
    and "cardIndex < length board"
    and "a' = fst (observeCard cardIndex symb isPlayerMove (a, g))"
    and "i < length board" and "\<not> has (memory a') i"
  shows "\<exists>probs. map_of (probabilityMatrix a') i = Some probs
           \<and> map_of probs s = Some (Num (claimedEstimate board (memory a') s))"
proof -
  have len: "length board = rows (ai_config a) * cols (ai_config a)"
    using assms(1,2) by (simp add: length_board)
  have cnt: "real (count_list (map symbol board) s)
         = real (rows (ai_config a) * cols (ai_config a)) / real (length SYMBOLS)"
    using assms(1,2,3) uniform_levels[of t s] by simp
  from stored_estimate[OF assms(4) assms(5)[unfolded len] assms(6)[unfolded len] assms(7)
        assms(8)[unfolded len] assms(9), of s]
  show ?thesis unfolding claimedEstimate_def cnt len .
qed





section \<open>The opponent's decision\<close>

lemma randomChoice_eval:
  "randomChoice xs \<lparr>draws = d, pos = p\<rparr> =
     (nth_opt xs (nat \<lfloor>frac (d p) * real (length xs)\<rfloor>), \<lparr>draws = d, pos = Suc p\<rparr>)"
  by (simp add: randomChoice_def Math_random_def)

lemma demo_ai_fields:
  "memory demo_ai = []" "ai_config demo_ai = beginner" "memoryAccuracy demo_ai = 7 / 10"
  "playerPatterns demo_ai = []" "moveCount demo_ai = 0"
  by (simp_all add: demo_ai_def)

lemma c1_ai_fields:
  "memory c1_ai = [(0, Star)]" "ai_config c1_ai = beginner" "playerPatterns c1_ai = [(0, 0)]"
  by (simp_all add: c1_ai_def observeCard_fields demo_ai_fields demo_draws_def frac_demo)

lemma c1_ai_estimate:
  "\<exists>probs. map_of (probabilityMatrix c1_ai) 1 = Some probs \<and> map_of probs Star = Some (Num (1 / 5))"
proof -
  have u: "card {j. j < rows (ai_config demo_ai) * cols (ai_config demo_ai) \<and> \<not> has (memory c1_ai) j}
           = 15"
    using unknown_positions[of "memory c1_ai" 16] by (simp add: c1_ai_fields demo_ai_fields)
  have "\<exists>probs. map_of (probabilityMatrix c1_ai) 1 = Some probs
           \<and> map_of probs Star =
               Some (Num (max 0 ((real (rows (ai_config demo_ai) * cols (ai_config demo_ai)) / real (length SYMBOLS)
                                   - real (count_list (map snd (memory c1_ai)) Star))
                                 / real (card {j. j < rows (ai_config demo_ai) * cols (ai_config demo_ai)
                                                  \<and> \<not> has (memory c1_ai) j}))))"
    by (rule stored_estimate[where cardIndex = 0 and symb = Star and isPlayerMove = True
              and g = "\<lparr>draws = demo_draws, pos = 19\<rparr>"])
       (simp_all add: demo_ai_fields c1_ai_fields c1_ai_def[symmetric] has_def)
  then show ?thesis unfolding u by (simp add: c1_ai_fields demo_ai_fields SYMBOLS_def)
qed

lemma c1_findKnownPairs: "findKnownPairs c1_ai [0, 1] = None"
  by (simp add: findKnownPairs_def c1_ai_fields has_def)

lemma c1_candidates: "candidates c1_ai [0, 1] Star = []"
proof -
  from c1_ai_estimate obtain probs where
    "map_of (probabilityMatrix c1_ai) 1 = Some probs" "map_of probs Star = Some (Num (1 / 5))"
    by blast
  then show ?thesis
    by (simp add: candidates_def c1_ai_fields has_def or_zero_def sortBy_def)
qed

lemma c1_probabilityBasedMove: "probabilityBasedMove c1_ai [0, 1] = None"
  unfolding probabilityBasedMove_def c1_ai_fields probabilityBasedMove_loop.simps c1_candidates
  by simp

lemma c1_explorationMove:
  "explorationMove c1_ai [0, 1] \<lparr>draws = demo_draws, pos = 0\<rparr>
     = ((Some 1, Some 1), \<lparr>draws = demo_draws, pos = 2\<rparr>)"
proof -
  have "filter (\<lambda>index. \<not> has (memory c1_ai) index) [0, 1] = [1]"
    by (simp add: c1_ai_fields has_def)
  then have "explorationMove c1_ai [0, 1] \<lparr>draws = demo_draws, pos = 0\<rparr>
               = pickTwo [0, 1] \<lparr>draws = demo_draws, pos = 0\<rparr>"
    by (simp add: explorationMove_def)
  also have "\<dots> = ((Some 1, Some 1), \<lparr>draws = demo_draws, pos = 2\<rparr>)"
    by (simp add: pickTwo_def randomChoice_eval nth_opt_def demo_draws_def frac_demo)
  finally show ?thesis .
qed

lemma makeMove_no_memory: "memory a = [] \<Longrightarrow> makeMove a av g = explorationMove a av g"
  by (simp add: makeMove_def findKnownPairs_def probabilityBasedMove_def has_def)

text \<open>The fallback of the exploration strategy at work. With cards 0 and 1 available, card 0
  known and no estimate above the threshold, \<open>explorationMove\<close> returns
  \<open>[randomChoice(availableCards), randomChoice(availableCards.filter(index => index !==
  availableCards[0]))]\<close>: the second choice excludes the first element of the list, not the
  first choice, and \<open>makeMove\<close> returns card 1 twice.\<close>

lemma fallback_returns_same_index_twice:
  "makeMove c1_ai [0, 1] \<lparr>draws = demo_draws, pos = 0\<rparr>
     = ((Some 1, Some 1), \<lparr>draws = demo_draws, pos = 2\<rparr>)"
  unfolding makeMove_def c1_findKnownPairs c1_probabilityBasedMove c1_explorationMove
  by simp

lemma randomChoice_nonempty:
  assumes "xs \<noteq> []"
  shows "\<exists>c. fst (randomChoice xs g) = Some c \<and> c \<in> set xs"
proof -
  obtain r g' where rg: "Math_random g = (r, g')" by (cases "Math_random g")
  with Math_random_range[of g] have r: "0 \<le> r" "r < 1" by simp_all
  from assms obtain n where n: "length xs = Suc n" by (cases xs) auto
  from random_index_le[OF r, of n] n have "nat \<lfloor>r * real (length xs)\<rfloor> < length xs" by simp
  with rg show ?thesis by (simp add: randomChoice_def nth_opt_def)
qed

lemma two_distinct_other:
  assumes "distinct xs" "2 \<le> length xs"
  shows "filter (\<lambda>index. Some index \<noteq> c) xs \<noteq> []"
proof -
  from assms(2) obtain x y zs where xs: "xs = x # y # zs"
    by (cases xs; cases "tl xs") auto
  with assms(1) have "x \<noteq> y" by simp
  then have "Some x \<noteq> c \<or> Some y \<noteq> c" by auto
  with xs show ?thesis by auto
qed

lemma pickTwo_defined:
  assumes "distinct xs" "2 \<le> length xs"
  shows "\<exists>c1 c2. fst (pickTwo xs g) = (Some c1, Some c2) \<and> c1 \<in> set xs \<and> c2 \<in> set xs"
proof -
  from assms(2) have ne: "xs \<noteq> []" by auto
  obtain m1 g1 where r1: "randomChoice xs g = (m1, g1)" by (cases "randomChoice xs g")
  with randomChoice_nonempty[OF ne, of g] obtain c1 where c1: "m1 = Some c1" "c1 \<in> set xs"
    by auto
  let ?ys = "filter (\<lambda>index. Some index \<noteq> nth_opt xs 0) xs"
  have "?ys \<noteq> []" using assms by (rule two_distinct_other)
  from randomChoice_nonempty[OF this, of g1] obtain c2 where
    c2: "fst (randomChoice ?ys g1) = Some c2" "c2 \<in> set ?ys" by auto
  with r1 c1 show ?thesis by (auto simp: pickTwo_def split: prod.splits)
qed

lemma defaultExploration_defined:
  assumes "distinct xs" "2 \<le> length xs"
  shows "\<exists>c1 c2. fst (defaultExploration xs g) = (Some c1, Some c2)
           \<and> c1 \<in> set xs \<and> c2 \<in> set xs \<and> c1 \<noteq> c2"
proof -
  from assms(2) have ne: "xs \<noteq> []" by auto
  obtain m1 g1 where r1: "randomChoice xs g = (m1, g1)" by (cases "randomChoice xs g")
  with randomChoice_nonempty[OF ne, of g] obtain c1 where c1: "m1 = Some c1" "c1 \<in> set xs"
    by auto
  let ?ys = "filter (\<lambda>index. Some index \<noteq> m1) xs"
  have "?ys \<noteq> []" using assms by (rule two_distinct_other)
  from randomChoice_nonempty[OF this, of g1] obtain c2 where
    c2: "fst (randomChoice ?ys g1) = Some c2" "c2 \<in> set ?ys" by auto
  with r1 c1 show ?thesis by (auto simp: defaultExploration_def split: prod.splits)
qed

lemma explorationMove_defined:
  assumes "distinct av" "2 \<le> length av"
  shows "\<exists>c1 c2. fst (explorationMove a av g) = (Some c1, Some c2)
           \<and> c1 \<in> set av \<and> c2 \<in> set av"
proof -
  let ?unknown = "filter (\<lambda>index. \<not> has (memory a) index) av"
  have du: "distinct ?unknown" using assms(1) by simp
  have p: "\<exists>c1 c2. fst (pickTwo av g') = (Some c1, Some c2) \<and> c1 \<in> set av \<and> c2 \<in> set av" for g'
    using assms by (rule pickTwo_defined)
  have d: "2 \<le> length ?unknown \<Longrightarrow>
        \<exists>c1 c2. fst (defaultExploration ?unknown g') = (Some c1, Some c2)
           \<and> c1 \<in> set av \<and> c2 \<in> set av" for g'
    using defaultExploration_defined[OF du, of g'] by auto
  have b: "\<exists>c1 c2. fst (pickTwo (filter P ?unknown) g') = (Some c1, Some c2)
           \<and> c1 \<in> set av \<and> c2 \<in> set av" if l: "2 \<le> length (filter P ?unknown)" for g' P
  proof -
    have dd: "distinct (filter P ?unknown)" using du by (rule distinct_filter)
    from pickTwo_defined[OF dd l, of g'] obtain c1 c2 where
      e: "fst (pickTwo (filter P ?unknown) g') = (Some c1, Some c2)"
         "c1 \<in> set (filter P ?unknown)" "c2 \<in> set (filter P ?unknown)"
      by blast
    from e(2,3) have "c1 \<in> set av" "c2 \<in> set av" by simp_all
    with e(1) show ?thesis by blast
  qed
  show ?thesis
  proof (cases "length ?unknown < 2")
    case True
    with p[of g] show ?thesis by (simp add: explorationMove_def)
  next
    case False
    then have l: "2 \<le> length ?unknown" by simp
    obtain predicted confidence where an: "analyzePlayerPatterns a = (predicted, confidence)"
      by (cases "analyzePlayerPatterns a")
    obtain r g1 where rg: "Math_random g = (r, g1)" by (cases "Math_random g")
    let ?blocked = "filter (\<lambda>index. areaOf (cols (ai_config a)) index \<in> set predicted) ?unknown"
    have "explorationMove a av g = defaultExploration ?unknown g
        \<or> explorationMove a av g = defaultExploration ?unknown g1
        \<or> (explorationMove a av g = pickTwo ?blocked g1 \<and> 2 \<le> length ?blocked)"
      using False an rg by (simp add: explorationMove_def Let_def)
    with d[OF l, of g] d[OF l, of g1] b[of _ g1] show ?thesis by auto
  qed
qed

lemma findKnownPairs_loop_distinct:
  "findKnownPairs_loop m xs = Some (c1, c2) \<Longrightarrow> distinct xs \<Longrightarrow> c1 \<noteq> c2"
proof (induction xs)
  case Nil
  then show ?case by simp
next
  case (Cons x xs)
  show ?case
  proof (cases "find (\<lambda>card2. map_of m x = map_of m card2) xs")
    case None
    with Cons show ?thesis by simp
  next
    case (Some y)
    then have "y \<in> set xs" by (auto simp: find_Some_iff)
    with Some Cons.prems show ?thesis by auto
  qed
qed

lemma candidates_unknown: "c \<in> set (candidates a av k) \<Longrightarrow> \<not> has (memory a) (fst c)"
  unfolding candidates_def by (auto simp: set_sortBy)

lemma probabilityBasedMove_loop_distinct:
  "probabilityBasedMove_loop a av es = Some (c1, c2) \<Longrightarrow>
     \<forall>e \<in> set es. has (memory a) (fst e) \<Longrightarrow> c1 \<noteq> c2"
proof (induction es)
  case Nil
  then show ?case by simp
next
  case (Cons e es)
  obtain k sy where e: "e = (k, sy)" by (cases e)
  show ?case
  proof (cases "k \<in> set av")
    case False
    with Cons e show ?thesis by simp
  next
    case True
    show ?thesis
    proof (cases "candidates a av sy")
      case Nil
      with Cons e True show ?thesis by simp
    next
      case (Cons c cs)
      then have "c \<in> set (candidates a av sy)" by simp
      then have "\<not> has (memory a) (fst c)" by (rule candidates_unknown)
      moreover from Cons.prems(2) e have "has (memory a) k" by simp
      ultimately show ?thesis using Cons.prems(1) e True Cons by auto
    qed
  qed
qed

lemma has_entries: "e \<in> set m \<Longrightarrow> has m (fst e)"
  by (cases e) (auto simp: has_def map_of_eq_None_iff intro: rev_image_eqI)

lemma explorationMove_default:
  assumes "2 \<le> length (filter (\<lambda>index. \<not> has (memory a) index) av)"
    and "\<not> (snd (analyzePlayerPatterns a) > 4 / 10 \<and> fst (Math_random g) < 3 / 10
            \<and> 2 \<le> length (filter (\<lambda>index. areaOf (cols (ai_config a)) index
                                            \<in> set (fst (analyzePlayerPatterns a)))
                                  (filter (\<lambda>index. \<not> has (memory a) index) av)))"
  shows "explorationMove a av g =
           defaultExploration (filter (\<lambda>index. \<not> has (memory a) index) av)
             (if snd (analyzePlayerPatterns a) > 4 / 10 then snd (Math_random g) else g)"
  using assms
  by (cases "analyzePlayerPatterns a"; cases "Math_random g")
     (auto simp: explorationMove_def Let_def)

text \<open>C1, as the claim states it, fails for a list with one element: no two distinct
  indices exist, and the code returns the index and \<open>undefined\<close> (the second choice reads
  an empty array). \<open>makeAIMove\<close> never passes such a list: it returns before the decision
  when fewer than two cards are available.\<close>

theorem makeMove_single_index:
  "makeMove demo_ai [5] \<lparr>draws = demo_draws, pos = 0\<rparr>
     = ((Some 5, None), \<lparr>draws = demo_draws, pos = 2\<rparr>)"
proof -
  have "explorationMove demo_ai [5] \<lparr>draws = demo_draws, pos = 0\<rparr>
          = pickTwo [5] \<lparr>draws = demo_draws, pos = 0\<rparr>"
    by (simp add: explorationMove_def demo_ai_fields has_def)
  also have "\<dots> = ((Some 5, None), \<lparr>draws = demo_draws, pos = 2\<rparr>)"
    by (simp add: pickTwo_def randomChoice_eval nth_opt_def demo_draws_def frac_demo)
  finally show ?thesis
    by (simp only: makeMove_no_memory[OF demo_ai_fields(1)])
qed

text \<open>C1, amended. For every list of available indices without repetition and with at
  least two elements, \<open>makeMove\<close> returns two indices, each an element of the list. The
  pair it returns is the pair of the known-pair strategy when that strategy finds one, else
  the pair of the probability strategy when that one finds one, and in both cases its two
  indices are distinct. They are distinct as well when the exploration strategy is reached
  and takes its default branch (two random unknown cards): at least two available cards are
  unknown, and the blocked-areas branch is not taken, which needs a confidence above
  \<open>0.4\<close>, a draw below \<open>0.3\<close> and at least two unknown cards in the predicted areas.\<close>

theorem makeMove_indices:
  assumes "distinct availableCards" and "2 \<le> length availableCards"
  shows "\<exists>c1 c2. fst (makeMove a availableCards g) = (Some c1, Some c2)
           \<and> c1 \<in> set availableCards \<and> c2 \<in> set availableCards
           \<and> (findKnownPairs a availableCards \<noteq> None \<longrightarrow>
                 findKnownPairs a availableCards = Some (c1, c2) \<and> c1 \<noteq> c2)
           \<and> (findKnownPairs a availableCards = None
               \<and> probabilityBasedMove a availableCards \<noteq> None \<longrightarrow>
                 probabilityBasedMove a availableCards = Some (c1, c2) \<and> c1 \<noteq> c2)
           \<and> (findKnownPairs a availableCards = None
               \<and> probabilityBasedMove a availableCards = None
               \<and> 2 \<le> length (filter (\<lambda>index. \<not> has (memory a) index) availableCards)
               \<and> \<not> (snd (analyzePlayerPatterns a) > 4 / 10 \<and> fst (Math_random g) < 3 / 10
                     \<and> 2 \<le> length (filter (\<lambda>index. areaOf (cols (ai_config a)) index
                                                     \<in> set (fst (analyzePlayerPatterns a)))
                                    (filter (\<lambda>index. \<not> has (memory a) index) availableCards)))
               \<longrightarrow> c1 \<noteq> c2)"
proof (cases "findKnownPairs a availableCards")
  case (Some p)
  obtain c1 c2 where p: "p = (c1, c2)" by (cases p)
  from Some p assms(1) have "c1 \<noteq> c2"
    unfolding findKnownPairs_def by (auto dest: findKnownPairs_loop_distinct)
  moreover from Some p have "c1 \<in> set availableCards" "c2 \<in> set availableCards"
    by (auto dest: findKnownPairs_mem)
  moreover from Some p have "fst (makeMove a availableCards g) = (Some c1, Some c2)"
    by (simp add: makeMove_def)
  ultimately show ?thesis using Some p by auto
next
  case None
  show ?thesis
  proof (cases "probabilityBasedMove a availableCards")
    case (Some p)
    obtain c1 c2 where p: "p = (c1, c2)" by (cases p)
    have "\<forall>e \<in> set (memory a). has (memory a) (fst e)" by (simp add: has_entries)
    with Some p have "c1 \<noteq> c2"
      unfolding probabilityBasedMove_def by (blast dest: probabilityBasedMove_loop_distinct)
    moreover from Some p have "c1 \<in> set availableCards" "c2 \<in> set availableCards"
      by (auto simp: probabilityBasedMove_def dest: probabilityBasedMove_loop_mem)
    moreover from None Some p have "fst (makeMove a availableCards g) = (Some c1, Some c2)"
      by (simp add: makeMove_def)
    ultimately show ?thesis using None Some p by auto
  next
    case n2: None
    let ?unknown = "filter (\<lambda>index. \<not> has (memory a) index) availableCards"
    let ?default = "2 \<le> length ?unknown
               \<and> \<not> (snd (analyzePlayerPatterns a) > 4 / 10 \<and> fst (Math_random g) < 3 / 10
                     \<and> 2 \<le> length (filter (\<lambda>index. areaOf (cols (ai_config a)) index
                                                     \<in> set (fst (analyzePlayerPatterns a)))
                                    ?unknown))"
    from None n2 have mk: "makeMove a availableCards g = explorationMove a availableCards g"
      by (simp add: makeMove_def)
    show ?thesis
    proof (cases ?default)
      case True
      then have e: "explorationMove a availableCards g =
           defaultExploration ?unknown
             (if snd (analyzePlayerPatterns a) > 4 / 10 then snd (Math_random g) else g)"
        by (intro explorationMove_default) simp_all
      have du: "distinct ?unknown" using assms(1) by simp
      from True have l: "2 \<le> length ?unknown" by simp
      from defaultExploration_defined[OF du l] obtain c1 c2 where
        "fst (defaultExploration ?unknown
               (if snd (analyzePlayerPatterns a) > 4 / 10 then snd (Math_random g) else g))
           = (Some c1, Some c2)" "c1 \<in> set ?unknown" "c2 \<in> set ?unknown" "c1 \<noteq> c2"
        by blast
      with mk e None n2 show ?thesis by auto
    next
      case False
      from explorationMove_defined[OF assms, of a g] obtain c1 c2 where
        "fst (explorationMove a availableCards g) = (Some c1, Some c2)"
        "c1 \<in> set availableCards" "c2 \<in> set availableCards" by blast
      with mk None n2 False show ?thesis by auto
    qed
  qed
qed

theorem makeMove_indices_witness:
  "distinct [0, 1 :: nat] \<and> 2 \<le> length [0, 1 :: nat]
   \<and> findKnownPairs demo_ai [0, 1] = None \<and> probabilityBasedMove demo_ai [0, 1] = None
   \<and> length (filter (\<lambda>index. \<not> has (memory demo_ai) index) [0, 1]) = 2
   \<and> snd (analyzePlayerPatterns demo_ai) = 0
   \<and> (\<exists>c1 c2. fst (makeMove demo_ai [0, 1] \<lparr>draws = demo_draws, pos = 0\<rparr>) = (Some c1, Some c2)
          \<and> c1 \<in> set [0, 1] \<and> c2 \<in> set [0, 1] \<and> c1 \<noteq> c2)"
proof -
  have h: "distinct [0, 1 :: nat]" "2 \<le> length [0, 1 :: nat]" by simp_all
  have k: "findKnownPairs demo_ai [0, 1] = None"
    by (simp add: findKnownPairs_def demo_ai_fields has_def)
  have p: "probabilityBasedMove demo_ai [0, 1] = None"
    by (simp add: probabilityBasedMove_def demo_ai_fields)
  have u: "length (filter (\<lambda>index. \<not> has (memory demo_ai) index) [0, 1]) = 2"
    by (simp add: demo_ai_fields has_def)
  have c: "snd (analyzePlayerPatterns demo_ai) = 0"
    by (simp add: analyzePlayerPatterns_def demo_ai_fields)
  from makeMove_indices[OF h, of demo_ai "\<lparr>draws = demo_draws, pos = 0\<rparr>"] k p u c
  have "\<exists>c1 c2. fst (makeMove demo_ai [0, 1] \<lparr>draws = demo_draws, pos = 0\<rparr>) = (Some c1, Some c2)
          \<and> c1 \<in> set [0, 1] \<and> c2 \<in> set [0, 1] \<and> c1 \<noteq> c2"
    by auto
  with h k p u c show ?thesis by blast
qed


section \<open>The matched-pair count and the end of the match\<close>

lemma playerReveal_gameResults:
  "playerReveal i s = Inr s' \<Longrightarrow> gameResults s' = gameResults s"
  by (auto simp: playerReveal_def split: option.splits prod.splits)

lemma aiReveal_gameResults:
  "aiReveal s = Inr s' \<Longrightarrow> gameResults s' = gameResults s"
  by (auto simp: aiReveal_def split: option.splits prod.splits)

lemma setupNewGame_scores:
  "playerScore (setupNewGame s) = 0" "aiScore (setupNewGame s) = 0"
  "gameResults (setupNewGame s) = gameResults s"
  by (simp_all add: setupNewGame_def generateCards_def Let_def split: prod.splits)

text \<open>What a resolution does to the matched pairs, the scores and the results.\<close>

lemma resolution_effect:
  assumes "resolution s = Inr s'" and "length (flippedCards s) = 2"
  shows "length (matchedPairs s') = length (matchedPairs s)
           + (if pairId (cards s ! (flippedCards s ! 0)) = pairId (cards s ! (flippedCards s ! 1))
              then 1 else 0)
       \<and> playerScore s' + aiScore s' = playerScore s + aiScore s
           + (if pairId (cards s ! (flippedCards s ! 0)) = pairId (cards s ! (flippedCards s ! 1))
              then 1 else 0)
       \<and> gameResults s' = gameResults s @
           (if length (matchedPairs s') = totalPairs s'
            then [\<lparr>winner = (if playerScore s' > aiScore s' then player_wins
                              else if aiScore s' > playerScore s' then ai_wins else tie),
                   finalPlayerScore = playerScore s', finalAiScore = aiScore s',
                   totalMoves = moves s', finalDifficulty = difficulty s'\<rparr>]
            else [])"
  using assms(1)
proof (rule resolution_Inr)
  fix c1 c2 rest card1 card2
  assume fl: "flippedCards s = c1 # c2 # rest"
    and n: "nth_opt (cards s) c1 = Some card1" "nth_opt (cards s) c2 = Some card2"
    and s2: "s' = (let s4 = (if pairId card1 = pairId card2 then handleMatch c1 c2 s else s)
                      \<lparr>moves := moves s + 1,
                       ai := recordMoveResult (c1, c2) (pairId card1 = pairId card2)
                               (symbol card1, symbol card2) (ai s),
                       flippedCards := []\<rparr>
           in if isGameComplete s4 then endGame s4
              else if pairId card1 = pairId card2 then s4 else switchTurn s4)"
  from n have c: "cards s ! c1 = card1" "cards s ! c2 = card2"
    by (auto simp: nth_opt_def split: if_splits)
  show ?thesis
    unfolding s2 fl using c
    by (simp add: Let_def handleMatch_def isGameComplete_def endGame_def switchTurn_def)
qed

lemma scored_start: "scored s0 (setupNewGame s0)"
  by (simp add: scored_def setupNewGame_scores setupNewGame_fields)

lemma scored_step:
  assumes "step s s'" and "invariant s" and "scored s0 s"
  shows "scored s0 s'"
  using assms(1)
proof (cases rule: step.cases)
  case (reveal i)
  from playerReveal_Inr[OF reveal(2)] playerReveal_gameResults[OF reveal(2)] assms(3)
  show ?thesis by (simp add: scored_def)
next
  case opponent
  from aiReveal_Inr[OF opponent(5)] aiReveal_gameResults[OF opponent(5)] assms(3)
  show ?thesis by (auto simp: scored_def)
next
  case resolve
  from step_from_active[OF assms(1,2)] have act: "isGameActive s" .
  from invariant_step[OF assms(1,2)] have inv': "invariant s'" .
  then have a': "isGameActive s' \<longleftrightarrow> length (matchedPairs s') \<noteq> totalPairs s'"
    by (simp add: invariant_def)
  from assms(2) have "length (matchedPairs s) \<le> totalPairs s" by (simp add: invariant_def)
  from resolution_effect[OF resolve(2,1)] assms(3) act a'
  show ?thesis by (auto simp: scored_def)
qed

lemma scored_steps:
  assumes "step\<^sup>*\<^sup>* (setupNewGame s0) s"
  shows "invariant s \<and> scored s0 s"
  using assms
  by (induction rule: rtranclp_induct)
     (auto intro: invariant_start scored_start invariant_step scored_step)

lemma step_count:
  assumes "step s t" and "invariant s"
  shows "isGameActive s
       \<and> length (matchedPairs t) = length (matchedPairs s)
           + (if length (flippedCards s) = 2
                 \<and> pairId (cards s ! (flippedCards s ! 0)) = pairId (cards s ! (flippedCards s ! 1))
              then 1 else 0)"
proof -
  from step_from_active[OF assms] have act: "isGameActive s" .
  from assms(1) have "length (matchedPairs t) = length (matchedPairs s)
           + (if length (flippedCards s) = 2
                 \<and> pairId (cards s ! (flippedCards s ! 0)) = pairId (cards s ! (flippedCards s ! 1))
              then 1 else 0)"
  proof (cases rule: step.cases)
    case (reveal i)
    from reveal(1) have "length (flippedCards s) < 2" by (simp add: isValidCardClick_iff)
    with playerReveal_Inr[OF reveal(2)] show ?thesis by simp
  next
    case opponent
    with aiReveal_Inr[OF opponent(5)] show ?thesis by auto
  next
    case resolve
    from resolution_effect[OF resolve(2,1)] resolve(1) show ?thesis by simp
  qed
  with act show ?thesis by simp
qed

lemma board_pair_positions:
  assumes "p < (rows (config s) * cols (config s)) div 2"
  shows "\<exists>a b. a \<noteq> b \<and> a < length (cards (generateCards s)) \<and> b < length (cards (generateCards s))
           \<and> pairId (cards (generateCards s) ! a) = p \<and> pairId (cards (generateCards s) ! b) = p"
proof -
  let ?xs = "cards (generateCards s)"
  let ?n = "(rows (config s) * cols (config s)) div 2"
  have m: "mset ?xs = mset (cardPairs ?n)"
    by (simp add: generateCards_cards shuffleArray_mset)
  have "card {k. k < length ?xs \<and> pairId (?xs ! k) = p}
          = size (filter_mset (\<lambda>c. pairId c = p) (mset ?xs))"
    by (rule positions_card)
  also have "\<dots> = length (filter (\<lambda>c. pairId c = p) (cardPairs ?n))"
    by (simp add: m flip: mset_filter)
  finally have "card {k. k < length ?xs \<and> pairId (?xs ! k) = p} = 2"
    using assms by (simp add: cardPairs_count)
  then obtain a b where "{k. k < length ?xs \<and> pairId (?xs ! k) = p} = {a, b}" "a \<noteq> b"
    by (auto simp: card_2_iff)
  then have "a \<in> {k. k < length ?xs \<and> pairId (?xs ! k) = p}"
    "b \<in> {k. k < length ?xs \<and> pairId (?xs ! k) = p}" by simp_all
  with \<open>a \<noteq> b\<close> show ?thesis by blast
qed

lemma setupNewGame_cards:
  "cards (setupNewGame s) =
     cards (generateCards (s\<lparr>cards := [], flippedCards := [], matchedPairs := [],
                      currentPlayer := Player, playerScore := 0, aiScore := 0, moves := 0,
                      isGameActive := True, ai := reset (ai s)\<rparr>))"
  by (simp add: setupNewGame_def)

lemma playable_start: "playable (setupNewGame s)"
proof -
  let ?s1 = "s\<lparr>cards := [], flippedCards := [], matchedPairs := [],
                      currentPlayer := Player, playerScore := 0, aiScore := 0, moves := 0,
                      isGameActive := True, ai := reset (ai s)\<rparr>"
  have c: "config ?s1 = config s" by simp
  have "\<exists>a b. a \<noteq> b \<and> a < length (cards (setupNewGame s)) \<and> b < length (cards (setupNewGame s))
         \<and> pairId (cards (setupNewGame s) ! a) = p \<and> pairId (cards (setupNewGame s) ! b) = p"
    if "p < totalPairs (setupNewGame s)" for p
  proof -
    from that have "p < (rows (config ?s1) * cols (config ?s1)) div 2"
      by (simp add: setupNewGame_fields)
    from board_pair_positions[OF this] show ?thesis
      unfolding setupNewGame_cards .
  qed
  then show ?thesis
    by (simp add: playable_def setupNewGame_fields)
qed

lemma resolution_pairs:
  assumes "resolution s = Inr s'" and "length (flippedCards s) = 2"
  shows "cards s' = cards s \<and> totalPairs s' = totalPairs s \<and> flippedCards s' = []
       \<and> matchedPairs s' =
           (if pairId (cards s ! (flippedCards s ! 0)) = pairId (cards s ! (flippedCards s ! 1))
            then matchedPairs s @ [(flippedCards s ! 0, flippedCards s ! 1)]
            else matchedPairs s)
       \<and> (isGameActive s' \<longrightarrow>
            currentPlayer s' =
              (if pairId (cards s ! (flippedCards s ! 0)) = pairId (cards s ! (flippedCards s ! 1))
               then currentPlayer s
               else if currentPlayer s = Player then AI else Player))"
  using assms(1)
proof (rule resolution_Inr)
  fix c1 c2 rest card1 card2
  assume fl: "flippedCards s = c1 # c2 # rest"
    and n: "nth_opt (cards s) c1 = Some card1" "nth_opt (cards s) c2 = Some card2"
    and s2: "s' = (let s4 = (if pairId card1 = pairId card2 then handleMatch c1 c2 s else s)
                      \<lparr>moves := moves s + 1,
                       ai := recordMoveResult (c1, c2) (pairId card1 = pairId card2)
                               (symbol card1, symbol card2) (ai s),
                       flippedCards := []\<rparr>
           in if isGameComplete s4 then endGame s4
              else if pairId card1 = pairId card2 then s4 else switchTurn s4)"
  from n have c: "cards s ! c1 = card1" "cards s ! c2 = card2"
    by (auto simp: nth_opt_def split: if_splits)
  show ?thesis
    unfolding s2 fl using c
    by (simp add: Let_def handleMatch_def isGameComplete_def endGame_def switchTurn_def)
qed

lemma playable_step:
  assumes "step s s'" and "playable s"
  shows "playable s'"
  using assms(1)
proof (cases rule: step.cases)
  case (reveal i)
  from reveal(1) have "currentPlayer s = Player" by (simp add: isValidCardClick_iff)
  with playerReveal_Inr[OF reveal(2)] assms(2) show ?thesis
    by (simp add: playable_def)
next
  case opponent
  from aiReveal_Inr[OF opponent(5)] obtain c1 c2 where
    a: "flippedCards s' = flippedCards s @ [c1, c2]" "cards s' = cards s"
       "matchedPairs s' = matchedPairs s" "currentPlayer s' = currentPlayer s"
       "totalPairs s' = totalPairs s"
    by blast
  with assms(2) show ?thesis by (simp add: playable_def)
next
  case resolve
  from resolution_pairs[OF resolve(2,1)] have
    r: "cards s' = cards s" "totalPairs s' = totalPairs s" "flippedCards s' = []"
       "matchedPairs s' =
           (if pairId (cards s ! (flippedCards s ! 0)) = pairId (cards s ! (flippedCards s ! 1))
            then matchedPairs s @ [(flippedCards s ! 0, flippedCards s ! 1)]
            else matchedPairs s)"
    by simp_all
  with assms(2) show ?thesis by (simp add: playable_def)
qed

lemma consistent_start: "consistent (setupNewGame s)"
  by (simp add: consistent_def invariant_start playable_start)

lemma consistent_step: "step s s' \<Longrightarrow> consistent s \<Longrightarrow> consistent s'"
  by (simp add: consistent_def invariant_step playable_step)

lemma consistent_steps: "step\<^sup>*\<^sup>* s s' \<Longrightarrow> consistent s \<Longrightarrow> consistent s'"
  by (induction rule: rtranclp_induct) (auto intro: consistent_step)

lemma intact_pair:
  assumes "consistent s" and "isGameActive s"
  shows "\<exists>a b. a \<noteq> b \<and> a < length (cards s) \<and> b < length (cards s)
           \<and> pairId (cards s ! a) = pairId (cards s ! b)
           \<and> \<not> isCardMatched s a \<and> \<not> isCardMatched s b"
proof -
  let ?M = "(\<lambda>e. pairId (cards s ! fst e)) ` set (matchedPairs s)"
  from assms have lt: "length (matchedPairs s) < totalPairs s"
    by (auto simp: consistent_def invariant_def)
  have "card ?M \<le> card (set (matchedPairs s))" by (rule card_image_le) simp
  also have "\<dots> \<le> length (matchedPairs s)" by (rule card_length)
  finally have cM: "card ?M < totalPairs s" using lt by simp
  have "\<exists>p < totalPairs s. p \<notin> ?M"
  proof (rule ccontr)
    assume "\<not> (\<exists>p < totalPairs s. p \<notin> ?M)"
    then have "{..< totalPairs s} \<subseteq> ?M" by auto
    then have "card {..< totalPairs s} \<le> card ?M" by (intro card_mono) simp_all
    with cM show False by simp
  qed
  then obtain p where p: "p < totalPairs s" "p \<notin> ?M" by blast
  from assms(1) p(1) obtain a b where ab: "a \<noteq> b" "a < length (cards s)" "b < length (cards s)"
    "pairId (cards s ! a) = p" "pairId (cards s ! b) = p"
    unfolding consistent_def playable_def by blast
  have nm: "\<not> isCardMatched s c" if "pairId (cards s ! c) = p" for c
  proof
    assume "isCardMatched s c"
    then obtain e where e: "e \<in> set (matchedPairs s)" "fst e = c \<or> snd e = c"
      by (auto simp: isCardMatched_def list_ex_iff)
    from assms(1) e(1) have "pairId (cards s ! fst e) = pairId (cards s ! snd e)"
      by (simp add: consistent_def playable_def)
    with e(2) that have "pairId (cards s ! fst e) = p" by auto
    with e(1) p(2) show False by force
  qed
  from ab nm show ?thesis by metis
qed

lemma makeMove_defined:
  assumes "distinct av" and "2 \<le> length av"
  shows "\<exists>c1 c2. fst (makeMove a av g) = (Some c1, Some c2) \<and> c1 \<in> set av \<and> c2 \<in> set av"
proof (cases "findKnownPairs a av")
  case (Some p)
  then show ?thesis
    by (cases p) (auto simp: makeMove_def dest: findKnownPairs_mem)
next
  case None
  show ?thesis
  proof (cases "probabilityBasedMove a av")
    case (Some p)
    with None show ?thesis
      by (cases p)
         (auto simp: makeMove_def probabilityBasedMove_def dest: probabilityBasedMove_loop_mem)
  next
    case None
    with \<open>findKnownPairs a av = None\<close> explorationMove_defined[OF assms, of a g]
    show ?thesis by (simp add: makeMove_def)
  qed
qed

lemma two_members: "a \<in> set xs \<Longrightarrow> b \<in> set xs \<Longrightarrow> a \<noteq> b \<Longrightarrow> 2 \<le> length xs"
proof -
  assume "a \<in> set xs" "b \<in> set xs" "a \<noteq> b"
  then have "card {a, b} \<le> card (set xs)" by (intro card_mono) auto
  also have "\<dots> \<le> length xs" by (rule card_length)
  finally show ?thesis using \<open>a \<noteq> b\<close> by simp
qed

lemma aiReveal_defined:
  assumes "2 \<le> length (getAvailableCards s)"
  shows "\<exists>s'. aiReveal s = Inr s'"
proof -
  have d: "distinct (getAvailableCards s)" by (simp add: getAvailableCards_def)
  obtain mv g where mg: "makeMove (ai s) (getAvailableCards s) (random s) = (mv, g)"
    by (cases "makeMove (ai s) (getAvailableCards s) (random s)")
  with makeMove_defined[OF d assms, of "ai s" "random s"] obtain c1 c2 where
    mv: "mv = (Some c1, Some c2)" "c1 \<in> set (getAvailableCards s)" "c2 \<in> set (getAvailableCards s)"
    by auto
  then have "c1 < length (cards s)" "c2 < length (cards s)"
    by (simp_all add: getAvailableCards_mem)
  with mg mv(1) show ?thesis
    by (simp add: aiReveal_def nth_opt_def split: prod.splits)
qed

lemma resolution_defined:
  assumes "length (flippedCards s) = 2" and "\<forall>c \<in> set (flippedCards s). c < length (cards s)"
  shows "\<exists>s'. resolution s = Inr s'"
proof -
  from assms(1) obtain c1 c2 where fl: "flippedCards s = [c1, c2]"
    by (cases "flippedCards s"; cases "tl (flippedCards s)") auto
  with assms(2) show ?thesis
    by (simp add: resolution_def nth_opt_def Let_def)
qed

lemma resolve_step:
  assumes "consistent s" and "length (flippedCards s) = 2"
  shows "\<exists>s2. step s s2 \<and> flippedCards s2 = [] \<and> totalPairs s2 = totalPairs s
           \<and> (length (matchedPairs s2) = length (matchedPairs s) + 1
                \<and> (isGameActive s2 \<longrightarrow> currentPlayer s2 = currentPlayer s)
              \<or> isGameActive s2 \<and> currentPlayer s2 \<noteq> currentPlayer s)"
proof -
  from assms have r: "\<forall>c \<in> set (flippedCards s). c < length (cards s)"
    and act: "isGameActive s"
    by (auto simp: consistent_def invariant_def)
  from resolution_defined[OF assms(2) r] obtain s2 where res: "resolution s = Inr s2" by blast
  from assms(2) res have st: "step s s2" by (rule step.resolve)
  from consistent_step[OF st assms(1)] have "invariant s2" by (simp add: consistent_def)
  then have a2: "isGameActive s2 \<longleftrightarrow> length (matchedPairs s2) \<noteq> totalPairs s2"
    by (simp add: invariant_def)
  from assms(1) act have a1: "length (matchedPairs s) \<noteq> totalPairs s"
    by (simp add: consistent_def invariant_def)
  from resolution_pairs[OF res assms(2)] a1 a2 st show ?thesis
    by (cases "currentPlayer s") (auto split: if_splits)
qed

lemma opponent_chain:
  "consistent s \<Longrightarrow> isGameActive s \<Longrightarrow> currentPlayer s = AI \<Longrightarrow> flippedCards s = [] \<Longrightarrow>
   totalPairs s - length (matchedPairs s) = n \<Longrightarrow>
   \<exists>t. step\<^sup>*\<^sup>* s t \<and> (\<not> isGameActive t \<or> currentPlayer t = Player \<and> flippedCards t = [])"
proof (induction n arbitrary: s)
  case 0
  then show ?case by (auto simp: consistent_def invariant_def)
next
  case (Suc n)
  from intact_pair[OF Suc.prems(1,2)] obtain a b where
    ab: "a \<noteq> b" "a < length (cards s)" "b < length (cards s)"
        "\<not> isCardMatched s a" "\<not> isCardMatched s b"
    by blast
  with Suc.prems(4) have "a \<in> set (getAvailableCards s)" "b \<in> set (getAvailableCards s)"
    by (simp_all add: getAvailableCards_mem)
  with ab(1) have l: "2 \<le> length (getAvailableCards s)" by (auto intro: two_members)
  from aiReveal_defined[OF l] obtain s1 where a1: "aiReveal s = Inr s1" by blast
  from Suc.prems(1,2) have nc: "\<not> isGameComplete s"
    by (simp add: consistent_def invariant_def isGameComplete_def)
  from Suc.prems(4) nc Suc.prems(3) l a1 have st1: "step s s1" by (rule step.opponent)
  from consistent_step[OF st1 Suc.prems(1)] have g1: "consistent s1" .
  from aiReveal_Inr[OF a1] Suc.prems(4) have f1: "length (flippedCards s1) = 2"
    "currentPlayer s1 = AI" "matchedPairs s1 = matchedPairs s" "totalPairs s1 = totalPairs s"
    using Suc.prems(3) by auto
  from resolve_step[OF g1 f1(1)] obtain s2 where
    st2: "step s1 s2" and f2: "flippedCards s2 = []" "totalPairs s2 = totalPairs s1"
    and c: "length (matchedPairs s2) = length (matchedPairs s1) + 1
                \<and> (isGameActive s2 \<longrightarrow> currentPlayer s2 = currentPlayer s1)
              \<or> isGameActive s2 \<and> currentPlayer s2 \<noteq> currentPlayer s1"
    by blast
  from consistent_step[OF st2 g1] have g2: "consistent s2" .
  from st1 st2 have st: "step\<^sup>*\<^sup>* s s2" by simp
  show ?case
  proof (cases "isGameActive s2 \<and> currentPlayer s2 = AI")
    case False
    then have "\<not> isGameActive s2 \<or> currentPlayer s2 = Player \<and> flippedCards s2 = []"
      using f2(1) by (cases "currentPlayer s2") auto
    with st show ?thesis by blast
  next
    case True
    with c f1(2) have "length (matchedPairs s2) = length (matchedPairs s1) + 1" by auto
    with f1 f2 Suc.prems(5) have "totalPairs s2 - length (matchedPairs s2) = n" by simp
    from Suc.IH[OF g2 _ _ f2(1) this] True obtain t where
      "step\<^sup>*\<^sup>* s2 t" "\<not> isGameActive t \<or> currentPlayer t = Player \<and> flippedCards t = []"
      by blast
    with st show ?thesis by (meson rtranclp_trans)
  qed
qed

lemma human_reveal:
  assumes "isGameActive s" and "currentPlayer s = Player" and "length (flippedCards s) < 2"
    and "i < length (cards s)" and "i \<notin> set (flippedCards s)" and "\<not> isCardMatched s i"
  shows "step s (revealed i s)"
proof (rule step.reveal)
  from assms show "isValidCardClick s i" by (simp add: isValidCardClick_iff)
  from assms(4) show "playerReveal i s = Inr (revealed i s)" by (rule playerReveal_in_range)
qed

lemma to_human_turn:
  assumes "consistent s" and "isGameActive s"
  shows "\<exists>t. step\<^sup>*\<^sup>* s t \<and> (\<not> isGameActive t \<or> currentPlayer t = Player \<and> flippedCards t = [])"
proof -
  have two: "\<exists>t. step\<^sup>*\<^sup>* u t \<and> (\<not> isGameActive t \<or> currentPlayer t = Player \<and> flippedCards t = [])"
    if g: "consistent u" and l: "length (flippedCards u) = 2" for u
  proof -
    from resolve_step[OF g l] obtain s2 where st: "step u s2" and f: "flippedCards s2 = []"
      by blast
    from consistent_step[OF st g] have g2: "consistent s2" .
    show ?thesis
    proof (cases "isGameActive s2 \<and> currentPlayer s2 = AI")
      case False
      then have "\<not> isGameActive s2 \<or> currentPlayer s2 = Player \<and> flippedCards s2 = []"
        using f by (cases "currentPlayer s2") auto
      with st show ?thesis by blast
    next
      case True
      from opponent_chain[OF g2 _ _ f refl] True obtain t where
        "step\<^sup>*\<^sup>* s2 t" "\<not> isGameActive t \<or> currentPlayer t = Player \<and> flippedCards t = []"
        by blast
      with st show ?thesis by (meson converse_rtranclp_into_rtranclp)
    qed
  qed
  from assms(1) have le: "length (flippedCards s) \<le> 2" by (simp add: consistent_def invariant_def)
  consider "length (flippedCards s) = 0" | "length (flippedCards s) = 1"
    | "length (flippedCards s) = 2"
    using le by linarith
  then show ?thesis
  proof cases
    case 1
    then have f: "flippedCards s = []" by simp
    show ?thesis
    proof (cases "currentPlayer s")
      case Player
      with f show ?thesis by blast
    next
      case AI
      from opponent_chain[OF assms AI f refl] show ?thesis .
    qed
  next
    case 2
    then obtain x where fl: "flippedCards s = [x]" by (cases "flippedCards s") auto
    from assms(1) 2 have pl: "currentPlayer s = Player"
      by (cases "currentPlayer s") (auto simp: consistent_def playable_def)
    from intact_pair[OF assms] obtain a b where
      ab: "a \<noteq> b" "a < length (cards s)" "b < length (cards s)"
          "\<not> isCardMatched s a" "\<not> isCardMatched s b"
      by blast
    have "\<exists>y. y \<noteq> x \<and> y < length (cards s) \<and> \<not> isCardMatched s y"
    proof (cases "a = x")
      case True
      with ab show ?thesis by (intro exI[of _ b]) simp
    next
      case False
      with ab show ?thesis by (intro exI[of _ a]) simp
    qed
    then obtain y where y: "y \<noteq> x" "y < length (cards s)" "\<not> isCardMatched s y"
      by blast
    with assms(2) pl fl have st: "step s (revealed y s)"
      by (intro human_reveal) simp_all
    from consistent_step[OF st assms(1)] have g1: "consistent (revealed y s)" .
    from fl have "length (flippedCards (revealed y s)) = 2" by (simp add: revealed_fields)
    from two[OF g1 this] st show ?thesis by (meson converse_rtranclp_into_rtranclp)
  next
    case 3
    with assms(1) show ?thesis by (rule two)
  qed
qed

lemma human_matches:
  assumes "consistent s" and "isGameActive s" and "currentPlayer s = Player" and "flippedCards s = []"
  shows "\<exists>t. step\<^sup>*\<^sup>* s t \<and> length (matchedPairs t) = length (matchedPairs s) + 1
           \<and> totalPairs t = totalPairs s
           \<and> (isGameActive t \<longrightarrow> currentPlayer t = Player \<and> flippedCards t = [])"
proof -
  from intact_pair[OF assms(1,2)] obtain a b where
    ab: "a \<noteq> b" "a < length (cards s)" "b < length (cards s)"
        "pairId (cards s ! a) = pairId (cards s ! b)"
        "\<not> isCardMatched s a" "\<not> isCardMatched s b"
    by blast
  define r1 where "r1 = revealed a s"
  define r2 where "r2 = revealed b r1"
  from assms ab have st1: "step s r1" unfolding r1_def by (intro human_reveal) simp_all
  have f1: "flippedCards r1 = [a]" "cards r1 = cards s" "matchedPairs r1 = matchedPairs s"
    "currentPlayer r1 = Player" "isGameActive r1" "totalPairs r1 = totalPairs s"
    unfolding r1_def using assms by (simp_all add: revealed_fields)
  from f1(3) have m1: "isCardMatched r1 = isCardMatched s" by (rule isCardMatched_cong)
  from f1 ab m1 have st2: "step r1 r2" unfolding r2_def by (intro human_reveal) simp_all
  have f2: "flippedCards r2 = [a, b]" "cards r2 = cards s" "matchedPairs r2 = matchedPairs s"
    "currentPlayer r2 = Player" "isGameActive r2" "totalPairs r2 = totalPairs s"
    unfolding r2_def using f1 by (simp_all add: revealed_fields)
  from consistent_step[OF st2 consistent_step[OF st1 assms(1)]] have g2: "consistent r2" .
  from f2(1) have l2: "length (flippedCards r2) = 2" by simp
  from g2 l2 have "\<forall>c \<in> set (flippedCards r2). c < length (cards r2)"
    by (simp add: consistent_def invariant_def)
  from resolution_defined[OF l2 this] obtain t where res: "resolution r2 = Inr t" by blast
  from l2 res have st3: "step r2 t" by (rule step.resolve)
  from resolution_pairs[OF res l2] f2 ab(4)
  have ft: "flippedCards t = []" "totalPairs t = totalPairs s"
    "matchedPairs t = matchedPairs s @ [(a, b)]" "isGameActive t \<longrightarrow> currentPlayer t = Player"
    by simp_all
  from st1 st2 st3 have "step\<^sup>*\<^sup>* s t" by simp
  with ft show ?thesis by auto
qed

lemma human_can_finish:
  "consistent s \<Longrightarrow> isGameActive s \<Longrightarrow> currentPlayer s = Player \<Longrightarrow> flippedCards s = [] \<Longrightarrow>
   totalPairs s - length (matchedPairs s) = n \<Longrightarrow>
   \<exists>t. step\<^sup>*\<^sup>* s t \<and> \<not> isGameActive t"
proof (induction n arbitrary: s)
  case 0
  then show ?case by (auto simp: consistent_def invariant_def)
next
  case (Suc n)
  from human_matches[OF Suc.prems(1-4)] obtain u where
    u: "step\<^sup>*\<^sup>* s u" "length (matchedPairs u) = length (matchedPairs s) + 1"
       "totalPairs u = totalPairs s"
       "isGameActive u \<longrightarrow> currentPlayer u = Player \<and> flippedCards u = []"
    by blast
  from consistent_steps[OF u(1) Suc.prems(1)] have gu: "consistent u" .
  show ?case
  proof (cases "isGameActive u")
    case False
    with u(1) show ?thesis by blast
  next
    case True
    from u(2,3) Suc.prems(5) have "totalPairs u - length (matchedPairs u) = n" by simp
    from Suc.IH[OF gu True _ _ this] u(4) True obtain t where
      "step\<^sup>*\<^sup>* u t" "\<not> isGameActive t" by blast
    with u(1) show ?thesis by (meson rtranclp_trans)
  qed
qed

lemma can_finish:
  assumes "consistent s"
  shows "\<exists>t. step\<^sup>*\<^sup>* s t \<and> \<not> isGameActive t"
proof (cases "isGameActive s")
  case False
  then show ?thesis by blast
next
  case True
  from to_human_turn[OF assms True] obtain u where
    u: "step\<^sup>*\<^sup>* s u" "\<not> isGameActive u \<or> currentPlayer u = Player \<and> flippedCards u = []"
    by blast
  from consistent_steps[OF u(1) assms] have gu: "consistent u" .
  show ?thesis
  proof (cases "isGameActive u")
    case False
    with u(1) show ?thesis by blast
  next
    case True
    with u(2) human_can_finish[OF gu True _ _ refl] obtain t where
      "step\<^sup>*\<^sup>* u t" "\<not> isGameActive t" by blast
    with u(1) show ?thesis by (meson rtranclp_trans)
  qed
qed

lemma revealed_more_fields:
  "moves (revealed i s) = moves s" "difficulty (revealed i s) = difficulty s"
  "gameResults (revealed i s) = gameResults s"
  by (simp_all add: revealed_def)

lemma demo_board_pair:
  assumes "k < 8"
  shows "nth_opt demo_board (2 * k) = Some (demo_card k)"
    and "nth_opt demo_board (2 * k + 1) = Some (demo_card k)"
proof -
  from assms have "k = 0 \<or> k = 1 \<or> k = 2 \<or> k = 3 \<or> k = 4 \<or> k = 5 \<or> k = 6 \<or> k = 7"
    by arith
  then show "nth_opt demo_board (2 * k) = Some (demo_card k)"
    and "nth_opt demo_board (2 * k + 1) = Some (demo_card k)"
    by (auto simp: nth_opt_def demo_board_def)
qed

lemma demo_start_more_fields:
  "moves demo_start = 0" "difficulty demo_start = ''beginner''" "gameResults demo_start = []"
  by (simp_all add: demo_start_def demo_new_def)

lemma not_matched_pairs:
  "\<not> list_ex (\<lambda>pair. fst pair = 2 * k \<or> snd pair = 2 * k) (map (\<lambda>j. (2 * j, 2 * j + 1)) [0 ..< k])"
  "\<not> list_ex (\<lambda>pair. fst pair = 2 * k + 1 \<or> snd pair = 2 * k + 1)
       (map (\<lambda>j. (2 * j, 2 * j + 1)) [0 ..< k])"
  by (auto simp: list_ex_iff)

lemma demo_play_fields_and_steps:
  assumes "k \<le> 8"
  shows "flippedCards (demo_play k) = [] \<and> cards (demo_play k) = demo_board
       \<and> matchedPairs (demo_play k) = map (\<lambda>j. (2 * j, 2 * j + 1)) [0 ..< k]
       \<and> currentPlayer (demo_play k) = Player \<and> isGameActive (demo_play k) = (k < 8)
       \<and> totalPairs (demo_play k) = 8 \<and> playerScore (demo_play k) = k
       \<and> aiScore (demo_play k) = 0 \<and> moves (demo_play k) = k
       \<and> difficulty (demo_play k) = ''beginner'' \<and> config (demo_play k) = beginner
       \<and> gameResults (demo_play k) = (if k < 8 then [] else [demo_result])
       \<and> step\<^sup>*\<^sup>* demo_start (demo_play k)
       \<and> (0 < k \<longrightarrow> step\<^sup>*\<^sup>* (demo_play (k - 1)) (demo_play k))"
  using assms
proof (induction k)
  case 0
  then show ?case by (simp add: demo_start_fields demo_start_more_fields)
next
  case (Suc k)
  then have k: "k < 8" by simp
  define p where "p = demo_play k"
  define r1 where "r1 = revealed (2 * k) p"
  define r2 where "r2 = revealed (2 * k + 1) r1"
  define q where "q = resolved r2"
  have q: "demo_play (Suc k) = q" by (simp add: q_def r2_def r1_def p_def)
  from Suc have p: "flippedCards p = []" "cards p = demo_board"
    "matchedPairs p = map (\<lambda>j. (2 * j, 2 * j + 1)) [0 ..< k]"
    "currentPlayer p = Player" "isGameActive p" "totalPairs p = 8" "playerScore p = k"
    "aiScore p = 0" "moves p = k" "difficulty p = ''beginner''" "gameResults p = []"
    "config p = beginner"
    and st: "step\<^sup>*\<^sup>* demo_start p"
    unfolding p_def by simp_all
  have r2: "flippedCards r2 = [2 * k, 2 * k + 1]" "cards r2 = demo_board"
    "matchedPairs r2 = map (\<lambda>j. (2 * j, 2 * j + 1)) [0 ..< k]"
    "currentPlayer r2 = Player" "isGameActive r2" "totalPairs r2 = 8" "playerScore r2 = k"
    "aiScore r2 = 0" "moves r2 = k" "difficulty r2 = ''beginner''" "gameResults r2 = []"
    "config r2 = beginner"
    unfolding r2_def r1_def by (simp_all add: revealed_fields revealed_more_fields p)
  have s1: "step p r1"
  proof (rule step.reveal)
    show "isValidCardClick p (2 * k)"
      using not_matched_pairs(1)[of k]
      by (simp add: isValidCardClick_def isCardMatched_def p)
    show "playerReveal (2 * k) p = Inr r1"
      unfolding r1_def using k by (intro playerReveal_in_range) (simp add: p length_demo_board)
  qed
  have s2: "step r1 r2"
  proof (rule step.reveal)
    show "isValidCardClick r1 (2 * k + 1)"
      unfolding r1_def using not_matched_pairs(2)[of k]
      by (simp add: isValidCardClick_def isCardMatched_def revealed_fields p)
    show "playerReveal (2 * k + 1) r1 = Inr r2"
      unfolding r2_def r1_def using k
      by (intro playerReveal_in_range) (simp add: revealed_fields p length_demo_board)
  qed
  have res: "resolution r2 =
           Inr (if length (matchedPairs r2) + 1 = totalPairs r2
                then endGame ((handleMatch (2 * k) (2 * k + 1) r2)
                       \<lparr>moves := moves r2 + 1,
                        ai := recordMoveResult (2 * k, 2 * k + 1) True
                                (symbol (demo_card k), symbol (demo_card k)) (ai r2),
                        flippedCards := []\<rparr>)
                else (handleMatch (2 * k) (2 * k + 1) r2)
                       \<lparr>moves := moves r2 + 1,
                        ai := recordMoveResult (2 * k, 2 * k + 1) True
                                (symbol (demo_card k), symbol (demo_card k)) (ai r2),
                        flippedCards := []\<rparr>)"
    by (rule resolution_match[where rest = "[]"])
       (use r2 demo_board_pair[OF k] in simp_all)
  then have rs: "resolution r2 = Inr q"
    by (simp add: q_def resolved_def)
  have s3: "step r2 q"
    by (rule step.resolve[OF _ rs]) (simp add: r2)
  from s1 s2 s3 have one: "step\<^sup>*\<^sup>* p q" by simp
  with st have steps: "step\<^sup>*\<^sup>* demo_start q" by simp
  have f: "flippedCards q = [] \<and> cards q = demo_board
       \<and> matchedPairs q = map (\<lambda>j. (2 * j, 2 * j + 1)) [0 ..< Suc k]
       \<and> currentPlayer q = Player \<and> isGameActive q = (Suc k < 8)
       \<and> totalPairs q = 8 \<and> playerScore q = Suc k
       \<and> aiScore q = 0 \<and> moves q = Suc k
       \<and> difficulty q = ''beginner'' \<and> config q = beginner
       \<and> gameResults q = (if Suc k < 8 then [] else [demo_result])"
    using k unfolding q_def resolved_def res
    by (auto simp: r2 handleMatch_def endGame_def Let_def demo_result_def)
  from f steps one[unfolded p_def] show ?case unfolding q by simp
qed

text \<open>C4. Let \<open>s\<close> be a state of the match that \<open>setupNewGame s0\<close> started, and \<open>s'\<close> a
  state that the match reaches from \<open>s\<close> by its steps (reveals, resolutions, opponent's
  reveals; every run of \<open>handleCardClick\<close> is a sequence of such steps,
  \<open>handleCardClick_steps\<close>). Then:
  \<^item> the number of matched pairs in \<open>s'\<close> is at least the number in \<open>s\<close>;
  \<^item> the match is finished in \<open>s'\<close> (\<open>isGameActive\<close> false) exactly if that number is
    \<open>rows * cols / 2\<close>, which it never exceeds;
  \<^item> no step leaves a finished state: if \<open>s\<close> is finished, \<open>s'\<close> is \<open>s\<close>;
  \<^item> every matched pair gave one point to one player;
  \<^item> \<open>endGame\<close> has produced no result while the match is active and exactly one once
    it is finished, whose winner is the player with the higher final score, or a tie;
  \<^item> every step from \<open>s'\<close> starts in an active state and adds exactly one matched pair if
    it resolves two revealed cards with equal pair identifiers, and none otherwise; its
    target is finished exactly if the count has become \<open>rows * cols / 2\<close>;
  \<^item> the match can be finished from \<open>s'\<close>: some sequence of steps leads to a finished
    state, where the count is \<open>rows * cols / 2\<close>.
  A match need not be played to its end, so that every match reaches the finished state is
  not a property of the program.\<close>

theorem matched_count_monotone_finished_once:
  assumes "step\<^sup>*\<^sup>* (setupNewGame s0) s" and "step\<^sup>*\<^sup>* s s'"
  shows "length (matchedPairs s) \<le> length (matchedPairs s')
       \<and> (\<not> isGameActive s' \<longleftrightarrow>
            length (matchedPairs s') = (rows (config s') * cols (config s')) div 2)
       \<and> length (matchedPairs s') \<le> (rows (config s') * cols (config s')) div 2
       \<and> (\<not> isGameActive s \<longrightarrow> s' = s)
       \<and> playerScore s' + aiScore s' = length (matchedPairs s')
       \<and> gameResults s' = gameResults s0 @
           (if isGameActive s' then []
            else [\<lparr>winner = (if playerScore s' > aiScore s' then player_wins
                              else if aiScore s' > playerScore s' then ai_wins else tie),
                   finalPlayerScore = playerScore s', finalAiScore = aiScore s',
                   totalMoves = moves s', finalDifficulty = difficulty s'\<rparr>])
       \<and> (\<forall>t. step s' t \<longrightarrow>
             isGameActive s'
           \<and> length (matchedPairs t) = length (matchedPairs s')
               + (if length (flippedCards s') = 2
                     \<and> pairId (cards s' ! (flippedCards s' ! 0))
                         = pairId (cards s' ! (flippedCards s' ! 1))
                  then 1 else 0)
           \<and> (\<not> isGameActive t \<longleftrightarrow>
                 length (matchedPairs t) = (rows (config t) * cols (config t)) div 2))
       \<and> (\<exists>t. step\<^sup>*\<^sup>* s' t \<and> \<not> isGameActive t
              \<and> length (matchedPairs t) = (rows (config t) * cols (config t)) div 2)"
proof -
  from assms(2) have mono: "length (matchedPairs s) \<le> length (matchedPairs s')"
    by (induction rule: rtranclp_induct) (auto dest: step_matched_mono)
  from assms have all: "step\<^sup>*\<^sup>* (setupNewGame s0) s'" by simp
  from scored_steps[OF all] have inv': "invariant s'" and sc': "scored s0 s'" by simp_all
  from scored_steps[OF assms(1)] have inv: "invariant s" by simp
  have terminal: "\<not> isGameActive s \<longrightarrow> s' = s"
  proof
    assume na: "\<not> isGameActive s"
    from assms(2) show "s' = s"
    proof (rule converse_rtranclpE)
      assume "s = s'"
      then show ?thesis by simp
    next
      fix y assume "step s y"
      with inv na show ?thesis by (auto dest: step_from_active)
    qed
  qed
  have nxt: "isGameActive s'
           \<and> length (matchedPairs t) = length (matchedPairs s')
               + (if length (flippedCards s') = 2
                     \<and> pairId (cards s' ! (flippedCards s' ! 0))
                         = pairId (cards s' ! (flippedCards s' ! 1))
                  then 1 else 0)
           \<and> (\<not> isGameActive t \<longleftrightarrow>
                 length (matchedPairs t) = (rows (config t) * cols (config t)) div 2)"
    if st: "step s' t" for t
  proof -
    from invariant_step[OF st inv'] have "invariant t" .
    then have "\<not> isGameActive t \<longleftrightarrow>
                 length (matchedPairs t) = (rows (config t) * cols (config t)) div 2"
      by (simp add: invariant_def)
    with step_count[OF st inv'] show ?thesis by simp
  qed
  from inv' have i2: "(\<not> isGameActive s' \<longleftrightarrow>
            length (matchedPairs s') = (rows (config s') * cols (config s')) div 2)
       \<and> length (matchedPairs s') \<le> (rows (config s') * cols (config s')) div 2"
    by (simp add: invariant_def)
  from sc' have i3: "playerScore s' + aiScore s' = length (matchedPairs s')
       \<and> gameResults s' = gameResults s0 @
           (if isGameActive s' then []
            else [\<lparr>winner = (if playerScore s' > aiScore s' then player_wins
                              else if aiScore s' > playerScore s' then ai_wins else tie),
                   finalPlayerScore = playerScore s', finalAiScore = aiScore s',
                   totalMoves = moves s', finalDifficulty = difficulty s'\<rparr>])"
    by (simp add: scored_def)
  from all have "consistent s'"
    by (rule consistent_steps) (rule consistent_start)
  from can_finish[OF this] obtain t where t: "step\<^sup>*\<^sup>* s' t" "\<not> isGameActive t" by blast
  from all t(1) have "step\<^sup>*\<^sup>* (setupNewGame s0) t" by simp
  from scored_steps[OF this] t(2)
  have "length (matchedPairs t) = (rows (config t) * cols (config t)) div 2"
    by (simp add: invariant_def)
  with t have fin: "\<exists>t. step\<^sup>*\<^sup>* s' t \<and> \<not> isGameActive t
              \<and> length (matchedPairs t) = (rows (config t) * cols (config t)) div 2"
    by blast
  from mono i2 terminal i3 nxt fin show ?thesis by blast
qed

theorem matched_count_monotone_finished_once_witness:
  "step\<^sup>*\<^sup>* (setupNewGame demo_new) (demo_play 7) \<and> step\<^sup>*\<^sup>* (demo_play 7) (demo_play 8)
   \<and> length (matchedPairs (demo_play 7)) = 7 \<and> isGameActive (demo_play 7)
   \<and> gameResults (demo_play 7) = []
   \<and> length (matchedPairs (demo_play 8)) = 8 \<and> \<not> isGameActive (demo_play 8)
   \<and> playerScore (demo_play 8) + aiScore (demo_play 8) = 8
   \<and> gameResults (demo_play 8) =
       [\<lparr>winner = player_wins, finalPlayerScore = 8, finalAiScore = 0, totalMoves = 8,
         finalDifficulty = ''beginner''\<rparr>]"
proof -
  have f7: "length (matchedPairs (demo_play 7)) = 7" "isGameActive (demo_play 7)"
    "gameResults (demo_play 7) = []" "step\<^sup>*\<^sup>* demo_start (demo_play 7)"
    using demo_play_fields_and_steps[of 7] by simp_all
  have f8: "isGameActive (demo_play 8) = False" "playerScore (demo_play 8) = 8"
    "aiScore (demo_play 8) = 0" "moves (demo_play 8) = 8"
    "difficulty (demo_play 8) = ''beginner''" "config (demo_play 8) = beginner"
    using demo_play_fields_and_steps[of 8] by simp_all
  have h1: "step\<^sup>*\<^sup>* (setupNewGame demo_new) (demo_play 7)"
    using f7(4) by (simp add: setup_demo)
  have h2: "step\<^sup>*\<^sup>* (demo_play 7) (demo_play 8)"
    using demo_play_fields_and_steps[of 8] by simp
  from matched_count_monotone_finished_once[OF h1 h2]
  have "(\<not> isGameActive (demo_play 8) \<longleftrightarrow>
            length (matchedPairs (demo_play 8))
              = (rows (config (demo_play 8)) * cols (config (demo_play 8))) div 2)"
    and "playerScore (demo_play 8) + aiScore (demo_play 8) = length (matchedPairs (demo_play 8))"
    and "gameResults (demo_play 8) = gameResults demo_new @
           (if isGameActive (demo_play 8) then []
            else [\<lparr>winner = (if playerScore (demo_play 8) > aiScore (demo_play 8) then player_wins
                              else if aiScore (demo_play 8) > playerScore (demo_play 8) then ai_wins
                              else tie),
                   finalPlayerScore = playerScore (demo_play 8),
                   finalAiScore = aiScore (demo_play 8),
                   totalMoves = moves (demo_play 8),
                   finalDifficulty = difficulty (demo_play 8)\<rparr>])"
    by blast+
  then have "length (matchedPairs (demo_play 8)) = 8 \<and> \<not> isGameActive (demo_play 8)
   \<and> playerScore (demo_play 8) + aiScore (demo_play 8) = 8
   \<and> gameResults (demo_play 8) =
       [\<lparr>winner = player_wins, finalPlayerScore = 8, finalAiScore = 0, totalMoves = 8,
         finalDifficulty = ''beginner''\<rparr>]"
    unfolding f8 by (simp add: demo_new_def)
  with h1 h2 f7 show ?thesis by blast
qed


section \<open>The revealed cards along the opponent's move\<close>

lemma revealed_ai_fields:
  "memory (ai (revealed i s)) =
     (if frac (draws (random s) (pos (random s))) < memoryAccuracy (ai s)
      then AList.update i (symbol (cards s ! i)) (memory (ai s)) else memory (ai s))"
  "playerPatterns (ai (revealed i s)) =
     (if 20 \<le> length (playerPatterns (ai s))
      then tl (playerPatterns (ai s) @ [(i, moveCount (ai s))])
      else playerPatterns (ai s) @ [(i, moveCount (ai s))])"
  "ai_config (ai (revealed i s)) = ai_config (ai s)"
  "memoryAccuracy (ai (revealed i s)) = memoryAccuracy (ai s)"
  "moveCount (ai (revealed i s)) = moveCount (ai s) + 1"
  "random (revealed i s) = (random s)\<lparr>pos := Suc (pos (random s))\<rparr>"
  by (simp_all add: revealed_def observeCard_fields)

lemma recordMoveResult_fields:
  "memory (recordMoveResult cs m syms a) = memory a"
  "playerPatterns (recordMoveResult cs m syms a) = playerPatterns a"
  "moveCount (recordMoveResult cs m syms a) = moveCount a"
  by (simp_all add: recordMoveResult_def learnFromMove_def Let_def)

lemma resolution_mismatch:
  assumes "flippedCards s = c1 # c2 # rest"
    and "nth_opt (cards s) c1 = Some card1" and "nth_opt (cards s) c2 = Some card2"
    and "pairId card1 \<noteq> pairId card2" and "length (matchedPairs s) \<noteq> totalPairs s"
  shows "resolution s =
           Inr (s\<lparr>moves := moves s + 1,
                  ai := recordMoveResult (c1, c2) False (symbol card1, symbol card2) (ai s),
                  flippedCards := [],
                  currentPlayer := (if currentPlayer s = Player then AI else Player)\<rparr>)"
  using assms
  by (simp add: resolution_def Let_def handleMismatch_def isGameComplete_def switchTurn_def)

lemma demo_board_nth:
  "nth_opt demo_board 0 = Some (demo_card 0)" "nth_opt demo_board 1 = Some (demo_card 0)"
  "nth_opt demo_board 2 = Some (demo_card 1)" "nth_opt demo_board 4 = Some (demo_card 2)"
  "nth_opt demo_board 7 = Some (demo_card 3)"
  "nth_opt demo_board (Suc 0) = Some (demo_card 0)"
  by (simp_all add: nth_opt_def demo_board_def)

lemma demo_s2_fields:
  "flippedCards demo_s2 = [0, 1]" "cards demo_s2 = demo_board"
  "matchedPairs demo_s2 = []" "currentPlayer demo_s2 = Player"
  "isGameActive demo_s2" "totalPairs demo_s2 = 8" "aiScore demo_s2 = 0"
  "random demo_s2 = \<lparr>draws = demo_draws, pos = 17\<rparr>"
  "memory (ai demo_s2) = []"
  "playerPatterns (ai demo_s2) = [(0, 0), (1, 1)]"
  "ai_config (ai demo_s2) = beginner"
  "memoryAccuracy (ai demo_s2) = 7 / 10"
  "moveCount (ai demo_s2) = 2"
  unfolding demo_s2_def
  by (simp_all add: revealed_fields revealed_ai_fields demo_start_fields demo_ai_fields
                    demo_draws_def frac_demo)

lemma demo_s2_resolution:
  "resolution demo_s2 =
     Inr ((handleMatch 0 1 demo_s2)
            \<lparr>moves := moves demo_s2 + 1,
             ai := recordMoveResult (0, 1) True (symbol (demo_card 0), symbol (demo_card 0))
                     (ai demo_s2),
             flippedCards := []\<rparr>)"
  by (rule resolution_match_continues[where rest = "[]"])
     (simp_all add: demo_s2_fields demo_board_nth)

lemma demo_s3_fields:
  "flippedCards demo_s3 = []" "cards demo_s3 = demo_board"
  "matchedPairs demo_s3 = [(0, 1)]" "currentPlayer demo_s3 = Player"
  "isGameActive demo_s3" "totalPairs demo_s3 = 8" "aiScore demo_s3 = 0"
  "random demo_s3 = \<lparr>draws = demo_draws, pos = 17\<rparr>"
  "memory (ai demo_s3) = []"
  "playerPatterns (ai demo_s3) = [(0, 0), (1, 1)]"
  "ai_config (ai demo_s3) = beginner"
  "memoryAccuracy (ai demo_s3) = 71 / 100"
  "moveCount (ai demo_s3) = 2"
  unfolding demo_s3_def resolved_def demo_s2_resolution
  by (simp_all add: handleMatch_def demo_s2_fields recordMoveResult_fields
                    recordMoveResult_accuracy)

lemma demo_s5_fields:
  "flippedCards demo_s5 = [2, 4]" "cards demo_s5 = demo_board"
  "matchedPairs demo_s5 = [(0, 1)]" "currentPlayer demo_s5 = Player"
  "isGameActive demo_s5" "totalPairs demo_s5 = 8" "aiScore demo_s5 = 0"
  "random demo_s5 = \<lparr>draws = demo_draws, pos = 19\<rparr>"
  "memory (ai demo_s5) = []"
  "playerPatterns (ai demo_s5) = [(0, 0), (1, 1), (2, 2), (4, 3)]"
  "ai_config (ai demo_s5) = beginner"
  "memoryAccuracy (ai demo_s5) = 71 / 100"
  "moveCount (ai demo_s5) = 4"
  unfolding demo_s5_def
  by (simp_all add: revealed_fields revealed_ai_fields demo_s3_fields demo_draws_def frac_demo)

lemma demo_s5_resolution:
  "resolution demo_s5 =
     Inr (demo_s5\<lparr>moves := moves demo_s5 + 1,
            ai := recordMoveResult (2, 4) False (symbol (demo_card 1), symbol (demo_card 2))
                    (ai demo_s5),
            flippedCards := [],
            currentPlayer := (if currentPlayer demo_s5 = Player then AI else Player)\<rparr>)"
  by (rule resolution_mismatch[where rest = "[]"])
     (simp_all add: demo_s5_fields demo_board_nth demo_card_def)

lemma demo_s6_fields:
  "flippedCards demo_s6 = []" "cards demo_s6 = demo_board"
  "matchedPairs demo_s6 = [(0, 1)]" "currentPlayer demo_s6 = AI"
  "isGameActive demo_s6" "totalPairs demo_s6 = 8" "aiScore demo_s6 = 0"
  "random demo_s6 = \<lparr>draws = demo_draws, pos = 19\<rparr>"
  "memory (ai demo_s6) = []"
  "playerPatterns (ai demo_s6) = [(0, 0), (1, 1), (2, 2), (4, 3)]"
  "ai_config (ai demo_s6) = beginner"
  "memoryAccuracy (ai demo_s6) = 141 / 200"
  "moveCount (ai demo_s6) = 4"
  unfolding demo_s6_def resolved_def demo_s5_resolution
  by (simp_all add: demo_s5_fields recordMoveResult_fields recordMoveResult_accuracy)

lemma upt_16: "[0..<16] = [0, 1, 2, 3, 4, 5, 6, 7, 8, 9, 10, 11, 12, 13, 14, 15]"
  by (simp add: upt_rec del: upt_rec_numeral)

lemma demo_s6_available:
  "getAvailableCards demo_s6 = [2, 3, 4, 5, 6, 7, 8, 9, 10, 11, 12, 13, 14, 15]"
  unfolding getAvailableCards_def demo_s6_fields length_demo_board upt_16
  by (simp add: isCardMatched_def demo_s6_fields)

lemma demo_s6_analysis: "analyzePlayerPatterns (ai demo_s6) = ([(0, 0), (0, 1)], 3 / 4)"
  by (simp add: analyzePlayerPatterns_def areaPreferences_def areaOf_def demo_s6_fields
                sortBy_def Let_def)

lemma demo_s6_blocked:
  "filter (\<lambda>index. areaOf (cols beginner) index \<in> set [(0, 0), (0, 1)])
     [2, 3, 4, 5, 6, 7, 8, 9, 10, 11, 12, 13, 14, 15] = [2, 3, 4, 5, 6, 7]"
  by (simp add: areaOf_def)

lemma explorationMove_blocked:
  assumes "filter (\<lambda>index. \<not> has (memory a) index) av = unknown" "2 \<le> length unknown"
    and "analyzePlayerPatterns a = (predicted, confidence)" "confidence > 4 / 10"
    and "Math_random g = (r, g1)" "r < 3 / 10"
    and "filter (\<lambda>index. areaOf (cols (ai_config a)) index \<in> set predicted) unknown = blocked"
    and "2 \<le> length blocked"
  shows "explorationMove a av g = pickTwo blocked g1"
  using assms by (simp add: explorationMove_def Let_def)

lemma demo_s6_explorationMove:
  "explorationMove (ai demo_s6) [2, 3, 4, 5, 6, 7, 8, 9, 10, 11, 12, 13, 14, 15]
     \<lparr>draws = demo_draws, pos = 19\<rparr>
   = pickTwo [2, 3, 4, 5, 6, 7] \<lparr>draws = demo_draws, pos = 20\<rparr>"
proof (rule explorationMove_blocked)
  show "filter (\<lambda>index. \<not> has (memory (ai demo_s6)) index)
          [2, 3, 4, 5, 6, 7, 8, 9, 10, 11, 12, 13, 14, 15]
        = [2, 3, 4, 5, 6, 7, 8, 9, 10, 11, 12, 13, 14, 15]"
    by (simp add: demo_s6_fields has_def)
  show "2 \<le> length [2, 3, 4, 5, 6, 7, 8, 9, 10, 11, 12, 13, 14, 15::nat]" by simp
  show "analyzePlayerPatterns (ai demo_s6) = ([(0, 0), (0, 1)], 3 / 4)"
    by (rule demo_s6_analysis)
  show "(3 / 4 :: real) > 4 / 10" by simp
  show "Math_random \<lparr>draws = demo_draws, pos = 19\<rparr> = (1 / 10, \<lparr>draws = demo_draws, pos = 20\<rparr>)"
    by (simp add: Math_random_def demo_draws_def frac_demo)
  show "(1 / 10 :: real) < 3 / 10" by simp
  show "filter (\<lambda>index. areaOf (cols (ai_config (ai demo_s6))) index \<in> set [(0, 0), (0, 1)])
          [2, 3, 4, 5, 6, 7, 8, 9, 10, 11, 12, 13, 14, 15] = [2, 3, 4, 5, 6, 7]"
    unfolding demo_s6_fields by (rule demo_s6_blocked)
  show "2 \<le> length [2, 3, 4, 5, 6, 7::nat]" by simp
qed

lemma demo_pickTwo:
  "pickTwo [2, 3, 4, 5, 6, 7] \<lparr>draws = demo_draws, pos = 20\<rparr>
     = ((Some 7, Some 7), \<lparr>draws = demo_draws, pos = 22\<rparr>)"
  by (simp add: pickTwo_def randomChoice_eval nth_opt_def demo_draws_def frac_demo)

lemma demo_s6_makeMove:
  "makeMove (ai demo_s6) (getAvailableCards demo_s6) (random demo_s6)
     = ((Some 7, Some 7), \<lparr>draws = demo_draws, pos = 22\<rparr>)"
  unfolding demo_s6_available demo_s6_fields(8)
  by (simp only: makeMove_no_memory[OF demo_s6_fields(9)] demo_s6_explorationMove demo_pickTwo)

lemma aiReveal_eq:
  assumes "makeMove (ai s) (getAvailableCards s) (random s) = ((Some c1, Some c2), g)"
    and "nth_opt (cards s) c1 = Some card1" and "nth_opt (cards s) c2 = Some card2"
  shows "aiReveal s =
     Inr (s\<lparr>flippedCards := flippedCards s @ [c1, c2],
            ai := fst (observeCard c2 (symbol card2) False
                        (fst (observeCard c1 (symbol card1) False (ai s, g)),
                         snd (observeCard c1 (symbol card1) False (ai s, g)))),
            random := snd (observeCard c2 (symbol card2) False
                        (fst (observeCard c1 (symbol card1) False (ai s, g)),
                         snd (observeCard c1 (symbol card1) False (ai s, g))))\<rparr>)"
  using assms by (simp add: aiReveal_def split: prod.splits)

lemma demo_s6_aiReveal:
  "aiReveal demo_s6 =
     Inr (demo_s6\<lparr>flippedCards := flippedCards demo_s6 @ [7, 7],
            ai := fst (observeCard 7 (symbol (demo_card 3)) False
                        (fst (observeCard 7 (symbol (demo_card 3)) False
                               (ai demo_s6, \<lparr>draws = demo_draws, pos = 22\<rparr>)),
                         snd (observeCard 7 (symbol (demo_card 3)) False
                               (ai demo_s6, \<lparr>draws = demo_draws, pos = 22\<rparr>)))),
            random := snd (observeCard 7 (symbol (demo_card 3)) False
                        (fst (observeCard 7 (symbol (demo_card 3)) False
                               (ai demo_s6, \<lparr>draws = demo_draws, pos = 22\<rparr>)),
                         snd (observeCard 7 (symbol (demo_card 3)) False
                               (ai demo_s6, \<lparr>draws = demo_draws, pos = 22\<rparr>))))\<rparr>)"
  by (rule aiReveal_eq[OF demo_s6_makeMove])
     (simp_all add: demo_s6_fields demo_board_nth)

lemma demo_s7_fields:
  "flippedCards demo_s7 = [7, 7]" "cards demo_s7 = demo_board"
  "matchedPairs demo_s7 = [(0, 1)]" "currentPlayer demo_s7 = AI"
  "isGameActive demo_s7" "totalPairs demo_s7 = 8" "aiScore demo_s7 = 0"
  "random demo_s7 = \<lparr>draws = demo_draws, pos = 24\<rparr>"
  "memory (ai demo_s7) = []"
  unfolding demo_s7_def opponentRevealed_def demo_s6_aiReveal
  by (simp_all add: demo_s6_fields observeCard_fields demo_draws_def frac_demo)

lemma demo_resolutions:
  "resolution demo_s2 = Inr demo_s3" "resolution demo_s5 = Inr demo_s6"
  "aiReveal demo_s6 = Inr demo_s7"
proof -
  show "resolution demo_s2 = Inr demo_s3"
    unfolding demo_s3_def resolved_def demo_s2_resolution by simp
  show "resolution demo_s5 = Inr demo_s6"
    unfolding demo_s6_def resolved_def demo_s5_resolution by simp
  show "aiReveal demo_s6 = Inr demo_s7"
    unfolding demo_s7_def opponentRevealed_def demo_s6_aiReveal by simp
qed

lemma demo_reveals:
  "playerReveal 0 demo_start = Inr (revealed 0 demo_start)"
  "playerReveal 1 (revealed 0 demo_start) = Inr demo_s2"
  "playerReveal 2 demo_s3 = Inr (revealed 2 demo_s3)"
  "playerReveal 4 (revealed 2 demo_s3) = Inr demo_s5"
  unfolding demo_s2_def demo_s5_def
  by (rule playerReveal_in_range,
      simp add: revealed_fields demo_start_fields demo_s3_fields length_demo_board)+

lemma demo_steps:
  "step demo_start (revealed 0 demo_start)"
  "step (revealed 0 demo_start) demo_s2"
  "step demo_s2 demo_s3"
  "step demo_s3 (revealed 2 demo_s3)"
  "step (revealed 2 demo_s3) demo_s5"
  "step demo_s5 demo_s6"
  "step demo_s6 demo_s7"
proof -
  show "step demo_start (revealed 0 demo_start)" by (rule step_demo_reveal_0)
  show "step (revealed 0 demo_start) demo_s2"
    by (rule step.reveal[OF _ demo_reveals(2)])
       (simp add: isValidCardClick_def isCardMatched_def revealed_fields demo_start_fields)
  show "step demo_s2 demo_s3"
    by (rule step.resolve[OF _ demo_resolutions(1)]) (simp add: demo_s2_fields)
  show "step demo_s3 (revealed 2 demo_s3)"
    by (rule step.reveal[OF _ demo_reveals(3)])
       (simp add: isValidCardClick_def isCardMatched_def demo_s3_fields)
  show "step (revealed 2 demo_s3) demo_s5"
    by (rule step.reveal[OF _ demo_reveals(4)])
       (simp add: isValidCardClick_def isCardMatched_def revealed_fields demo_s3_fields)
  show "step demo_s5 demo_s6"
    by (rule step.resolve[OF _ demo_resolutions(2)]) (simp add: demo_s5_fields)
  show "step demo_s6 demo_s7"
    by (rule step.opponent[OF _ _ _ _ demo_resolutions(3)])
       (simp_all add: demo_s6_fields demo_s6_available isGameComplete_def)
qed

lemma reachable_demo_s7: "reachable demo_s7"
  by (intro reachable.next_step[OF _ demo_steps(7)] reachable.next_step[OF _ demo_steps(6)]
        reachable.next_step[OF _ demo_steps(5)] reachable.next_step[OF _ demo_steps(4)]
        reachable.next_step[OF _ demo_steps(3)] reachable.next_step[OF _ demo_steps(2)]
        reachable.next_step[OF _ demo_steps(1)] reachable_demo_start)

lemma demo_s7_resolution:
  "\<exists>s'. resolution demo_s7 = Inr s' \<and> matchedPairs s' = [(0, 1), (7, 7)] \<and> aiScore s' = 1"
proof -
  have "resolution demo_s7 =
           Inr ((handleMatch 7 7 demo_s7)
                  \<lparr>moves := moves demo_s7 + 1,
                   ai := recordMoveResult (7, 7) True (symbol (demo_card 3), symbol (demo_card 3))
                           (ai demo_s7),
                   flippedCards := []\<rparr>)"
    by (rule resolution_match_continues[where rest = "[]"])
       (simp_all add: demo_s7_fields demo_board_nth)
  then show ?thesis by (simp add: handleMatch_def demo_s7_fields)
qed

lemma demo_clicks:
  "handleCardClick 0 demo_start = Inr (revealed 0 demo_start)"
  "handleCardClick 1 (revealed 0 demo_start) = Inr demo_s3"
  "handleCardClick 2 demo_s3 = Inr (revealed 2 demo_s3)"
  "handleCardClick 4 (revealed 2 demo_s3) = evaluateMove demo_s7"
proof -
  have v: "isValidCardClick demo_start 0" "isValidCardClick (revealed 0 demo_start) 1"
    "isValidCardClick demo_s3 2" "isValidCardClick (revealed 2 demo_s3) 4"
    by (simp_all add: isValidCardClick_def isCardMatched_def revealed_fields demo_start_fields
                      demo_s3_fields)
  have a: "isGameActive demo_start" "isGameActive (revealed 0 demo_start)"
    "isGameActive demo_s3" "isGameActive (revealed 2 demo_s3)"
    by (simp_all add: revealed_fields demo_start_fields demo_s3_fields)
  show "handleCardClick 0 demo_start = Inr (revealed 0 demo_start)"
    by (simp add: handleCardClick_def v a makePlayerMove_def demo_reveals revealed_fields
                  demo_start_fields)
  have "evaluateMove demo_s2 = Inr demo_s3"
    by (simp add: evaluateMove_def demo_resolutions demo_s3_fields)
  then show "handleCardClick 1 (revealed 0 demo_start) = Inr demo_s3"
    by (simp add: handleCardClick_def v a makePlayerMove_def demo_reveals demo_s2_fields
             del: One_nat_def)
  show "handleCardClick 2 demo_s3 = Inr (revealed 2 demo_s3)"
    by (simp add: handleCardClick_def v a makePlayerMove_def demo_reveals revealed_fields
                  demo_s3_fields)
  have "makeAIMove demo_s6 = evaluateMove demo_s7"
    by (subst makeAIMove_evaluateMove)
       (simp add: demo_s6_fields demo_s6_available demo_resolutions)
  then have "evaluateMove demo_s5 = evaluateMove demo_s7"
    by (simp add: evaluateMove_def[of demo_s5] demo_resolutions demo_s6_fields
                  isGameComplete_def)
  then show "handleCardClick 4 (revealed 2 demo_s3) = evaluateMove demo_s7"
    by (simp add: handleCardClick_def v a makePlayerMove_def demo_reveals demo_s5_fields)
qed

text \<open>C3. The claim does not hold of the code. In the example match the human clicks cards
  0, 1 and 2; the click on card 4 completes a mismatch and starts the opponent's move. The
  move comes from the branch of \<open>explorationMove\<close> that prefers the human's favoured
  areas, which has the same slip as the fallback branch: \<open>makeMove\<close> returns card 7
  twice, \<open>makeAIMove\<close> pushes both into the revealed list and calls \<open>evaluateMove\<close> in
  that state, and the resolution records the pair \<open>(7, 7)\<close> as a match for the
  opponent.\<close>

theorem opponent_reveals_one_card_twice:
  "run [handleCardClick 0, handleCardClick 1, handleCardClick 2] (setupNewGame demo_new)
     = Inr (revealed 2 demo_s3)
   \<and> handleCardClick 4 (revealed 2 demo_s3) = evaluateMove demo_s7
   \<and> reachable demo_s7 \<and> flippedCards demo_s7 = [7, 7]
   \<and> (\<exists>s'. resolution demo_s7 = Inr s' \<and> matchedPairs s' = [(0, 1), (7, 7)] \<and> aiScore s' = 1)"
proof -
  have "run [handleCardClick 0, handleCardClick 1, handleCardClick 2] (setupNewGame demo_new)
          = Inr (revealed 2 demo_s3)"
    by (simp add: setup_demo demo_clicks del: One_nat_def)
  with demo_clicks(4) reachable_demo_s7 demo_s7_fields(1) demo_s7_resolution
  show ?thesis by blast
qed

end
